(* ===== verification/Prelude.thy ===== *)
theory Prelude
  imports Main "HOL-Library.Char_ord" "HOL-Library.List_Lexorder" "HOL-Library.Product_Lexorder"
begin

text \<open>
  Shared vocabulary of the development: the collections of rewrite rules the component
  theories fill, the "return the first error" chain in which the Go code writes its
  validators, and the list lemmas several components use.
\<close>

named_theorems go_time \<open>facts about instants, stamps and their parsing\<close>
named_theorems reg_ops \<open>definitions of the device registry's operations\<close>
named_theorems res_ops \<open>definitions of the reservation store's operations\<close>

subsection \<open>Chains of checks\<close>

text \<open>
  \<^verbatim>\<open>if err := A; err != nil { return err }; if err := B; err != nil { return err }; return C\<close>
  is \<open>first_err [A, B, C]\<close>, where each check is the error it returns, \<open>None\<close> for nil.
\<close>

fun first_err :: "'e option list \<Rightarrow> 'e option" where
  "first_err [] = None"
| "first_err (None # es) = first_err es"
| "first_err (Some e # es) = Some e"

lemma first_err_eq_None [simp]: "first_err es = None \<longleftrightarrow> (\<forall>e \<in> set es. e = None)"
  by (induction es rule: first_err.induct) auto

lemma first_err_SomeD: "first_err es = Some e \<Longrightarrow> Some e \<in> set es"
  by (induction es rule: first_err.induct) auto

lemma first_err_append:
  "first_err (xs @ ys) = (case first_err xs of None \<Rightarrow> first_err ys | Some e \<Rightarrow> Some e)"
  by (induction xs rule: first_err.induct) auto

end
