(* ===== verification/GoTime.thy ===== *)
theory GoTime
  imports Prelude
begin

text \<open>
  What the code uses of Go's \<open>time\<close> and \<open>strings\<close> packages. A \<open>time.Time\<close> is
  the number of nanoseconds since 1970-01-01T00:00:00Z (an \<open>int\<close>); a
  \<open>time.Duration\<close> is a number of nanoseconds. \<open>parse_rfc3339\<close> is
  \<open>time.Parse(time.RFC3339, s)\<close> with the inputs Go really accepts (a one-digit hour, a
  fraction after a period or a comma, an offset of up to 24:60), \<open>format_rfc3339\<close> is
  \<open>t.UTC().Format(time.RFC3339)\<close>, and \<open>truncate_second\<close> is
  \<open>t.Truncate(time.Second)\<close>. The main fact is the round trip \<open>parse_format\<close>: a stamp
  this code writes parses back to the instant it was written for, at second precision.
  A Go string is its bytes, one \<open>char\<close> each.
\<close>

type_synonym instant = int
type_synonym duration = int

definition second :: duration where "second = 1000000000"
definition minute :: duration where "minute = 60 * second"
definition hour :: duration where "hour = 60 * minute"

lemmas duration_defs = second_def minute_def hour_def

definition truncate_second :: "instant \<Rightarrow> instant" where
  "truncate_second t = (t div second) * second"

lemma truncate_second_le [go_time]: "truncate_second t \<le> t"
  unfolding truncate_second_def second_def using pos_mod_sign[of "1000000000" t]
  by (simp add: minus_mod_eq_div_mult [symmetric])

lemma truncate_second_gt [go_time]: "t < truncate_second t + second"
  unfolding truncate_second_def second_def using pos_mod_bound[of "1000000000" t]
  by (simp add: minus_mod_eq_div_mult [symmetric])

lemma truncate_second_idem [simp]: "truncate_second (truncate_second t) = truncate_second t"
  by (simp add: truncate_second_def second_def)

definition go_quot :: "int \<Rightarrow> int \<Rightarrow> int" where
  \<comment> \<open>Go's integer division, which truncates towards zero\<close>
  "go_quot a b = sgn a * sgn b * (\<bar>a\<bar> div \<bar>b\<bar>)"

definition go_rem :: "int \<Rightarrow> int \<Rightarrow> int" where
  "go_rem a b = a - b * go_quot a b"

lemma go_quot_nonneg: "0 \<le> a \<Longrightarrow> 0 < b \<Longrightarrow> go_quot a b = a div b"
  by (cases "a = 0") (simp_all add: go_quot_def)

lemma go_rem_nonneg: "0 \<le> a \<Longrightarrow> 0 < b \<Longrightarrow> go_rem a b = a mod b"
  by (simp add: go_rem_def go_quot_nonneg minus_mult_div_eq_mod)

definition time_sub :: "instant \<Rightarrow> instant \<Rightarrow> duration" where
  \<comment> \<open>\<open>t.Sub(u)\<close>, which saturates at the bounds of a 64-bit duration\<close>
  "time_sub t u = max (- (2 ^ 63)) (min (2 ^ 63 - 1) (t - u))"

subsection \<open>The strings package, on bytes\<close>

definition has_prefix :: "string \<Rightarrow> string \<Rightarrow> bool" where
  "has_prefix s p \<longleftrightarrow> take (length p) s = p"

definition has_suffix :: "string \<Rightarrow> string \<Rightarrow> bool" where
  "has_suffix s p \<longleftrightarrow> length p \<le> length s \<and> drop (length s - length p) s = p"

definition cut_prefix :: "string \<Rightarrow> string \<Rightarrow> string \<times> bool" where
  "cut_prefix s p = (if has_prefix s p then (drop (length p) s, True) else (s, False))"

definition cut_char :: "string \<Rightarrow> char \<Rightarrow> string \<times> string \<times> bool" where
  \<comment> \<open>\<open>strings.Cut(s, sep)\<close> for a one-byte separator\<close>
  "cut_char s c = (if c \<in> set s
     then (takeWhile (\<lambda>x. x \<noteq> c) s, drop 1 (dropWhile (\<lambda>x. x \<noteq> c) s), True)
     else (s, [], False))"

definition byte :: "char \<Rightarrow> nat" where "byte c = of_char c"

definition is_digit :: "char \<Rightarrow> bool" where
  "is_digit c \<longleftrightarrow> 48 \<le> byte c \<and> byte c \<le> 57"

definition digit_char :: "nat \<Rightarrow> char" where "digit_char n = char_of (48 + n)"

definition digit_val :: "char \<Rightarrow> nat" where "digit_val c = byte c - 48"

lemma digit_val_char [simp]: "n < 10 \<Longrightarrow> digit_val (digit_char n) = n"
  by (simp add: digit_val_def digit_char_def byte_def)

lemma is_digit_char [simp]: "n < 10 \<Longrightarrow> is_digit (digit_char n)"
  by (simp add: is_digit_def digit_char_def byte_def)

fun show_nat :: "nat \<Rightarrow> string" where
  \<comment> \<open>\<open>fmt.Sprintf\<close> of a non-negative integer with the verb \<open>d\<close>\<close>
  "show_nat n = (if n < 10 then [digit_char n] else show_nat (n div 10) @ [digit_char (n mod 10)])"

declare show_nat.simps [simp del]

lemma has_prefix_append [simp]: "has_prefix (p @ s) p"
  by (simp add: has_prefix_def)

subsection \<open>The Gregorian calendar\<close>

definition leap :: "int \<Rightarrow> bool" where
  "leap y \<longleftrightarrow> y mod 4 = 0 \<and> (y mod 100 \<noteq> 0 \<or> y mod 400 = 0)"

definition month_len :: "bool \<Rightarrow> int \<Rightarrow> int" where
  "month_len lp m = (if m = 2 then (if lp then 29 else 28)
     else if m = 4 \<or> m = 6 \<or> m = 9 \<or> m = 11 then 30 else 31)"

definition days_in :: "int \<Rightarrow> int \<Rightarrow> int" where
  "days_in m y = month_len (leap y) m"

definition year_start :: "int \<Rightarrow> int" where
  \<comment> \<open>days from 0000-01-01 to the first of January of year \<open>y\<close>\<close>
  "year_start y = 365 * y + (y + 3) div 4 - (y + 99) div 100 + (y + 399) div 400"

definition month_start :: "bool \<Rightarrow> int \<Rightarrow> int" where
  "month_start lp m =
     (if m \<le> 1 then 0 else if m = 2 then 31
      else (if m = 3 then 59 else if m = 4 then 90 else if m = 5 then 120 else if m = 6 then 151
            else if m = 7 then 181 else if m = 8 then 212 else if m = 9 then 243
            else if m = 10 then 273 else if m = 11 then 304 else 334) + (if lp then 1 else 0))"

definition days_of_civil :: "int \<Rightarrow> int \<Rightarrow> int \<Rightarrow> int" where
  \<comment> \<open>days since 1970-01-01\<close>
  "days_of_civil y m d = year_start y + month_start (leap y) m + (d - 1) - 719528"

definition year_of_day :: "int \<Rightarrow> int" where
  "year_of_day n = (let y = (400 * n) div 146097 in
     if year_start (y + 1) \<le> n then y + 1 else if n < year_start y then y - 1 else y)"

definition month_of_yday :: "bool \<Rightarrow> int \<Rightarrow> int" where
  "month_of_yday lp k =
     (if k < month_start lp 2 then 1 else if k < month_start lp 3 then 2
      else if k < month_start lp 4 then 3 else if k < month_start lp 5 then 4
      else if k < month_start lp 6 then 5 else if k < month_start lp 7 then 6
      else if k < month_start lp 8 then 7 else if k < month_start lp 9 then 8
      else if k < month_start lp 10 then 9 else if k < month_start lp 11 then 10
      else if k < month_start lp 12 then 11 else 12)"

definition civil_of_days :: "int \<Rightarrow> int \<times> int \<times> int" where
  "civil_of_days z = (let n = z + 719528; y = year_of_day n; k = n - year_start y;
     m = month_of_yday (leap y) k in (y, m, k - month_start (leap y) m + 1))"

lemma div_step:
  fixes y n :: int
  assumes "0 < n"
  shows "(y + 1 + (n - 1)) div n = (y + (n - 1)) div n + (if n dvd y then 1 else 0)"
proof -
  define q r where "q = y div n" and "r = y mod n"
  have y: "y = n * q + r" and r: "0 \<le> r" "r < n" using assms by (simp_all add: q_def r_def)
  have "(y + 1 + (n - 1)) div n = q + 1"
    by (rule int_div_pos_eq[where r = r]) (use y r in \<open>simp_all add: algebra_simps\<close>)
  moreover have "(y + (n - 1)) div n = q + (if r = 0 then 0 else 1)"
  proof (cases "r = 0")
    case True
    then show ?thesis using y assms by (intro int_div_pos_eq[where r = "n - 1"]) simp_all
  next
    case False
    then show ?thesis using y r
      by (intro int_div_pos_eq[where r = "r - 1"]) (simp_all add: algebra_simps)
  qed
  moreover have "n dvd y \<longleftrightarrow> r = 0" by (simp add: r_def dvd_eq_mod_eq_0)
  ultimately show ?thesis by simp
qed

lemma year_start_Suc: "year_start (y + 1) = year_start y + (if leap y then 366 else 365)"
proof -
  define A B C where "A = (y + 3) div 4" and "B = (y + 99) div 100" and "C = (y + 399) div 400"
  have st: "(y + 1 + 3) div 4 = A + (if 4 dvd y then 1 else 0)"
    "(y + 1 + 99) div 100 = B + (if 100 dvd y then 1 else 0)"
    "(y + 1 + 399) div 400 = C + (if 400 dvd y then 1 else 0)"
    using div_step[of 4 y] div_step[of 100 y] div_step[of 400 y]
    unfolding A_def B_def C_def by simp_all
  have d: "400 dvd y \<longrightarrow> 100 dvd y" "100 dvd y \<longrightarrow> 4 dvd y"
    using dvd_trans[of 100 400 y] dvd_trans[of 4 100 y] by simp_all
  have "leap y \<longleftrightarrow> 4 dvd y \<and> (\<not> 100 dvd y \<or> 400 dvd y)"
    by (simp add: leap_def dvd_eq_mod_eq_0)
  then show ?thesis
    unfolding year_start_def st A_def[symmetric] B_def[symmetric] C_def[symmetric]
    using d by (cases "4 dvd y"; cases "100 dvd y"; cases "400 dvd y") simp_all
qed

lemma ceil_bounds:
  fixes y n :: int
  assumes "0 < n"
  shows "n * ((y + (n - 1)) div n) \<le> y + (n - 1)" "y \<le> n * ((y + (n - 1)) div n)"
proof -
  have "n * ((y + (n - 1)) div n) + (y + (n - 1)) mod n = y + (n - 1)" by simp
  moreover have "0 \<le> (y + (n - 1)) mod n" "(y + (n - 1)) mod n < n" using assms by simp_all
  ultimately show "n * ((y + (n - 1)) div n) \<le> y + (n - 1)" "y \<le> n * ((y + (n - 1)) div n)"
    by linarith+
qed

lemma year_start_bounds:
  "146097 * y - 400 \<le> 400 * year_start y" "400 * year_start y < 146097 * y + 800"
proof -
  define a b c where "a = (y + 3) div 4" and "b = (y + 99) div 100" and "c = (y + 399) div 400"
  have "4 * a \<le> y + 3" "y \<le> 4 * a" using ceil_bounds[of 4 y] by (simp_all add: a_def)
  moreover have "100 * b \<le> y + 99" "y \<le> 100 * b" using ceil_bounds[of 100 y] by (simp_all add: b_def)
  moreover have "400 * c \<le> y + 399" "y \<le> 400 * c" using ceil_bounds[of 400 y] by (simp_all add: c_def)
  ultimately show "146097 * y - 400 \<le> 400 * year_start y"
    "400 * year_start y < 146097 * y + 800"
    unfolding year_start_def a_def[symmetric] b_def[symmetric] c_def[symmetric]
    by (simp_all add: distrib_left right_diff_distrib)
qed

lemma year_of_day_bounds: "year_start (year_of_day n) \<le> n" "n < year_start (year_of_day n + 1)"
proof -
  define y where "y = (400 * n) div 146097"
  have q: "146097 * y \<le> 400 * n" "400 * n < 146097 * y + 146097"
    unfolding y_def using pos_mod_sign[of 146097 "400 * n"] pos_mod_bound[of 146097 "400 * n"]
    by (simp_all add: minus_mod_eq_mult_div [symmetric])
  have "400 * n < 400 * year_start (y + 2)"
    using q year_start_bounds(1)[of "y + 2"] by (simp add: distrib_left)
  then have a: "n < year_start (y + 2)" by simp
  have "400 * year_start (y - 1) < 400 * n + 400"
    using q year_start_bounds(2)[of "y - 1"] by (simp add: right_diff_distrib)
  then have b: "year_start (y - 1) \<le> n" by simp
  from a have "n < year_start (2 + y)" by (simp only: add.commute)
  with a b show "year_start (year_of_day n) \<le> n" "n < year_start (year_of_day n + 1)"
    unfolding year_of_day_def y_def[symmetric] Let_def by (auto simp del: add.assoc)
qed

lemma year_start_mono: "y < z \<Longrightarrow> year_start (y + 1) \<le> year_start z"
proof (induction z rule: int_gr_induct[where k = y])
  case base
  then show ?case by simp
next
  case (step i)
  have "year_start i \<le> year_start (i + 1)" by (simp add: year_start_Suc)
  then show ?case using step by linarith
qed

lemma year_of_day_unique:
  assumes "year_start y \<le> n" "n < year_start (y + 1)"
  shows "year_of_day n = y"
proof (rule ccontr)
  assume "year_of_day n \<noteq> y"
  then consider "year_of_day n < y" | "y < year_of_day n" by linarith
  then show False
    using year_of_day_bounds[of n] assms year_start_mono[of y "year_of_day n"]
      year_start_mono[of "year_of_day n" y] by cases linarith+
qed

definition valid_date :: "int \<Rightarrow> int \<Rightarrow> int \<Rightarrow> bool" where
  "valid_date y m d \<longleftrightarrow> 1 \<le> m \<and> m \<le> 12 \<and> 1 \<le> d \<and> d \<le> days_in m y"

definition month_ok :: "bool \<Rightarrow> int \<Rightarrow> int \<Rightarrow> bool" where
  "month_ok lp k m \<longleftrightarrow> 1 \<le> m \<and> m \<le> 12 \<and> month_start lp m \<le> k
     \<and> k - month_start lp m + 1 \<le> month_len lp m"

lemma month_of_yday_ok:
  assumes "0 \<le> k" "k < (if lp then 366 else 365)"
  shows "month_ok lp k (month_of_yday lp k)"
proof -
  define l where "l = (if lp then 1 else (0::int))"
  have l: "0 \<le> l" "l \<le> 1" "k < 365 + l" using assms(2) by (simp_all add: l_def split: if_splits)
  have ms: "month_start lp 2 = 31" "month_start lp 3 = 59 + l" "month_start lp 4 = 90 + l"
    "month_start lp 5 = 120 + l" "month_start lp 6 = 151 + l" "month_start lp 7 = 181 + l"
    "month_start lp 8 = 212 + l" "month_start lp 9 = 243 + l" "month_start lp 10 = 273 + l"
    "month_start lp 11 = 304 + l" "month_start lp 12 = 334 + l" "month_start lp 1 = 0"
    by (simp_all add: month_start_def l_def)
  have ml: "month_len lp 2 = 28 + l" "month_len lp 4 = 30" "month_len lp 6 = 30" "month_len lp 9 = 30"
    "month_len lp 11 = 30" "month_len lp 1 = 31" "month_len lp 3 = 31" "month_len lp 5 = 31"
    "month_len lp 7 = 31" "month_len lp 8 = 31" "month_len lp 10 = 31" "month_len lp 12 = 31"
    by (simp_all add: month_len_def l_def)
  have split: "month_ok lp k (if c then a else b)" if "c \<Longrightarrow> month_ok lp k a" "\<not> c \<Longrightarrow> month_ok lp k b"
    for c a b using that by simp
  show ?thesis
    unfolding month_of_yday_def ms
    by (intro split) (use l assms(1) in \<open>simp_all add: month_ok_def ms ml\<close>)
qed

lemma civil_of_days_correct:
  assumes "civil_of_days z = (y, m, d)"
  shows "valid_date y m d" "days_of_civil y m d = z"
proof -
  define n k where "n = z + 719528" and "k = n - year_start y"
  have y: "y = year_of_day n" and m: "m = month_of_yday (leap y) k"
    and d: "d = k - month_start (leap y) m + 1"
    using assms by (auto simp: civil_of_days_def Let_def n_def k_def)
  have k: "0 \<le> k" "k < (if leap y then 366 else 365)"
    using year_of_day_bounds[of n] year_start_Suc[of y] by (simp_all add: k_def y)
  from month_of_yday_ok[OF k] show "valid_date y m d"
    by (simp add: valid_date_def days_in_def d m[symmetric] month_ok_def)
  show "days_of_civil y m d = z"
    by (simp add: days_of_civil_def d k_def n_def)
qed

subsection \<open>RFC 3339\<close>

type_synonym 'a scan = "string \<Rightarrow> ('a \<times> string) option"

definition getnum :: "bool \<Rightarrow> nat scan" where
  \<comment> \<open>\<open>time.getnum\<close>: two digits, or one when not \<open>fixed\<close>\<close>
  "getnum fixed s = (case s of
       a # b # r \<Rightarrow> if \<not> is_digit a then None
         else if is_digit b then Some (10 * digit_val a + digit_val b, r)
         else if fixed then None else Some (digit_val a, b # r)
     | [a] \<Rightarrow> if is_digit a \<and> \<not> fixed then Some (digit_val a, []) else None
     | [] \<Rightarrow> None)"

definition getyear :: "nat scan" where
  "getyear s = (case s of
       a # b # c # d # r \<Rightarrow>
         if is_digit a \<and> is_digit b \<and> is_digit c \<and> is_digit d
         then Some (1000 * digit_val a + 100 * digit_val b + 10 * digit_val c + digit_val d, r)
         else None
     | _ \<Rightarrow> None)"

definition expect :: "char \<Rightarrow> unit scan" where
  "expect c s = (case s of a # r \<Rightarrow> if a = c then Some ((), r) else None | [] \<Rightarrow> None)"

definition fraction :: "nat scan" where
  \<comment> \<open>an optional fractional second; digits past the ninth are dropped\<close>
  "fraction s = (case s of
       p # d # r \<Rightarrow>
         if (p = CHR ''.'' \<or> p = CHR '','') \<and> is_digit d then
           (let ds = takeWhile is_digit (d # r); ns = take 9 ds
            in Some (foldl (\<lambda>a c. 10 * a + digit_val c) 0 ns * 10 ^ (9 - length ns),
                     dropWhile is_digit (d # r)))
         else Some (0, s)
     | _ \<Rightarrow> Some (0, s))"

definition offset :: "int scan" where
  \<comment> \<open>the zone: \<open>Z\<close>, or a signed hour and minute, in seconds\<close>
  "offset s = (case s of
       z # r \<Rightarrow> if z = CHR ''Z'' then Some (0, r) else
         Option.bind (getnum True r) (\<lambda>(h, r).
         Option.bind (expect CHR '':'' r) (\<lambda>(_, r).
         Option.bind (getnum True r) (\<lambda>(m, r).
           if 24 < h \<or> 60 < m then None
           else if z = CHR ''+'' then Some (int (60 * (60 * h + m)), r)
           else if z = CHR ''-'' then Some (- int (60 * (60 * h + m)), r)
           else None)))
     | [] \<Rightarrow> None)"

definition mk_instant :: "nat \<Rightarrow> nat \<Rightarrow> nat \<Rightarrow> nat \<Rightarrow> nat \<Rightarrow> nat \<Rightarrow> nat \<Rightarrow> int \<Rightarrow> instant" where
  "mk_instant y mo d h mi sec ns off =
     (days_of_civil (int y) (int mo) (int d) * 86400 + int (3600 * h + 60 * mi + sec) - off) * second
       + int ns"

definition parse_rfc3339 :: "string \<Rightarrow> instant option" where
  "parse_rfc3339 s =
     Option.bind (getyear s) (\<lambda>(y, s).
     Option.bind (expect CHR ''-'' s) (\<lambda>(_, s).
     Option.bind (getnum True s) (\<lambda>(mo, s).
     Option.bind (expect CHR ''-'' s) (\<lambda>(_, s).
     Option.bind (getnum True s) (\<lambda>(d, s).
     Option.bind (expect CHR ''T'' s) (\<lambda>(_, s).
     Option.bind (getnum False s) (\<lambda>(h, s).
     Option.bind (expect CHR '':'' s) (\<lambda>(_, s).
     Option.bind (getnum True s) (\<lambda>(mi, s).
     Option.bind (expect CHR '':'' s) (\<lambda>(_, s).
     Option.bind (getnum True s) (\<lambda>(sec, s).
     Option.bind (fraction s) (\<lambda>(ns, s).
     Option.bind (offset s) (\<lambda>(off, s).
       if 1 \<le> mo \<and> mo \<le> 12 \<and> h < 24 \<and> mi < 60 \<and> sec < 60 \<and> s = []
          \<and> valid_date (int y) (int mo) (int d)
       then Some (mk_instant y mo d h mi sec ns off) else None)))))))))))))"

definition two :: "nat \<Rightarrow> string" where
  "two n = [digit_char (n div 10), digit_char (n mod 10)]"

definition four :: "nat \<Rightarrow> string" where
  "four n = (if n < 10000
     then [digit_char (n div 1000), digit_char (n div 100 mod 10),
           digit_char (n div 10 mod 10), digit_char (n mod 10)]
     else show_nat n)"

definition format_year :: "int \<Rightarrow> string" where
  "format_year y = (if y < 0 then CHR ''-'' # four (nat (- y)) else four (nat y))"

definition format_rfc3339 :: "instant \<Rightarrow> string" where
  \<comment> \<open>\<open>t.UTC().Format(time.RFC3339)\<close>: no fraction, zone \<open>Z\<close>\<close>
  "format_rfc3339 t = (let secs = t div second; sod = nat (secs mod 86400) in
     case civil_of_days (secs div 86400) of (y, m, d) \<Rightarrow>
       format_year y @ ''-'' @ two (nat m) @ ''-'' @ two (nat d) @ ''T'' @ two (sod div 3600) @ '':''
         @ two (sod div 60 mod 60) @ '':'' @ two (sod mod 60) @ ''Z'')"

definition format_compact :: "instant \<Rightarrow> string" where
  \<comment> \<open>\<open>t.UTC().Format("20060102_150405")\<close>\<close>
  "format_compact t = (let secs = t div second; sod = nat (secs mod 86400) in
     case civil_of_days (secs div 86400) of (y, m, d) \<Rightarrow>
       format_year y @ two (nat m) @ two (nat d) @ ''_'' @ two (sod div 3600)
         @ two (sod div 60 mod 60) @ two (sod mod 60))"

definition in_years :: "instant \<Rightarrow> bool" where
  \<comment> \<open>the instants whose year has four digits\<close>
  "in_years t \<longleftrightarrow> 0 \<le> fst (civil_of_days (t div second div 86400))
     \<and> fst (civil_of_days (t div second div 86400)) < 10000"

lemma getnum_two [simp]: "n < 100 \<Longrightarrow> getnum f (two n @ r) = Some (n, r)"
  by (simp add: getnum_def two_def)

lemma getyear_four [simp]: "n < 10000 \<Longrightarrow> getyear (four n @ r) = Some (n, r)"
proof -
  assume n: "n < 10000"
  define a b c d where "a = n div 1000" and "b = n div 100 mod 10" and "c = n div 10 mod 10"
    and "d = n mod 10"
  have "10 * (n div 10) + d = n" by (simp add: d_def)
  moreover have "10 * (n div 100) + c = n div 10"
    using mult_div_mod_eq[of 10 "n div 10"] by (simp add: c_def div_mult2_eq[symmetric])
  moreover have "10 * a + b = n div 100"
    using mult_div_mod_eq[of 10 "n div 100"] by (simp add: a_def b_def div_mult2_eq[symmetric])
  ultimately have "1000 * a + 100 * b + 10 * c + d = n" by linarith
  moreover have "a < 10" "b < 10" "c < 10" "d < 10" using n by (simp_all add: a_def b_def c_def d_def)
  ultimately show ?thesis
    using n by (simp add: getyear_def four_def a_def[symmetric] b_def[symmetric] c_def[symmetric] d_def[symmetric])
qed

lemma expect_Cons [simp]: "expect c (c # r) = Some ((), r)"
  by (simp add: expect_def)

lemma fraction_Z [simp]: "fraction (CHR ''Z'' # r) = Some (0, CHR ''Z'' # r)"
  by (cases r) (simp_all add: fraction_def)

lemma offset_Z [simp]: "offset (CHR ''Z'' # r) = Some (0, r)"
  by (simp add: offset_def)

lemma parse_stamp:
  assumes "y < 10000" "1 \<le> m" "m \<le> 12" "d < 100" "valid_date (int y) (int m) (int d)"
    "h < 24" "mi < 60" "s < 60"
  shows "parse_rfc3339 (four y @ ''-'' @ two m @ ''-'' @ two d @ ''T'' @ two h @ '':''
     @ two mi @ '':'' @ two s @ ''Z'') = Some (mk_instant y m d h mi s 0 0)"
  using assms by (simp add: parse_rfc3339_def)

lemma clock_split:
  fixes x :: nat
  assumes "x < 86400"
  shows "x div 3600 < 24" "3600 * (x div 3600) + 60 * (x div 60 mod 60) + x mod 60 = x"
proof -
  show "x div 3600 < 24" using assms by simp
  have "60 * (x div 60) + x mod 60 = x" by simp
  moreover have "60 * (x div 3600) + x div 60 mod 60 = x div 60"
    using mult_div_mod_eq[of 60 "x div 60"] by (simp add: div_mult2_eq[symmetric])
  ultimately show "3600 * (x div 3600) + 60 * (x div 60 mod 60) + x mod 60 = x" by linarith
qed

theorem parse_format [go_time]:
  assumes "in_years t"
  shows "parse_rfc3339 (format_rfc3339 t) = Some (truncate_second t)"
proof -
  define S where "S = t div second"
  define k where "k = nat (S mod 86400)"
  obtain y m d where c: "civil_of_days (S div 86400) = (y, m, d)" by (metis prod_cases3)
  have v: "valid_date y m d" and dz: "days_of_civil y m d = S div 86400"
    using civil_of_days_correct[OF c] by simp_all
  have y: "0 \<le> y" "y < 10000" using assms c by (simp_all add: in_years_def S_def)
  have b: "1 \<le> m" "m \<le> 12" "1 \<le> d" "d \<le> 31"
    using v by (auto simp: valid_date_def days_in_def month_len_def split: if_splits)
  have k: "k < 86400" by (simp add: k_def)
  have "format_rfc3339 t = four (nat y) @ ''-'' @ two (nat m) @ ''-'' @ two (nat d) @ ''T''
     @ two (k div 3600) @ '':'' @ two (k div 60 mod 60) @ '':'' @ two (k mod 60) @ ''Z''"
    using y by (simp add: format_rfc3339_def Let_def c S_def[symmetric] k_def[symmetric] format_year_def)
  then have "parse_rfc3339 (format_rfc3339 t)
    = Some (mk_instant (nat y) (nat m) (nat d) (k div 3600) (k div 60 mod 60) (k mod 60) 0 0)"
    using y b v clock_split[OF k] by (simp only: parse_stamp nat_less_iff) (rule parse_stamp; simp)
  moreover have "mk_instant (nat y) (nat m) (nat d) (k div 3600) (k div 60 mod 60) (k mod 60) 0 0
    = (S div 86400 * 86400 + int k) * second"
    using y b dz clock_split(2)[OF k] by (simp add: mk_instant_def)
  moreover have "S div 86400 * 86400 + int k = S" by (simp add: k_def)
  ultimately show ?thesis by (simp add: truncate_second_def S_def)
qed

lemma format_truncate [simp]: "format_rfc3339 (truncate_second t) = format_rfc3339 t"
  by (simp add: format_rfc3339_def truncate_second_def second_def)

lemma in_years_truncate [simp]: "in_years (truncate_second t) = in_years t"
  by (simp add: in_years_def truncate_second_def second_def)

lemma format_nonempty [simp]: "format_rfc3339 t \<noteq> []"
  by (simp add: format_rfc3339_def Let_def split: prod.split)

lemma has_suffix_append [simp]: "has_suffix (s @ p) p"
  by (simp add: has_suffix_def)

lemma format_ends_Z: "has_suffix (format_rfc3339 t) ''Z''"
  unfolding format_rfc3339_def Let_def
  by (simp only: append_assoc[symmetric] has_suffix_append split: prod.split) simp

end
