(* ===== verification/GoCrypto.thy ===== *)
theory GoCrypto
  imports GoTime "HOL-Library.Word"
begin

unbundle bit_operations_syntax

text \<open>
  What the code uses of Go's \<open>crypto/sha256\<close>, \<open>encoding/hex\<close>,
  \<open>encoding/base32\<close> and \<open>encoding/base64\<close>: the SHA-256 digest of a byte string in
  lowercase hexadecimal, unpadded base32, and the length of what a standard base64 string
  decodes to. The component theories rely on the shape of a digest (64 lowercase hexadecimal
  digits, \<open>sha256_hex_shape\<close>) and on its being a function of its input, on nothing else.
\<close>

subsection \<open>SHA-256\<close>

type_synonym u32 = "32 word"

definition rotr :: "nat \<Rightarrow> u32 \<Rightarrow> u32" where
  "rotr n x = drop_bit n x OR push_bit (32 - n) x"

fun root_digits :: "nat \<Rightarrow> nat \<Rightarrow> nat \<Rightarrow> nat \<Rightarrow> nat" where
  \<comment> \<open>the integer \<open>e\<close>-th root of \<open>n\<close>, bit by bit from the one of weight \<open>2 ^ (b - 1)\<close>\<close>
  "root_digits e n 0 r = r"
| "root_digits e n (Suc b) r = root_digits e n b (if (r + 2 ^ b) ^ e \<le> n then r + 2 ^ b else r)"

definition is_prime :: "nat \<Rightarrow> bool" where
  "is_prime n \<longleftrightarrow> 2 \<le> n \<and> list_all (\<lambda>d. n mod d \<noteq> 0) [2..<n]"

definition root_fraction :: "nat \<Rightarrow> nat \<Rightarrow> u32" where
  \<comment> \<open>the first 32 bits of the fractional part of the \<open>e\<close>-th root\<close>
  "root_fraction e p = word_of_nat (root_digits e (p * 2 ^ (32 * e)) 40 0)"

definition sha_k :: "u32 list" where
  \<comment> \<open>the round constants come from the cube roots of the first 64 primes\<close>
  "sha_k = map (root_fraction 3) (filter is_prime [2..<312])"

definition sha_init :: "u32 list" where
  \<comment> \<open>the initial state comes from the square roots of the first 8\<close>
  "sha_init = map (root_fraction 2) [2, 3, 5, 7, 11, 13, 17, 19]"

definition be_bytes :: "nat \<Rightarrow> nat \<Rightarrow> nat list" where
  \<comment> \<open>\<open>n\<close> bytes, the most significant first\<close>
  "be_bytes n x = map (\<lambda>i. x div 256 ^ (n - 1 - i) mod 256) [0..<n]"

definition sha_pad :: "nat list \<Rightarrow> nat list" where
  "sha_pad bs = bs @ [128] @ replicate ((119 - length bs mod 64) mod 64) 0 @ be_bytes 8 (8 * length bs)"

fun be_words :: "nat list \<Rightarrow> u32 list" where
  "be_words (a # b # c # d # r) =
     word_of_nat (((a * 256 + b) * 256 + c) * 256 + d) # be_words r"
| "be_words _ = []"

fun sha_extend :: "nat \<Rightarrow> u32 list \<Rightarrow> u32 list" where
  \<comment> \<open>the message schedule, newest word first\<close>
  "sha_extend 0 ws = ws"
| "sha_extend (Suc n) ws =
     (let w2 = ws ! 1; w7 = ws ! 6; w15 = ws ! 14; w16 = ws ! 15;
          s0 = rotr 7 w15 XOR rotr 18 w15 XOR drop_bit 3 w15;
          s1 = rotr 17 w2 XOR rotr 19 w2 XOR drop_bit 10 w2
      in sha_extend n ((w16 + s0 + w7 + s1) # ws))"

type_synonym sha_state = "u32 \<times> u32 \<times> u32 \<times> u32 \<times> u32 \<times> u32 \<times> u32 \<times> u32"

definition sha_round :: "sha_state \<Rightarrow> u32 \<times> u32 \<Rightarrow> sha_state" where
  "sha_round st kw = (case st of (a, b, c, d, e, f, g, h) \<Rightarrow>
     let s1 = rotr 6 e XOR rotr 11 e XOR rotr 25 e;
         ch = (e AND f) XOR (NOT e AND g);
         t1 = h + s1 + ch + fst kw + snd kw;
         s0 = rotr 2 a XOR rotr 13 a XOR rotr 22 a;
         maj = (a AND b) XOR (a AND c) XOR (b AND c)
     in (t1 + s0 + maj, a, b, c, d + t1, e, f, g))"

definition sha_block :: "u32 list \<Rightarrow> u32 list \<Rightarrow> u32 list" where
  "sha_block hs ws =
     (let st = foldl sha_round (hs!0, hs!1, hs!2, hs!3, hs!4, hs!5, hs!6, hs!7)
                 (zip sha_k (rev (sha_extend 48 (rev ws))))
      in case st of (a, b, c, d, e, f, g, h) \<Rightarrow>
        [hs!0 + a, hs!1 + b, hs!2 + c, hs!3 + d, hs!4 + e, hs!5 + f, hs!6 + g, hs!7 + h])"

function sha_blocks :: "u32 list \<Rightarrow> u32 list \<Rightarrow> u32 list" where
  "sha_blocks hs ws = (if length ws < 16 then hs
     else sha_blocks (sha_block hs (take 16 ws)) (drop 16 ws))"
  by pat_completeness auto
termination by (relation "measure (length \<circ> snd)") auto

declare sha_blocks.simps [simp del]

subsection \<open>Hexadecimal\<close>

definition hex_digit :: "nat \<Rightarrow> char" where
  "hex_digit n = (if n < 10 then char_of (48 + n) else char_of (87 + n))"

definition hex_string :: "nat list \<Rightarrow> string" where
  \<comment> \<open>\<open>hex.EncodeToString\<close>\<close>
  "hex_string bs = concat (map (\<lambda>b. [hex_digit (b div 16 mod 16), hex_digit (b mod 16)]) bs)"

definition is_lower_hex :: "char \<Rightarrow> bool" where
  "is_lower_hex c \<longleftrightarrow> (48 \<le> byte c \<and> byte c \<le> 57) \<or> (97 \<le> byte c \<and> byte c \<le> 102)"

definition sha256 :: "string \<Rightarrow> nat list" where
  "sha256 s = concat (map (\<lambda>w. be_bytes 4 (unat w))
     (sha_blocks sha_init (be_words (sha_pad (map byte s)))))"

definition sha256_hex :: "string \<Rightarrow> string" where
  "sha256_hex s = hex_string (sha256 s)"

lemma length_sha_block [simp]: "length (sha_block hs ws) = 8"
  by (simp add: sha_block_def Let_def split: prod.split)

lemma length_sha_blocks: "length hs = 8 \<Longrightarrow> length (sha_blocks hs ws) = 8"
  by (induction hs ws rule: sha_blocks.induct) (subst sha_blocks.simps, simp)

lemma length_concat_const: "(\<And>x. x \<in> set xs \<Longrightarrow> length (f x) = n) \<Longrightarrow> length (concat (map f xs)) = n * length xs"
  by (induction xs) auto

lemma length_sha256 [simp]: "length (sha256 s) = 32"
proof -
  have "length (sha_blocks sha_init ws) = 8" for ws
    by (rule length_sha_blocks) (simp add: sha_init_def)
  then show ?thesis
    unfolding sha256_def by (subst length_concat_const[where n = 4]) (simp_all add: be_bytes_def)
qed

lemma hex_digit_lower: "n < 16 \<Longrightarrow> is_lower_hex (hex_digit n)"
  by (auto simp: is_lower_hex_def hex_digit_def byte_def)

lemma hex_string_lower: "c \<in> set (hex_string bs) \<Longrightarrow> is_lower_hex c"
  by (auto simp: hex_string_def intro: hex_digit_lower)

lemma length_hex_string [simp]: "length (hex_string bs) = 2 * length bs"
  unfolding hex_string_def by (subst length_concat_const[where n = 2]) simp_all

lemma sha256_hex_shape: "length (sha256_hex s) = 64" "c \<in> set (sha256_hex s) \<Longrightarrow> is_lower_hex c"
  by (auto simp: sha256_hex_def intro: hex_string_lower)

subsection \<open>Base32 and base64\<close>

definition base32_char :: "nat \<Rightarrow> char" where
  \<comment> \<open>the standard alphabet: \<open>A\<close> to \<open>Z\<close>, then \<open>2\<close> to \<open>7\<close>\<close>
  "base32_char n = (if n < 26 then char_of (65 + n) else char_of (24 + n))"

definition base32_string :: "nat list \<Rightarrow> string" where
  \<comment> \<open>\<open>base32.StdEncoding.WithPadding(NoPadding).EncodeToString\<close>: the bits in groups of
     five, the last group filled with zeros\<close>
  "base32_string bs =
     (let v = foldl (\<lambda>a b. a * 256 + b) 0 bs; bits = 8 * length bs; n = (bits + 4) div 5;
          p = v * 2 ^ (5 * n - bits)
      in map (\<lambda>i. base32_char (p div 32 ^ (n - 1 - i) mod 32)) [0..<n])"

definition is_base64_char :: "char \<Rightarrow> bool" where
  "is_base64_char c \<longleftrightarrow> (65 \<le> byte c \<and> byte c \<le> 90) \<or> (97 \<le> byte c \<and> byte c \<le> 122)
     \<or> is_digit c \<or> c = CHR ''+'' \<or> c = CHR ''/''"

definition base64_decoded_length :: "string \<Rightarrow> nat option" where
  \<comment> \<open>\<open>base64.StdEncoding.DecodeString\<close>: carriage returns and newlines are skipped, the rest
     is whole groups of four with padding in the last one only; \<open>None\<close> is the decode error\<close>
  "base64_decoded_length s =
     (let t = filter (\<lambda>c. byte c \<noteq> 10 \<and> byte c \<noteq> 13) s; body = takeWhile is_base64_char t;
          pad = drop (length body) t; n = length body
      in if pad = [] \<and> n mod 4 = 0 then Some (3 * (n div 4))
         else if pad = ''='' \<and> n mod 4 = 3 then Some (3 * (n div 4) + 2)
         else if pad = ''=='' \<and> n mod 4 = 2 then Some (3 * (n div 4) + 1)
         else None)"

end
