(* ===== verification/Schema.thy ===== *)
theory Schema
  imports GoCrypto
begin

text \<open>
  The wire contract, internal/companion/schema.go: the error type, the published
  vocabulary, the scalar validators, and each payload with its \<open>Validate\<close>. A Go string
  type is a string here (a value from the wire or the disk may be outside the vocabulary), a
  slice that may be nil is a list option, an embedded \<open>Header\<close> is record extension. An
  \<open>*Error\<close> is its code and its field; its message, which no code branches on, is left
  out. A validator returns the error, or \<open>None\<close> for nil. Decoding JSON and parsing a URL
  are arguments of the definitions that use them.
\<close>

subsection \<open>Errors\<close>

datatype go_error =
    SchemaError string string \<comment> \<open>code, field\<close>
  | ErrNoSuchDevice | ErrNotPending | ErrPairingExpired | ErrPairingCode
  | ErrReceiptNotWritten | ErrRegistryTooLarge | ErrLocked
  | ErrIdempotencyConflict | ErrCaptureInFlight | ErrTooManyPending
  | ErrPublishedIntegrity | ErrNoClaim
  | AuthError string
  | DeadlineExceeded
  | ErrNotExist
  | OtherError string
  | Joined go_error go_error \<comment> \<open>\<open>errors.Join\<close>\<close>

fun errors_is :: "go_error \<Rightarrow> go_error \<Rightarrow> bool" where
  "errors_is (Joined a b) t = (Joined a b = t \<or> errors_is a t \<or> errors_is b t)"
| "errors_is e t = (e = t)"

definition err_is :: "go_error option \<Rightarrow> go_error \<Rightarrow> bool" where
  "err_is e t = (case e of None \<Rightarrow> False | Some x \<Rightarrow> errors_is x t)"

lemma err_is_simps [simp]: "err_is None t = False" "err_is (Some e) t = errors_is e t"
  by (simp_all add: err_is_def)

abbreviation CodeUnknownField :: string where "CodeUnknownField \<equiv> ''unknown_field''"
abbreviation CodeMalformed :: string where "CodeMalformed \<equiv> ''malformed''"
abbreviation CodeTooLarge :: string where "CodeTooLarge \<equiv> ''too_large''"
abbreviation CodeMissingField :: string where "CodeMissingField \<equiv> ''missing_field''"
abbreviation CodeInvalidEnum :: string where "CodeInvalidEnum \<equiv> ''invalid_enum''"
abbreviation CodeInvalidValue :: string where "CodeInvalidValue \<equiv> ''invalid_value''"
abbreviation CodeTooManyItems :: string where "CodeTooManyItems \<equiv> ''too_many_items''"
abbreviation CodeSchemaMismatch :: string where "CodeSchemaMismatch \<equiv> ''schema_mismatch''"
abbreviation CodeInvalidState :: string where "CodeInvalidState \<equiv> ''invalid_state''"

definition errf :: "string \<Rightarrow> string \<Rightarrow> go_error option" where
  "errf code fld = Some (SchemaError code fld)"

lemma errf_not_None [simp]: "errf c f \<noteq> None" "None \<noteq> errf c f"
  by (simp_all add: errf_def)

subsection \<open>Bounds\<close>

definition SchemaVersion :: int where "SchemaVersion = 1"
definition MaxCaptureBytes :: nat where "MaxCaptureBytes = 24 * 1024"
definition MaxCaptureTextBytes :: nat where "MaxCaptureTextBytes = 16 * 1024"
definition MaxRequestBytes :: nat where "MaxRequestBytes = 64 * 1024"
definition MaxProjectionBytes :: nat where "MaxProjectionBytes = 4 * 1024 * 1024"
definition MaxOperationBytes :: nat where "MaxOperationBytes = 4 * 1024"
definition MaxIDBytes :: nat where "MaxIDBytes = 64"
definition MaxIdempotencyKeyBytes :: nat where "MaxIdempotencyKeyBytes = 128"
definition MaxLabelBytes :: nat where "MaxLabelBytes = 64"
definition MaxScopeBytes :: nat where "MaxScopeBytes = 128"
definition MaxQueryBytes :: nat where "MaxQueryBytes = 1024"
definition MaxTitleBytes :: nat where "MaxTitleBytes = 200"
definition MaxBodyBytes :: nat where "MaxBodyBytes = 2 * 1024"
definition MaxSnippetBytes :: nat where "MaxSnippetBytes = 512"
definition MaxSourceKeyBytes :: nat where "MaxSourceKeyBytes = 64"
definition MaxPublicKeyBytes :: nat where "MaxPublicKeyBytes = 128"
definition MaxSynthesisPromptBytes :: nat where "MaxSynthesisPromptBytes = 8 * 1024"
definition MaxGapBytes :: nat where "MaxGapBytes = 200"
definition MaxDeepLinkBytes :: nat where "MaxDeepLinkBytes = 512"
definition MaxTodayItems :: nat where "MaxTodayItems = 3"
definition MaxEvidencePerItem :: nat where "MaxEvidencePerItem = 5"
definition MaxContextEvidence :: nat where "MaxContextEvidence = 32"
definition MaxGaps :: nat where "MaxGaps = 16"
definition MaxFreshnessSources :: nat where "MaxFreshnessSources = 32"
definition MaxAttempts :: int where "MaxAttempts = 10"

abbreviation PrefixDevice :: string where "PrefixDevice \<equiv> ''dev_''"
abbreviation PrefixRequest :: string where "PrefixRequest \<equiv> ''req_''"
abbreviation PrefixReceipt :: string where "PrefixReceipt \<equiv> ''rcp_''"
abbreviation PrefixMemory :: string where "PrefixMemory \<equiv> ''mem_''"
abbreviation PrefixExecution :: string where "PrefixExecution \<equiv> ''exe_''"

subsection \<open>The published vocabulary\<close>

abbreviation LaneMemory :: string where "LaneMemory \<equiv> ''memory''"
abbreviation LaneResearch :: string where "LaneResearch \<equiv> ''research''"
abbreviation IntentRemember :: string where "IntentRemember \<equiv> ''remember''"
abbreviation IntentAsk :: string where "IntentAsk \<equiv> ''ask''"
abbreviation IntentInvestigate :: string where "IntentInvestigate \<equiv> ''investigate''"
abbreviation ReceiptAccepted :: string where "ReceiptAccepted \<equiv> ''accepted''"
abbreviation ReceiptApplied :: string where "ReceiptApplied \<equiv> ''applied''"
abbreviation ReceiptRejected :: string where "ReceiptRejected \<equiv> ''rejected''"
abbreviation ReasonPolicy :: string where "ReasonPolicy \<equiv> ''policy''"
abbreviation ReasonUnknownDevice :: string where "ReasonUnknownDevice \<equiv> ''unknown_device''"
abbreviation ReasonRevokedDevice :: string where "ReasonRevokedDevice \<equiv> ''revoked_device''"
abbreviation ReasonUnsupportedLane :: string where "ReasonUnsupportedLane \<equiv> ''unsupported_lane''"
abbreviation ReasonIdempotencyConflict :: string where
  "ReasonIdempotencyConflict \<equiv> ''idempotency_conflict''"
abbreviation ReasonInternal :: string where "ReasonInternal \<equiv> ''internal''"
abbreviation PolicyOpen :: string where "PolicyOpen \<equiv> ''open''"
abbreviation PolicyPropose :: string where "PolicyPropose \<equiv> ''propose''"
abbreviation PolicyReadonly :: string where "PolicyReadonly \<equiv> ''readonly''"
abbreviation HealthUnhealthy :: string where "HealthUnhealthy \<equiv> ''unhealthy''"
abbreviation FreshnessFresh :: string where "FreshnessFresh \<equiv> ''fresh''"
abbreviation FreshnessStale :: string where "FreshnessStale \<equiv> ''stale''"
abbreviation FreshnessFailed :: string where "FreshnessFailed \<equiv> ''failed''"
abbreviation FreshnessNever :: string where "FreshnessNever \<equiv> ''never''"
abbreviation DevicePending :: string where "DevicePending \<equiv> ''pending''"
abbreviation DeviceActive :: string where "DeviceActive \<equiv> ''active''"
abbreviation DeviceRevoked :: string where "DeviceRevoked \<equiv> ''revoked''"
abbreviation OriginCompanion :: string where "OriginCompanion \<equiv> ''companion''"
abbreviation KindCapture :: string where "KindCapture \<equiv> ''capture''"
abbreviation KindAsk :: string where "KindAsk \<equiv> ''ask''"
abbreviation KindResearch :: string where "KindResearch \<equiv> ''research''"
abbreviation StateCaptured :: string where "StateCaptured \<equiv> ''captured''"
abbreviation StateTriaged :: string where "StateTriaged \<equiv> ''triaged''"
abbreviation StateLeased :: string where "StateLeased \<equiv> ''leased''"
abbreviation StateRunning :: string where "StateRunning \<equiv> ''running''"
abbreviation StateDone :: string where "StateDone \<equiv> ''done''"
abbreviation StateNeedsInput :: string where "StateNeedsInput \<equiv> ''needs_input''"
abbreviation StateFailed :: string where "StateFailed \<equiv> ''failed''"

definition vocabulary :: "string \<Rightarrow> string list" where
  "vocabulary f = (case map_of
    [(''lane'', [LaneMemory, LaneResearch]),
     (''intent'', [IntentRemember, IntentAsk, IntentInvestigate]),
     (''kind'', [KindCapture, KindAsk, KindResearch]),
     (''operation_state'', [StateCaptured, StateTriaged, StateLeased, StateRunning, StateDone,
        StateNeedsInput, StateFailed]),
     (''receipt_state'', [ReceiptAccepted, ReceiptApplied, ReceiptRejected]),
     (''reject_reason'', [ReasonPolicy, ReasonUnknownDevice, ReasonRevokedDevice, ''too_large'',
        ''malformed'', ReasonUnsupportedLane, ReasonIdempotencyConflict, ''unavailable'',
        ReasonInternal]),
     (''write_policy'', [PolicyOpen, PolicyPropose, PolicyReadonly]),
     (''context_mode'', [''think'', ''search'', ''meeting_prep'']),
     (''health_state'', [''healthy'', ''degraded'', HealthUnhealthy]),
     (''freshness_state'', [FreshnessFresh, FreshnessStale, FreshnessFailed, FreshnessNever]),
     (''device_state'', [DevicePending, DeviceActive, DeviceRevoked]),
     (''platform'', [''ios'', ''macos'', ''other'']),
     (''today_item_kind'', [''needs_attention'', ''changed'', ''commitment'']),
     (''origin'', [OriginCompanion, ''cli'', ''mcp'']),
     (''media_type'', [''text/plain; charset=utf-8'']),
     (''source_error_code'', [''auth_expired'', ''permission_denied'', ''network_unavailable'',
        ''rate_limited'', ''source_unavailable'', ''not_configured'', ''internal''])] f
    of None \<Rightarrow> [] | Some vs \<Rightarrow> vs)"

definition inVocabulary :: "string \<Rightarrow> string \<Rightarrow> string \<Rightarrow> go_error option" where
  "inVocabulary family val fld =
     (if val \<in> set (vocabulary family) then None
      else if val = [] then errf CodeMissingField fld
      else errf CodeInvalidEnum fld)"

lemma inVocabulary_None [simp]: "inVocabulary f v x = None \<longleftrightarrow> v \<in> set (vocabulary f)"
  by (simp add: inVocabulary_def errf_def)

subsection \<open>Header\<close>

record header =
  hd_Schema :: string
  hd_SchemaVersion :: int

definition header_validate :: "'a header_scheme \<Rightarrow> string \<Rightarrow> go_error option" where
  "header_validate h name =
     (if hd_Schema h \<noteq> name then errf CodeSchemaMismatch ''schema''
      else if hd_SchemaVersion h \<noteq> SchemaVersion then errf CodeSchemaMismatch ''schema_version''
      else None)"

subsection \<open>Scalars\<close>

definition validateTimestamp :: "string \<Rightarrow> string \<Rightarrow> go_error option" where
  "validateTimestamp fld s =
     (if s = [] then errf CodeMissingField fld
      else if \<not> has_suffix s ''Z'' then errf CodeInvalidValue fld
      else case parse_rfc3339 s of None \<Rightarrow> errf CodeInvalidValue fld
        | Some t \<Rightarrow> if format_rfc3339 t \<noteq> s then errf CodeInvalidValue fld else None)"

definition validateOptionalTimestamp :: "string \<Rightarrow> string \<Rightarrow> go_error option" where
  "validateOptionalTimestamp fld s = (if s = [] then None else validateTimestamp fld s)"

definition opaque_char :: "char \<Rightarrow> bool" where
  "opaque_char c \<longleftrightarrow> (CHR ''a'' \<le> c \<and> c \<le> CHR ''z'') \<or> (CHR ''A'' \<le> c \<and> c \<le> CHR ''Z'')
     \<or> (CHR ''0'' \<le> c \<and> c \<le> CHR ''9'') \<or> c \<in> {CHR ''_'', CHR ''-'', CHR ''.'', CHR '':''}"

definition opaqueRunes :: "string \<Rightarrow> bool" where
  "opaqueRunes s = list_all opaque_char s"

definition validateID :: "string \<Rightarrow> string \<Rightarrow> string \<Rightarrow> go_error option" where
  "validateID fld prefix s =
     (if s = [] then errf CodeMissingField fld
      else if MaxIDBytes < length s then errf CodeTooLarge fld
      else if \<not> has_prefix s prefix \<or> length s = length prefix then errf CodeInvalidValue fld
      else if \<not> opaqueRunes s then errf CodeInvalidValue fld
      else None)"

definition validateOptionalID :: "string \<Rightarrow> string \<Rightarrow> string \<Rightarrow> go_error option" where
  "validateOptionalID fld prefix s = (if s = [] then None else validateID fld prefix s)"

definition validateText :: "string \<Rightarrow> string \<Rightarrow> nat \<Rightarrow> bool \<Rightarrow> go_error option" where
  "validateText fld s mx required =
     (if s = [] then (if required then errf CodeMissingField fld else None)
      else if mx < length s then errf CodeTooLarge fld else None)"

definition validateCount :: "string \<Rightarrow> nat \<Rightarrow> nat \<Rightarrow> go_error option" where
  "validateCount fld n mx = (if mx < n then errf CodeTooManyItems fld else None)"

definition validateFingerprint :: "string \<Rightarrow> string \<Rightarrow> go_error option" where
  "validateFingerprint fld s =
     (if s = [] then errf CodeMissingField fld
      else if \<not> has_prefix s ''sha256:'' \<or> length s \<noteq> 7 + 64 then errf CodeInvalidValue fld
      else if list_all is_lower_hex (drop 7 s) then None else errf CodeInvalidValue fld)"

definition validateOptionalFingerprint :: "string \<Rightarrow> string \<Rightarrow> go_error option" where
  "validateOptionalFingerprint fld s = (if s = [] then None else validateFingerprint fld s)"

definition validateScope :: "string \<Rightarrow> string \<Rightarrow> go_error option" where
  "validateScope fld s =
     (if s = [] then errf CodeMissingField fld
      else if MaxScopeBytes < length s then errf CodeTooLarge fld
      else if s = ''personal'' then None
      else case cut_prefix s ''project:'' of (name, ok) \<Rightarrow>
        if \<not> ok \<or> name = [] \<or> \<not> opaqueRunes name
           \<or> list_ex (\<lambda>c. c \<in> {CHR '':'', CHR ''/'', CHR 0x5C}) name
           \<or> name = ''.'' \<or> name = ''..''
        then errf CodeInvalidValue fld else None)"

definition validateIdempotencyKey :: "string \<Rightarrow> string \<Rightarrow> go_error option" where
  "validateIdempotencyKey fld s =
     (if s = [] then errf CodeMissingField fld
      else if MaxIdempotencyKeyBytes < length s then errf CodeTooLarge fld
      else if \<not> opaqueRunes s then errf CodeInvalidValue fld
      else None)"

definition Fingerprint :: "string \<Rightarrow> string" where
  "Fingerprint txt = ''sha256:'' @ sha256_hex txt"

definition index_field :: "string \<Rightarrow> nat \<Rightarrow> string" where
  \<comment> \<open>the path of the \<open>i\<close>-th entry: the field name and the index in brackets\<close>
  "index_field fld i = fld @ ''['' @ show_nat i @ '']''"

end
