(* ===== verification/Payloads.thy ===== *)
theory Payloads
  imports Schema
begin

text \<open>
  The documents of the wire contract (internal/companion/schema.go) as records, one per Go
  struct, each with the \<open>Validate\<close> method the kernel runs on everything it decodes and on
  everything it sends. \<open>Unmarshal\<close> and \<open>Marshal\<close> take the JSON decoder and encoder of
  the standard library as arguments.
\<close>

subsection \<open>Freshness and health\<close>

record source_freshness =
  sf_Key :: string
  sf_State :: string
  sf_AgeSeconds :: int
  sf_LastSuccessAt :: string
  sf_ErrorCode :: string

definition validateSourceKey :: "string \<Rightarrow> string \<Rightarrow> go_error option" where
  "validateSourceKey fld key =
     (if key = [] then errf CodeMissingField fld
      else if MaxSourceKeyBytes < length key then errf CodeTooLarge fld
      else if \<not> opaqueRunes key then errf CodeInvalidValue fld
      else None)"

definition checkAge :: "string \<Rightarrow> int \<Rightarrow> string \<Rightarrow> string \<Rightarrow> go_error option" where
  "checkAge fld ageSeconds lastSuccessAt referenceAt =
     (if referenceAt = [] then None
      else case parse_rfc3339 lastSuccessAt of
        None \<Rightarrow> errf CodeInvalidValue (fld @ ''.last_success_at'')
      | Some lst \<Rightarrow> (case parse_rfc3339 referenceAt of
          None \<Rightarrow> errf CodeInvalidValue (fld @ ''.age_seconds'')
        | Some reference \<Rightarrow>
            let want = go_quot (time_sub reference lst) second in
            if want < 0 then errf CodeInvalidState (fld @ ''.last_success_at'')
            else if ageSeconds \<noteq> want then errf CodeInvalidState (fld @ ''.age_seconds'')
            else None))"

definition freshness_validate :: "source_freshness \<Rightarrow> string \<Rightarrow> string \<Rightarrow> go_error option" where
  "freshness_validate f fld referenceAt = first_err [
     validateSourceKey (fld @ ''.key'') (sf_Key f),
     inVocabulary ''freshness_state'' (sf_State f) (fld @ ''.state''),
     (if sf_AgeSeconds f < -1 then errf CodeInvalidValue (fld @ ''.age_seconds'') else None),
     validateOptionalTimestamp (fld @ ''.last_success_at'') (sf_LastSuccessAt f),
     (if sf_ErrorCode f \<noteq> []
      then inVocabulary ''source_error_code'' (sf_ErrorCode f) (fld @ ''.error_code'') else None),
     (if sf_State f = FreshnessNever then
        (if sf_LastSuccessAt f \<noteq> [] then errf CodeInvalidState (fld @ ''.last_success_at'')
         else if sf_AgeSeconds f \<noteq> -1 then errf CodeInvalidState (fld @ ''.age_seconds'')
         else None)
      else if sf_State f = FreshnessFailed then
        (if sf_ErrorCode f = [] then errf CodeMissingField (fld @ ''.error_code'') else None)
      else if sf_State f = FreshnessFresh \<or> sf_State f = FreshnessStale then
        (if sf_LastSuccessAt f = [] then errf CodeMissingField (fld @ ''.last_success_at'')
         else if sf_AgeSeconds f < 0 then errf CodeInvalidState (fld @ ''.age_seconds'')
         else if sf_State f = FreshnessFresh \<and> sf_ErrorCode f \<noteq> []
           then errf CodeInvalidState (fld @ ''.error_code'')
         else checkAge fld (sf_AgeSeconds f) (sf_LastSuccessAt f) referenceAt)
      else None)]"

definition validateFreshness ::
  "string \<Rightarrow> source_freshness list \<Rightarrow> string \<Rightarrow> go_error option" where
  "validateFreshness fld rows referenceAt = first_err (
     validateCount fld (length rows) MaxFreshnessSources
     # map (\<lambda>(i, r). freshness_validate r (index_field fld i) referenceAt) (enumerate 0 rows))"

record index_health =
  ih_State :: string
  ih_Memories :: int
  ih_BuiltAt :: string

record health_projection = header +
  hp_GeneratedAt :: string
  hp_State :: string
  hp_Policy :: string
  hp_Index :: index_health
  hp_Sources :: "source_freshness list option"

definition HealthProjection_Validate :: "health_projection \<Rightarrow> go_error option" where
  "HealthProjection_Validate h = first_err [
     header_validate h ''mora.companion.health'',
     validateTimestamp ''generated_at'' (hp_GeneratedAt h),
     inVocabulary ''health_state'' (hp_State h) ''state'',
     inVocabulary ''write_policy'' (hp_Policy h) ''policy'',
     inVocabulary ''health_state'' (ih_State (hp_Index h)) ''index.state'',
     (if ih_Memories (hp_Index h) < 0 then errf CodeInvalidValue ''index.memories'' else None),
     validateOptionalTimestamp ''index.built_at'' (ih_BuiltAt (hp_Index h)),
     (case hp_Sources h of None \<Rightarrow> errf CodeMissingField ''sources''
      | Some rows \<Rightarrow> validateFreshness ''sources'' rows (hp_GeneratedAt h))]"

subsection \<open>Evidence, Today and the context bundle\<close>

record evidence =
  ev_MemoryID :: string
  ev_Source :: string
  ev_OccurredAt :: string
  ev_Snippet :: string
  ev_DeepLink :: string

definition evidence_validate :: "evidence \<Rightarrow> string \<Rightarrow> go_error option" where
  "evidence_validate e fld = first_err [
     validateID (fld @ ''.memory_id'') PrefixMemory (ev_MemoryID e),
     validateSourceKey (fld @ ''.source'') (ev_Source e),
     validateOptionalTimestamp (fld @ ''.occurred_at'') (ev_OccurredAt e),
     validateText (fld @ ''.snippet'') (ev_Snippet e) MaxSnippetBytes False,
     validateText (fld @ ''.deep_link'') (ev_DeepLink e) MaxDeepLinkBytes False]"

definition validateEvidence :: "string \<Rightarrow> evidence list option \<Rightarrow> nat \<Rightarrow> go_error option" where
  "validateEvidence fld rows mx = (case rows of None \<Rightarrow> errf CodeMissingField fld
     | Some rs \<Rightarrow> first_err (validateCount fld (length rs) mx
         # map (\<lambda>(i, r). evidence_validate r (index_field fld i)) (enumerate 0 rs)))"

record today_item =
  ti_ID :: string
  ti_Kind :: string
  ti_Title :: string
  ti_Body :: string
  ti_Evidence :: "evidence list option"

record health_summary =
  hs_State :: string
  hs_Policy :: string

record today_projection = header +
  tp_GeneratedAt :: string
  tp_Health :: health_summary
  tp_Items :: "today_item list option"
  tp_Freshness :: "source_freshness list option"
  tp_Truncated :: bool

definition today_item_validate :: "nat \<Rightarrow> today_item \<Rightarrow> go_error option" where
  "today_item_validate i it = (let fld = index_field ''items'' i in first_err [
     validateText (fld @ ''.id'') (ti_ID it) MaxIDBytes True,
     (if \<not> opaqueRunes (ti_ID it) then errf CodeInvalidValue (fld @ ''.id'') else None),
     inVocabulary ''today_item_kind'' (ti_Kind it) (fld @ ''.kind''),
     validateText (fld @ ''.title'') (ti_Title it) MaxTitleBytes True,
     validateText (fld @ ''.body'') (ti_Body it) MaxBodyBytes False,
     validateEvidence (fld @ ''.evidence'') (ti_Evidence it) MaxEvidencePerItem,
     (if ti_Evidence it = None \<or> ti_Evidence it = Some []
      then errf CodeMissingField (fld @ ''.evidence'') else None)])"

definition TodayProjection_Validate :: "today_projection \<Rightarrow> go_error option" where
  "TodayProjection_Validate t = first_err [
     header_validate t ''mora.companion.today'',
     validateTimestamp ''generated_at'' (tp_GeneratedAt t),
     inVocabulary ''health_state'' (hs_State (tp_Health t)) ''health.state'',
     inVocabulary ''write_policy'' (hs_Policy (tp_Health t)) ''health.policy'',
     (case tp_Items t of None \<Rightarrow> errf CodeMissingField ''items''
      | Some its \<Rightarrow> first_err (validateCount ''items'' (length its) MaxTodayItems
          # map (\<lambda>(i, it). today_item_validate i it) (enumerate 0 its))),
     (case tp_Freshness t of None \<Rightarrow> errf CodeMissingField ''freshness''
      | Some rows \<Rightarrow> validateFreshness ''freshness'' rows (tp_GeneratedAt t))]"

record context_request = header +
  cr_Mode :: string
  cr_Query :: string
  cr_Scope :: string

definition ContextRequest_Validate :: "context_request \<Rightarrow> go_error option" where
  "ContextRequest_Validate c = first_err [
     header_validate c ''mora.companion.context.request'',
     inVocabulary ''context_mode'' (cr_Mode c) ''mode'',
     validateText ''query'' (cr_Query c) MaxQueryBytes True,
     (if cr_Scope c = [] then None else validateScope ''scope'' (cr_Scope c))]"

record context_bundle = header +
  cb_GeneratedAt :: string
  cb_Mode :: string
  cb_Query :: string
  cb_Evidence :: "evidence list option"
  cb_Gaps :: "string list option"
  cb_Freshness :: "source_freshness list option"
  cb_SynthesisPrompt :: string
  cb_Health :: health_summary

definition ContextBundle_Validate :: "context_bundle \<Rightarrow> go_error option" where
  "ContextBundle_Validate c = first_err [
     header_validate c ''mora.companion.context'',
     validateTimestamp ''generated_at'' (cb_GeneratedAt c),
     inVocabulary ''context_mode'' (cb_Mode c) ''mode'',
     validateText ''query'' (cb_Query c) MaxQueryBytes True,
     validateEvidence ''evidence'' (cb_Evidence c) MaxContextEvidence,
     (case cb_Gaps c of None \<Rightarrow> errf CodeMissingField ''gaps''
      | Some gs \<Rightarrow> first_err (validateCount ''gaps'' (length gs) MaxGaps
          # map (\<lambda>(i, g). validateText (index_field ''gaps'' i) g MaxGapBytes True) (enumerate 0 gs))),
     (case cb_Freshness c of None \<Rightarrow> errf CodeMissingField ''freshness''
      | Some rows \<Rightarrow> validateFreshness ''freshness'' rows (cb_GeneratedAt c)),
     validateText ''synthesis_prompt'' (cb_SynthesisPrompt c) MaxSynthesisPromptBytes True,
     inVocabulary ''health_state'' (hs_State (cb_Health c)) ''health.state'',
     inVocabulary ''write_policy'' (hs_Policy (cb_Health c)) ''health.policy'']"

subsection \<open>Capture\<close>

record capture = header +
  ca_IdempotencyKey :: string
  ca_DeviceID :: string
  ca_CapturedAt :: string
  ca_RequestedLane :: string
  ca_Intent :: string
  ca_Scope :: string
  ca_Text :: string
  ca_PayloadFingerprint :: string

definition ValidateRouting :: "string \<Rightarrow> string \<Rightarrow> go_error option" where
  "ValidateRouting lane intent =
     (if lane = LaneMemory \<and> (intent = IntentRemember \<or> intent = IntentAsk) then None
      else if lane = LaneResearch \<and> intent = IntentInvestigate then None
      else errf CodeInvalidState ''intent'')"

definition Capture_Validate :: "capture \<Rightarrow> go_error option" where
  "Capture_Validate c = first_err [
     header_validate c ''mora.companion.capture'',
     validateIdempotencyKey ''idempotency_key'' (ca_IdempotencyKey c),
     validateID ''device_id'' PrefixDevice (ca_DeviceID c),
     validateTimestamp ''captured_at'' (ca_CapturedAt c),
     inVocabulary ''lane'' (ca_RequestedLane c) ''requested_lane'',
     inVocabulary ''intent'' (ca_Intent c) ''intent'',
     validateScope ''scope'' (ca_Scope c),
     validateText ''text'' (ca_Text c) MaxCaptureTextBytes True,
     validateFingerprint ''payload_fingerprint'' (ca_PayloadFingerprint c),
     (if ca_PayloadFingerprint c \<noteq> Fingerprint (ca_Text c)
      then errf CodeInvalidValue ''payload_fingerprint'' else None),
     ValidateRouting (ca_RequestedLane c) (ca_Intent c)]"

end
