(* ===== verification/Receipts.thy ===== *)
theory Receipts
  imports Payloads
begin

text \<open>
  Receipts, devices and the pairing documents of internal/companion/schema.go, the pairing
  grant of internal/companion/pairing_route.go, and the \<open>Unmarshal\<close>/\<open>Marshal\<close> pair
  every document passes through.
\<close>

subsection \<open>Receipt\<close>

record operation_status =
  os_RequestID :: string
  os_Lane :: string
  os_Kind :: string
  os_State :: string
  os_UpdatedAt :: string
  os_Attempts :: int

record receipt = header +
  rc_ReceiptID :: string
  rc_RequestID :: string
  rc_IdempotencyKey :: string
  rc_DeviceID :: string
  rc_State :: string
  rc_Reason :: string
  rc_MemoryID :: string
  rc_PayloadFingerprint :: string
  rc_Policy :: string
  rc_ReceivedAt :: string
  rc_SettledAt :: string
  rc_Operation :: "operation_status option"

definition NewReceipt :: receipt where
  "NewReceipt = \<lparr>hd_Schema = ''mora.companion.receipt'', hd_SchemaVersion = SchemaVersion,
     rc_ReceiptID = [], rc_RequestID = [], rc_IdempotencyKey = [], rc_DeviceID = [],
     rc_State = [], rc_Reason = [], rc_MemoryID = [], rc_PayloadFingerprint = [],
     rc_Policy = [], rc_ReceivedAt = [], rc_SettledAt = [], rc_Operation = None\<rparr>"

definition policy_state :: "string \<Rightarrow> string" where
  \<comment> \<open>the map literal of \<open>validatePolicyOutcome\<close>: the empty string for another key\<close>
  "policy_state policy =
     (if policy = PolicyReadonly then ReceiptRejected
      else if policy = PolicyPropose then ReceiptAccepted
      else if policy = PolicyOpen then ReceiptApplied else [])"

definition validatePolicyOutcome :: "string \<Rightarrow> string \<Rightarrow> string \<Rightarrow> go_error option" where
  "validatePolicyOutcome state reason policy =
     (if reason \<noteq> [] \<and> reason \<noteq> ReasonPolicy then
        (if state \<noteq> ReceiptRejected then errf CodeInvalidState ''state'' else None)
      else if state \<noteq> policy_state policy then errf CodeInvalidState ''state'' else None)"

definition receipt_state_rules :: "receipt \<Rightarrow> go_error option" where
  \<comment> \<open>the switch on the state\<close>
  "receipt_state_rules r =
     (if rc_State r = ReceiptApplied then
        (if rc_MemoryID r = [] then errf CodeInvalidState ''memory_id''
         else if rc_SettledAt r = [] then errf CodeInvalidState ''settled_at''
         else if rc_Reason r \<noteq> [] then errf CodeInvalidState ''reason'' else None)
      else if rc_State r = ReceiptRejected then
        (if rc_Reason r = [] then errf CodeMissingField ''reason''
         else if rc_MemoryID r \<noteq> [] then errf CodeInvalidState ''memory_id''
         else if rc_SettledAt r = [] then errf CodeInvalidState ''settled_at'' else None)
      else if rc_State r = ReceiptAccepted then
        (if rc_MemoryID r \<noteq> [] then errf CodeInvalidState ''memory_id''
         else if rc_Reason r \<noteq> [] then errf CodeInvalidState ''reason'' else None)
      else None)"

definition receipt_operation_rules :: "string \<Rightarrow> operation_status \<Rightarrow> go_error option" where
  "receipt_operation_rules rid op = first_err [
     (if os_RequestID op \<noteq> rid then errf CodeInvalidState ''operation.request_id'' else None),
     validateID ''operation.request_id'' PrefixRequest (os_RequestID op),
     inVocabulary ''lane'' (os_Lane op) ''operation.lane'',
     inVocabulary ''kind'' (os_Kind op) ''operation.kind'',
     inVocabulary ''operation_state'' (os_State op) ''operation.state'',
     validateTimestamp ''operation.updated_at'' (os_UpdatedAt op),
     (if os_Attempts op < 0 then errf CodeInvalidValue ''operation.attempts''
      else if MaxAttempts < os_Attempts op then errf CodeTooLarge ''operation.attempts'' else None)]"

definition Receipt_Validate :: "receipt \<Rightarrow> go_error option" where
  "Receipt_Validate r = first_err [
     header_validate r ''mora.companion.receipt'',
     validateID ''receipt_id'' PrefixReceipt (rc_ReceiptID r),
     validateID ''request_id'' PrefixRequest (rc_RequestID r),
     validateIdempotencyKey ''idempotency_key'' (rc_IdempotencyKey r),
     validateID ''device_id'' PrefixDevice (rc_DeviceID r),
     inVocabulary ''receipt_state'' (rc_State r) ''state'',
     inVocabulary ''write_policy'' (rc_Policy r) ''policy'',
     validateFingerprint ''payload_fingerprint'' (rc_PayloadFingerprint r),
     validateTimestamp ''received_at'' (rc_ReceivedAt r),
     validateOptionalTimestamp ''settled_at'' (rc_SettledAt r),
     validateOptionalID ''memory_id'' PrefixMemory (rc_MemoryID r),
     (if rc_Reason r \<noteq> [] then inVocabulary ''reject_reason'' (rc_Reason r) ''reason'' else None),
     receipt_state_rules r,
     validatePolicyOutcome (rc_State r) (rc_Reason r) (rc_Policy r),
     (case rc_Operation r of None \<Rightarrow> None
      | Some op \<Rightarrow> receipt_operation_rules (rc_RequestID r) op)]"

subsection \<open>Device\<close>

record device = header +
  dv_DeviceID :: string
  dv_Label :: string
  dv_Platform :: string
  dv_State :: string
  dv_TokenFingerprint :: string
  dv_CreatedAt :: string
  dv_LastSeenAt :: string
  dv_RevokedAt :: string

definition device_state_rules :: "device \<Rightarrow> go_error option" where
  "device_state_rules d = first_err [
     (if dv_State d = DeviceRevoked then
        (if dv_RevokedAt d = [] then errf CodeInvalidState ''revoked_at'' else None)
      else if dv_State d = DevicePending \<or> dv_State d = DeviceActive then
        (if dv_RevokedAt d \<noteq> [] then errf CodeInvalidState ''revoked_at'' else None)
      else None),
     (if dv_State d = DevicePending \<and> dv_TokenFingerprint d \<noteq> []
      then errf CodeInvalidState ''token_fingerprint'' else None),
     (if dv_State d = DeviceActive \<and> dv_TokenFingerprint d = []
      then errf CodeMissingField ''token_fingerprint'' else None)]"

definition Device_Validate :: "device \<Rightarrow> go_error option" where
  "Device_Validate d = first_err [
     header_validate d ''mora.companion.device'',
     validateID ''device_id'' PrefixDevice (dv_DeviceID d),
     validateText ''label'' (dv_Label d) MaxLabelBytes True,
     inVocabulary ''platform'' (dv_Platform d) ''platform'',
     inVocabulary ''device_state'' (dv_State d) ''state'',
     validateOptionalFingerprint ''token_fingerprint'' (dv_TokenFingerprint d),
     validateTimestamp ''created_at'' (dv_CreatedAt d),
     validateOptionalTimestamp ''last_seen_at'' (dv_LastSeenAt d),
     validateOptionalTimestamp ''revoked_at'' (dv_RevokedAt d),
     device_state_rules d]"

subsection \<open>Pairing\<close>

text \<open>
  A parsed URL, as far as the code reads one: the scheme, whether it carries userinfo, and
  \<open>Hostname()\<close>. The parser (\<open>net/url\<close>) is the argument \<open>url_parse\<close>; \<open>None\<close> is
  its error.
\<close>

type_synonym url_parser = "string \<Rightarrow> (string \<times> bool \<times> string) option"

definition validateEndpoint :: "url_parser \<Rightarrow> string \<Rightarrow> string \<Rightarrow> go_error option" where
  "validateEndpoint url_parse fld raw = (case validateText fld raw MaxDeepLinkBytes True of
     Some e \<Rightarrow> Some e
   | None \<Rightarrow> (case url_parse raw of
       None \<Rightarrow> errf CodeInvalidValue fld
     | Some (scheme, user, host) \<Rightarrow>
         if user then errf CodeInvalidValue fld
         else if scheme = ''https'' then
           (if host = [] then errf CodeInvalidValue fld else None)
         else if scheme = ''http'' then
           (if host \<in> {''127.0.0.1'', ''::1'', ''localhost''} then None
            else errf CodeInvalidValue fld)
         else errf CodeInvalidValue fld))"

definition validatePublicKey :: "string \<Rightarrow> string \<Rightarrow> go_error option" where
  "validatePublicKey fld raw = (case validateText fld raw MaxPublicKeyBytes True of
     Some e \<Rightarrow> Some e
   | None \<Rightarrow> (case cut_char raw CHR '':'' of (alg, encoded, ok) \<Rightarrow>
       if \<not> ok then errf CodeInvalidValue fld
       else if alg \<noteq> ''ed25519'' \<and> alg \<noteq> ''x25519'' then errf CodeInvalidEnum fld
       else case base64_decoded_length encoded of
         None \<Rightarrow> errf CodeInvalidValue fld
       | Some n \<Rightarrow> if n \<noteq> 32 then errf CodeInvalidValue fld else None))"

record pairing_payload = header +
  pp_DeviceID :: string
  pp_Endpoint :: string
  pp_PairingCode :: string
  pp_ExpiresAt :: string
  pp_HostFingerprint :: string

definition PairingPayload_Validate :: "url_parser \<Rightarrow> pairing_payload \<Rightarrow> go_error option" where
  "PairingPayload_Validate url_parse p = first_err [
     header_validate p ''mora.companion.pairing'',
     validateID ''device_id'' PrefixDevice (pp_DeviceID p),
     validateText ''endpoint'' (pp_Endpoint p) MaxDeepLinkBytes True,
     validateEndpoint url_parse ''endpoint'' (pp_Endpoint p),
     validateText ''pairing_code'' (pp_PairingCode p) MaxIdempotencyKeyBytes True,
     validateTimestamp ''expires_at'' (pp_ExpiresAt p),
     validateFingerprint ''host_fingerprint'' (pp_HostFingerprint p)]"

definition PairingPayload_Redacted :: "pairing_payload \<Rightarrow> pairing_payload" where
  "PairingPayload_Redacted p =
     (if pp_PairingCode p \<noteq> [] then p\<lparr>pp_PairingCode := ''[redacted]''\<rparr> else p)"

record pairing_confirmation = header +
  pc_DeviceID :: string
  pc_PairingCode :: string
  pc_Label :: string
  pc_Platform :: string
  pc_PublicKey :: string
  pc_ConfirmedAt :: string

definition PairingConfirmation_Validate :: "pairing_confirmation \<Rightarrow> go_error option" where
  "PairingConfirmation_Validate p = first_err [
     header_validate p ''mora.companion.pairing.confirmation'',
     validateID ''device_id'' PrefixDevice (pc_DeviceID p),
     validateText ''pairing_code'' (pc_PairingCode p) MaxIdempotencyKeyBytes True,
     validateText ''label'' (pc_Label p) MaxLabelBytes True,
     inVocabulary ''platform'' (pc_Platform p) ''platform'',
     validatePublicKey ''public_key'' (pc_PublicKey p),
     validateTimestamp ''confirmed_at'' (pc_ConfirmedAt p)]"

definition PairingConfirmation_Redacted :: "pairing_confirmation \<Rightarrow> pairing_confirmation" where
  "PairingConfirmation_Redacted p =
     (if pc_PairingCode p \<noteq> [] then p\<lparr>pc_PairingCode := ''[redacted]''\<rparr> else p)"

record pairing_grant = header +
  pg_DeviceID :: string
  pg_Token :: string
  pg_TokenFingerprint :: string
  pg_IssuedAt :: string

definition PairingGrant_Redacted :: "pairing_grant \<Rightarrow> pairing_grant" where
  "PairingGrant_Redacted g =
     (if pg_Token g \<noteq> [] then g\<lparr>pg_Token := ''[redacted]''\<rparr> else g)"

definition PairingGrant_Validate :: "pairing_grant \<Rightarrow> go_error option" where
  "PairingGrant_Validate g = first_err [
     header_validate g ''mora.companion.pairing.grant'',
     validateID ''device_id'' PrefixDevice (pg_DeviceID g),
     validateText ''token'' (pg_Token g) MaxIdempotencyKeyBytes True,
     validateFingerprint ''token_fingerprint'' (pg_TokenFingerprint g),
     (if pg_TokenFingerprint g \<noteq> Fingerprint (pg_Token g)
      then errf CodeInvalidValue ''token_fingerprint'' else None),
     validateTimestamp ''issued_at'' (pg_IssuedAt g)]"

subsection \<open>Decoding and encoding\<close>

text \<open>
  What \<open>encoding/json\<close> makes of a body, strictly decoded: an unknown field, another
  error, or a value and whether more input follows it.
\<close>

datatype 'a decoded = UnknownField | BadJSON | Decoded 'a bool

definition Unmarshal ::
  "nat \<Rightarrow> (string \<Rightarrow> 'a decoded) \<Rightarrow> ('a \<Rightarrow> go_error option) \<Rightarrow> string \<Rightarrow> go_error + 'a" where
  "Unmarshal limit decode validate data =
     (if 0 < limit \<and> limit < length data then Inl (SchemaError CodeTooLarge [])
      else case decode data of
        UnknownField \<Rightarrow> Inl (SchemaError CodeUnknownField [])
      | BadJSON \<Rightarrow> Inl (SchemaError CodeMalformed [])
      | Decoded v trailing \<Rightarrow>
          if trailing then Inl (SchemaError CodeMalformed [])
          else case validate v of Some e \<Rightarrow> Inl e | None \<Rightarrow> Inr v)"

definition Marshal ::
  "nat \<Rightarrow> ('a \<Rightarrow> string) \<Rightarrow> ('a \<Rightarrow> go_error option) \<Rightarrow> 'a \<Rightarrow> go_error + string" where
  \<comment> \<open>\<open>encode\<close> is \<open>json.MarshalIndent\<close>, which cannot fail on these structs\<close>
  "Marshal limit encode validate v = (case validate v of Some e \<Rightarrow> Inl e
     | None \<Rightarrow> let b = encode v @ [CHR 0x0A] in
         if 0 < limit \<and> limit < length b then Inl (SchemaError CodeTooLarge []) else Inr b)"

end
