(* ===== verification/Registry.thy ===== *)
theory Registry
  imports Receipts
begin

text \<open>
  The device registry, internal/companion/registry.go. The state is what is on disk: the
  record file \<open>devices.json\<close> with its size in bytes, the append-only audit rows, the
  sidecar marks of uncounted pairing failures and the host seed, and the bytes the entropy
  source will deliver. Every file operation can fail: the tape \<open>rg_tape\<close> holds the
  outcome of the operations to come, one entry per locked section (an exhausted tape is a
  filesystem that works). A write that is published by rename can also fail \<^emph>\<open>after\<close> the
  rename, when the directory is synced or the mode re-asserted, so a write has three outcomes.
  A clock reading is an argument of the operation that takes it.
\<close>

subsection \<open>Stored records\<close>

record device_record =
  dr_DeviceID :: string
  dr_Label :: string
  dr_Platform :: string
  dr_State :: string
  dr_TokenFingerprint :: string
  dr_PairingCodeFingerprint :: string
  dr_PairingExpiresAt :: string
  dr_PairingAttempts :: int
  dr_PublicKey :: string
  dr_CreatedAt :: string
  dr_LastSeenAt :: string
  dr_RevokedAt :: string

record registry_file =
  rf_Version :: int
  rf_Devices :: "device_record list"

record audit_row =
  au_Event :: string
  au_DeviceID :: string
  au_At :: string

definition no_row :: audit_row where
  "no_row = \<lparr>au_Event = [], au_DeviceID = [], au_At = []\<rparr>"

definition MaxRegistryBytes :: nat where "MaxRegistryBytes = 1048576"
definition MaxDevices :: nat where "MaxDevices = 64"
definition registryFileVersion :: int where "registryFileVersion = 1"
definition PairingTTL :: duration where "PairingTTL = 10 * minute"
definition tokenEntropyBytes :: nat where "tokenEntropyBytes = 32"
definition pairingCodeEntropyBytes :: nat where "pairingCodeEntropyBytes = 20"
definition deviceIDEntropyBytes :: nat where "deviceIDEntropyBytes = 4"

definition record_device :: "device_record \<Rightarrow> device" where
  "record_device r = \<lparr>hd_Schema = ''mora.companion.device'', hd_SchemaVersion = SchemaVersion,
     dv_DeviceID = dr_DeviceID r, dv_Label = dr_Label r, dv_Platform = dr_Platform r,
     dv_State = dr_State r, dv_TokenFingerprint = dr_TokenFingerprint r,
     dv_CreatedAt = dr_CreatedAt r, dv_LastSeenAt = dr_LastSeenAt r,
     dv_RevokedAt = dr_RevokedAt r\<rparr>"

subsection \<open>The world the registry runs in\<close>

datatype write_result = Written | NotWritten go_error | WrittenThen go_error

fun write_error :: "write_result \<Rightarrow> go_error option" where
  "write_error Written = None"
| "write_error (NotWritten e) = Some e"
| "write_error (WrittenThen e) = Some e"

fun landed :: "write_result \<Rightarrow> bool" where
  "landed Written = True"
| "landed (NotWritten e) = False"
| "landed (WrittenThen e) = True"

record io =
  io_ensure :: "go_error option"
  io_lock :: "go_error option"
  io_load :: "go_error option"
  io_stat :: "go_error option"
  io_write :: write_result
  io_audit :: write_result
  io_remove :: "go_error option"

definition io_ok :: io where
  "io_ok = \<lparr>io_ensure = None, io_lock = None, io_load = None, io_stat = None,
     io_write = Written, io_audit = Written, io_remove = None\<rparr>"

record registry =
  rg_file :: "(registry_file \<times> nat) option"
  rg_rows :: "audit_row list"
  rg_marks :: "string set"
  rg_seed :: "string option"
  rg_entropy :: "nat list"
  rg_tape :: "io list"

definition next_io :: "registry \<Rightarrow> io \<times> registry" where
  "next_io g = (case rg_tape g of [] \<Rightarrow> (io_ok, g) | i # t \<Rightarrow> (i, g\<lparr>rg_tape := t\<rparr>))"

definition read_full :: "nat \<Rightarrow> registry \<Rightarrow> (go_error + nat list) \<times> registry" where
  \<comment> \<open>\<open>io.ReadFull(r.entropy, buf)\<close>\<close>
  "read_full n g = (if length (rg_entropy g) < n then (Inl (OtherError ''read entropy''), g)
     else (Inr (take n (rg_entropy g)), g\<lparr>rg_entropy := drop n (rg_entropy g)\<rparr>))"

subsection \<open>Identifiers, secrets and time\<close>

definition stampAt :: "instant \<Rightarrow> string" where
  "stampAt t = format_rfc3339 (truncate_second t)"

definition expired :: "instant \<Rightarrow> string \<Rightarrow> bool" where
  "expired now deadline =
     (if deadline = [] then True
      else case parse_rfc3339 deadline of None \<Rightarrow> True | Some t \<Rightarrow> \<not> now < t)"

definition newSecret :: "nat \<Rightarrow> registry \<Rightarrow> (go_error + string) \<times> registry" where
  "newSecret n g = (case read_full n g of (Inl e, g) \<Rightarrow> (Inl e, g)
     | (Inr buf, g) \<Rightarrow> (Inr (base32_string buf), g))"

definition newDeviceID :: "instant \<Rightarrow> registry \<Rightarrow> (go_error + string) \<times> registry" where
  "newDeviceID now g = (case read_full deviceIDEntropyBytes g of (Inl e, g) \<Rightarrow> (Inl e, g)
     | (Inr tail, g) \<Rightarrow>
        (Inr (PrefixDevice @ format_compact now @ ''_'' @ hex_string tail), g))"

subsection \<open>The record file\<close>

fun find_device :: "string \<Rightarrow> device_record list \<Rightarrow> device_record option" where
  "find_device k [] = None"
| "find_device k (r # rs) = (if dr_DeviceID r = k then Some r else find_device k rs)"

fun update_device ::
  "string \<Rightarrow> (device_record \<Rightarrow> device_record) \<Rightarrow> device_record list \<Rightarrow> device_record list" where
  \<comment> \<open>assigning through the pointer \<open>find\<close> returned: the first record with that id\<close>
  "update_device k u [] = []"
| "update_device k u (r # rs) = (if dr_DeviceID r = k then u r # rs else r # update_device k u rs)"

definition load :: "go_error option \<Rightarrow> registry \<Rightarrow> go_error + registry_file" where
  "load fault g = (case fault of Some e \<Rightarrow> Inl e
     | None \<Rightarrow> (case rg_file g of
         None \<Rightarrow> Inr \<lparr>rf_Version = registryFileVersion, rf_Devices = []\<rparr>
       | Some (f, sz) \<Rightarrow>
           if MaxRegistryBytes < sz then Inl (OtherError ''registry over the byte limit'')
           else if registryFileVersion < rf_Version f then Inl (OtherError ''registry version'')
           else if MaxDevices < length (rf_Devices f) then Inl (OtherError ''too many devices'')
           else Inr f))"

text \<open>
  What the function given to \<open>mutate\<close> decides: an error, nothing to write
  (\<open>errNoChange\<close>), or the changed file and the audit row. The last component is what the
  closure assigned to variables of its caller.
\<close>

datatype 'a verdict = Refuse go_error | NoChange 'a | Change registry_file audit_row 'a

definition commit_file ::
  "(registry_file \<Rightarrow> nat) \<Rightarrow> io \<Rightarrow> registry_file \<Rightarrow> audit_row \<Rightarrow> registry \<Rightarrow> go_error option \<times> registry"
where
  "commit_file json_size i f row g =
     (let f = f\<lparr>rf_Version := registryFileVersion\<rparr> in
      if MaxRegistryBytes < json_size f then (Some ErrRegistryTooLarge, g)
      else let g = (if landed (io_write i) then g\<lparr>rg_file := Some (f, json_size f)\<rparr> else g) in
        case write_error (io_write i) of Some e \<Rightarrow> (Some e, g)
        | None \<Rightarrow>
            if au_Event row = [] then (None, g)
            else let g = (if landed (io_audit i) then g\<lparr>rg_rows := rg_rows g @ [row]\<rparr> else g)
              in case write_error (io_audit i) of Some e \<Rightarrow> (Some ErrReceiptNotWritten, g)
                 | None \<Rightarrow> (None, g))"

definition mutate ::
  "(registry_file \<Rightarrow> nat) \<Rightarrow> (registry_file \<Rightarrow> 'a verdict) \<Rightarrow> registry
    \<Rightarrow> go_error option \<times> 'a option \<times> registry" where
  "mutate json_size fn g =
     (case next_io g of (i, g) \<Rightarrow>
        case io_ensure i of Some e \<Rightarrow> (Some e, None, g)
      | None \<Rightarrow> (case io_lock i of Some e \<Rightarrow> (Some e, None, g)
      | None \<Rightarrow> (case load (io_load i) g of Inl e \<Rightarrow> (Some e, None, g)
      | Inr f \<Rightarrow> (case fn f of
          Refuse e \<Rightarrow> (Some e, None, g)
        | NoChange a \<Rightarrow> (None, Some a, g)
        | Change f' row a \<Rightarrow>
            (case commit_file json_size i f' row g of (e, g) \<Rightarrow> (e, Some a, g))))))"

subsection \<open>Host identity\<close>

definition readHostSeed :: "go_error option \<Rightarrow> registry \<Rightarrow> go_error + string" where
  "readHostSeed fault g = (case fault of Some e \<Rightarrow> Inl e
     | None \<Rightarrow> (case rg_seed g of None \<Rightarrow> Inl ErrNotExist
       | Some seed \<Rightarrow> if length seed \<noteq> tokenEntropyBytes
           then Inl (OtherError ''the host identity is corrupt'') else Inr seed))"

definition HostFingerprint :: "registry \<Rightarrow> (go_error + string) \<times> registry" where
  "HostFingerprint g = (case next_io g of (i, g) \<Rightarrow>
     case readHostSeed (io_load i) g of
       Inr seed \<Rightarrow> (Inr (Fingerprint seed), g)
     | Inl e \<Rightarrow>
       if \<not> errors_is e ErrNotExist then (Inl e, g)
       else case next_io g of (i, g) \<Rightarrow>
         case io_ensure i of Some e \<Rightarrow> (Inl e, g)
       | None \<Rightarrow> (case io_lock i of Some e \<Rightarrow> (Inl e, g)
       | None \<Rightarrow> (case readHostSeed (io_load i) g of
           Inr seed \<Rightarrow> (Inr (Fingerprint seed), g)
         | Inl e \<Rightarrow> if \<not> errors_is e ErrNotExist then (Inl e, g)
           else case read_full tokenEntropyBytes g of (Inl e, g) \<Rightarrow> (Inl e, g)
           | (Inr bs, g) \<Rightarrow>
             let seed = map char_of bs;
                 g = (if landed (io_write i) then g\<lparr>rg_seed := Some seed\<rparr> else g)
             in case write_error (io_write i) of Some e \<Rightarrow> (Inl e, g)
                | None \<Rightarrow> (Inr (Fingerprint seed), g))))"

subsection \<open>Pair\<close>

definition pair_verdict :: "device_record \<Rightarrow> string \<Rightarrow> registry_file \<Rightarrow> unit verdict" where
  "pair_verdict rec now f =
     (if find_device (dr_DeviceID rec) (rf_Devices f) \<noteq> None
        then Refuse (OtherError ''device id is already registered'')
      else if MaxDevices \<le> length (rf_Devices f) then Refuse (OtherError ''device limit'')
      else Change (f\<lparr>rf_Devices := rf_Devices f @ [rec]\<rparr>)
        \<lparr>au_Event = ''paired'', au_DeviceID = dr_DeviceID rec, au_At = now\<rparr> ())"

definition new_record :: "string \<Rightarrow> string \<Rightarrow> string \<Rightarrow> string \<Rightarrow> string \<Rightarrow> string \<Rightarrow> device_record" where
  "new_record did label platform code expires now =
     \<lparr>dr_DeviceID = did, dr_Label = label, dr_Platform = platform, dr_State = DevicePending,
      dr_TokenFingerprint = [], dr_PairingCodeFingerprint = Fingerprint code,
      dr_PairingExpiresAt = expires, dr_PairingAttempts = 0, dr_PublicKey = [],
      dr_CreatedAt = now, dr_LastSeenAt = [], dr_RevokedAt = []\<rparr>"

definition pair_checks :: "url_parser \<Rightarrow> string \<Rightarrow> string \<Rightarrow> string \<Rightarrow> go_error option" where
  "pair_checks url_parse label platform endpoint = first_err [
     validateText ''label'' label MaxLabelBytes True,
     inVocabulary ''platform'' platform ''platform'',
     validateEndpoint url_parse ''endpoint'' endpoint]"

definition register_pending ::
  "(registry_file \<Rightarrow> nat) \<Rightarrow> url_parser \<Rightarrow> string \<Rightarrow> string \<Rightarrow> string \<Rightarrow> instant \<Rightarrow> instant
    \<Rightarrow> string \<Rightarrow> string \<Rightarrow> string \<Rightarrow> registry \<Rightarrow> go_error option \<times> pairing_payload option \<times> registry"
where
  \<comment> \<open>\<open>Pair\<close> from the moment the host, the id and the code are known\<close>
  "register_pending json_size url_parse label platform endpoint t1 t2 host did code g =
     (let now = stampAt t1; expires = stampAt (t2 + PairingTTL);
          payload = \<lparr>hd_Schema = ''mora.companion.pairing'', hd_SchemaVersion = SchemaVersion,
            pp_DeviceID = did, pp_Endpoint = endpoint, pp_PairingCode = code,
            pp_ExpiresAt = expires, pp_HostFingerprint = host\<rparr>;
          rec = new_record did label platform code expires now
      in case PairingPayload_Validate url_parse payload of Some e \<Rightarrow> (Some e, None, g)
       | None \<Rightarrow> (case Device_Validate (record_device rec) of Some e \<Rightarrow> (Some e, None, g)
       | None \<Rightarrow> (case mutate json_size (pair_verdict rec now) g of (e, _, g) \<Rightarrow>
           if e \<noteq> None \<and> \<not> err_is e ErrReceiptNotWritten then (e, None, g)
           else (e, Some payload, g))))"

definition Pair ::
  "(registry_file \<Rightarrow> nat) \<Rightarrow> url_parser \<Rightarrow> string \<Rightarrow> string \<Rightarrow> string \<Rightarrow> instant \<Rightarrow> instant \<Rightarrow> instant
    \<Rightarrow> registry \<Rightarrow> go_error option \<times> pairing_payload option \<times> registry" where
  \<comment> \<open>\<open>t0\<close> stamps the id, \<open>t1\<close> the record, \<open>t2\<close> the expiry: three readings of the clock\<close>
  "Pair json_size url_parse label platform endpoint t0 t1 t2 g =
     (case pair_checks url_parse label platform endpoint of Some e \<Rightarrow> (Some e, None, g)
      | None \<Rightarrow> (case HostFingerprint g of (Inl e, g) \<Rightarrow> (Some e, None, g)
      | (Inr host, g) \<Rightarrow> (case newDeviceID t0 g of (Inl e, g) \<Rightarrow> (Some e, None, g)
      | (Inr did, g) \<Rightarrow> (case newSecret pairingCodeEntropyBytes g of (Inl e, g) \<Rightarrow> (Some e, None, g)
      | (Inr code, g) \<Rightarrow>
          register_pending json_size url_parse label platform endpoint t1 t2 host did code g))))"

end
