(* ===== verification/RegistryOps.thy ===== *)
theory RegistryOps
  imports Registry
begin

text \<open>
  The operations of internal/companion/registry.go on a registered device: spending a code,
  counting a wrong one, authenticating, revoking, and the reads. A Go result
  \<open>(value, error)\<close> is a pair; the zero \<open>Device\<close> returned with an error is \<open>None\<close>.
\<close>

subsection \<open>Confirm\<close>

definition activate :: "string \<Rightarrow> pairing_confirmation \<Rightarrow> device_record \<Rightarrow> device_record" where
  "activate token c r = r\<lparr>dr_State := DeviceActive, dr_TokenFingerprint := Fingerprint token,
     dr_PairingCodeFingerprint := [], dr_PairingExpiresAt := [], dr_Label := pc_Label c,
     dr_Platform := pc_Platform c, dr_PublicKey := pc_PublicKey c\<rparr>"

definition confirm_verdict ::
  "string \<Rightarrow> pairing_confirmation \<Rightarrow> string \<Rightarrow> instant \<Rightarrow> registry_file
    \<Rightarrow> (device option \<times> bool) verdict" where
  \<comment> \<open>the second component of the output is \<open>expiredCode\<close>\<close>
  "confirm_verdict token c now t2 f = (case find_device (pc_DeviceID c) (rf_Devices f) of
     None \<Rightarrow> Refuse ErrNoSuchDevice
   | Some r \<Rightarrow>
      if dr_State r \<noteq> DevicePending \<or> dr_PairingCodeFingerprint r = [] then Refuse ErrNotPending
      else if dr_PairingCodeFingerprint r \<noteq> Fingerprint (pc_PairingCode c) then Refuse ErrPairingCode
      else if expired t2 (dr_PairingExpiresAt r) then
        Change (f\<lparr>rf_Devices := update_device (pc_DeviceID c)
             (\<lambda>r. r\<lparr>dr_PairingCodeFingerprint := []\<rparr>) (rf_Devices f)\<rparr>)
          \<lparr>au_Event = ''expired'', au_DeviceID = pc_DeviceID c, au_At = now\<rparr> (None, True)
      else let dev = record_device (activate token c r) in
        case Device_Validate dev of Some e \<Rightarrow> Refuse e
        | None \<Rightarrow> Change (f\<lparr>rf_Devices := update_device (pc_DeviceID c) (activate token c) (rf_Devices f)\<rparr>)
            \<lparr>au_Event = ''confirmed'', au_DeviceID = pc_DeviceID c, au_At = now\<rparr> (Some dev, False))"

definition Confirm ::
  "(registry_file \<Rightarrow> nat) \<Rightarrow> pairing_confirmation \<Rightarrow> instant \<Rightarrow> instant \<Rightarrow> registry
    \<Rightarrow> (string \<times> device option \<times> go_error option) \<times> registry" where
  "Confirm json_size c t1 t2 g = (case PairingConfirmation_Validate c of
     Some e \<Rightarrow> (([], None, Some e), g)
   | None \<Rightarrow> (case newSecret tokenEntropyBytes g of (Inl e, g) \<Rightarrow> (([], None, Some e), g)
   | (Inr token, g) \<Rightarrow>
      (case mutate json_size (confirm_verdict token c (stampAt t1) t2) g of (err, out, g) \<Rightarrow>
        let unaudited = err_is err ErrReceiptNotWritten;
            dev = (case out of Some (d, _) \<Rightarrow> d | None \<Rightarrow> None);
            expiredCode = (case out of Some (_, x) \<Rightarrow> x | None \<Rightarrow> False)
        in if err \<noteq> None \<and> \<not> unaudited then (([], None, err), g)
           else if expiredCode then
             (if unaudited then (([], None, Some (Joined ErrPairingExpired ErrReceiptNotWritten)), g)
              else (([], None, Some ErrPairingExpired), g))
           else ((token, dev, err), g))))"

subsection \<open>The pairing budget\<close>

record pairing_state =
  ps_Attempts :: int
  ps_Pending :: bool
  ps_Unrecorded :: bool

definition markerPath :: "string \<Rightarrow> go_error + string" where
  \<comment> \<open>the path below the marker directory\<close>
  "markerPath did = (case validateID ''device_id'' PrefixDevice did of
     Some e \<Rightarrow> Inl e | None \<Rightarrow> Inr did)"

definition pairingFailureUnrecorded :: "string \<Rightarrow> io \<Rightarrow> registry \<Rightarrow> go_error + bool" where
  "pairingFailureUnrecorded did i g = (case markerPath did of
     Inl _ \<Rightarrow> Inr False
   | Inr path \<Rightarrow> (case io_stat i of Some e \<Rightarrow> Inl e | None \<Rightarrow> Inr (path \<in> rg_marks g)))"

definition live_pending :: "device_record \<Rightarrow> bool" where
  "live_pending r \<longleftrightarrow> dr_State r = DevicePending \<and> dr_PairingCodeFingerprint r \<noteq> []"

definition PairingBudget :: "string \<Rightarrow> registry \<Rightarrow> (go_error + pairing_state) \<times> registry" where
  "PairingBudget did g = (case next_io g of (i, g) \<Rightarrow>
     case pairingFailureUnrecorded did i g of Inl e \<Rightarrow> (Inl e, g)
   | Inr unrecorded \<Rightarrow> (case load (io_load i) g of Inl e \<Rightarrow> (Inl e, g)
   | Inr f \<Rightarrow> (case find_device did (rf_Devices f) of
       None \<Rightarrow> (Inr \<lparr>ps_Attempts = 0, ps_Pending = False, ps_Unrecorded = unrecorded\<rparr>, g)
     | Some r \<Rightarrow> (Inr \<lparr>ps_Attempts = dr_PairingAttempts r, ps_Pending = live_pending r,
         ps_Unrecorded = unrecorded\<rparr>, g))))"

definition MarkPairingFailureUnrecorded :: "string \<Rightarrow> registry \<Rightarrow> go_error option \<times> registry" where
  "MarkPairingFailureUnrecorded did g = (case markerPath did of Inl e \<Rightarrow> (Some e, g)
   | Inr path \<Rightarrow> (case next_io g of (i, g) \<Rightarrow>
       case io_ensure i of Some e \<Rightarrow> (Some e, g)
     | None \<Rightarrow> (write_error (io_write i),
         if landed (io_write i) then g\<lparr>rg_marks := insert path (rg_marks g)\<rparr> else g)))"

definition ClearPairingFailureUnrecorded :: "string \<Rightarrow> registry \<Rightarrow> go_error option \<times> registry" where
  "ClearPairingFailureUnrecorded did g = (case markerPath did of Inl e \<Rightarrow> (Some e, g)
   | Inr path \<Rightarrow> (case next_io g of (i, g) \<Rightarrow>
       case io_remove i of
         Some e \<Rightarrow> (if errors_is e ErrNotExist then (None, g) else (Some e, g))
       | None \<Rightarrow> (None, g\<lparr>rg_marks := rg_marks g - {path}\<rparr>)))"

definition failure_verdict :: "string \<Rightarrow> registry_file \<Rightarrow> int verdict" where
  "failure_verdict did f = (case find_device did (rf_Devices f) of
     None \<Rightarrow> NoChange 0
   | Some r \<Rightarrow> if \<not> live_pending r then NoChange 0
      else Change (f\<lparr>rf_Devices := update_device did
             (\<lambda>r. r\<lparr>dr_PairingAttempts := dr_PairingAttempts r + 1\<rparr>) (rf_Devices f)\<rparr>)
           no_row (dr_PairingAttempts r + 1))"

definition RecordPairingFailure ::
  "(registry_file \<Rightarrow> nat) \<Rightarrow> string \<Rightarrow> registry \<Rightarrow> (int \<times> go_error option) \<times> registry" where
  "RecordPairingFailure json_size did g =
     (case mutate json_size (failure_verdict did) g of (err, out, g) \<Rightarrow>
        if err \<noteq> None then ((0, err), g)
        else ((case out of Some n \<Rightarrow> n | None \<Rightarrow> 0, None), g))"

subsection \<open>Authentication\<close>

fun match_token :: "string \<Rightarrow> string \<Rightarrow> device_record option \<Rightarrow> device_record list \<Rightarrow> device_record option"
where
  \<comment> \<open>the comparison loop: every record is compared, the last match stays\<close>
  "match_token absent want matched [] = matched"
| "match_token absent want matched (r # rs) =
     (let stored = (if length (dr_TokenFingerprint r) \<noteq> length absent then absent
                    else dr_TokenFingerprint r)
      in match_token absent want (if stored = want then Some r else matched) rs)"

definition Authenticate :: "string \<Rightarrow> registry \<Rightarrow> (go_error + device) \<times> registry" where
  "Authenticate token g = (case next_io g of (i, g) \<Rightarrow>
     case load (io_load i) g of Inl e \<Rightarrow> (Inl e, g)
   | Inr f \<Rightarrow> (case newSecret tokenEntropyBytes g of (Inl e, g) \<Rightarrow> (Inl e, g)
   | (Inr seed, g) \<Rightarrow>
      (case match_token (Fingerprint seed) (Fingerprint token) None (rf_Devices f) of
         None \<Rightarrow> (Inl (AuthError ReasonUnknownDevice), g)
       | Some r \<Rightarrow>
          if dr_State r \<noteq> DeviceActive then (Inl (AuthError ReasonRevokedDevice), g)
          else (Inr (record_device r), g))))"

definition seen_verdict :: "string \<Rightarrow> string \<Rightarrow> registry_file \<Rightarrow> unit verdict" where
  "seen_verdict did now f = (case find_device did (rf_Devices f) of
     None \<Rightarrow> Refuse ErrNoSuchDevice
   | Some r \<Rightarrow> if dr_LastSeenAt r = now then NoChange ()
      else Change (f\<lparr>rf_Devices := update_device did (\<lambda>r. r\<lparr>dr_LastSeenAt := now\<rparr>) (rf_Devices f)\<rparr>)
           no_row ())"

definition MarkSeen ::
  "(registry_file \<Rightarrow> nat) \<Rightarrow> string \<Rightarrow> instant \<Rightarrow> registry \<Rightarrow> go_error option \<times> registry" where
  "MarkSeen json_size did t g =
     (case mutate json_size (seen_verdict did (stampAt t)) g of (err, _, g) \<Rightarrow> (err, g))"

subsection \<open>Revoke\<close>

definition retire :: "string \<Rightarrow> device_record \<Rightarrow> device_record" where
  "retire now r = r\<lparr>dr_State := DeviceRevoked, dr_RevokedAt := now,
     dr_PairingCodeFingerprint := [], dr_PairingExpiresAt := []\<rparr>"

definition revoke_verdict :: "string \<Rightarrow> string \<Rightarrow> registry_file \<Rightarrow> (device \<times> bool) verdict" where
  "revoke_verdict did now f = (case find_device did (rf_Devices f) of
     None \<Rightarrow> Refuse ErrNoSuchDevice
   | Some r \<Rightarrow>
      if dr_State r = DeviceRevoked then NoChange (record_device r, False)
      else let dev = record_device (retire now r) in
        case Device_Validate dev of Some e \<Rightarrow> Refuse e
        | None \<Rightarrow> Change (f\<lparr>rf_Devices := update_device did (retire now) (rf_Devices f)\<rparr>)
            \<lparr>au_Event = ''revoked'', au_DeviceID = did, au_At = now\<rparr> (dev, True))"

definition Revoke ::
  "(registry_file \<Rightarrow> nat) \<Rightarrow> string \<Rightarrow> instant \<Rightarrow> registry
    \<Rightarrow> (device option \<times> bool \<times> go_error option) \<times> registry" where
  "Revoke json_size did t g = (case validateID ''device_id'' PrefixDevice did of
     Some e \<Rightarrow> ((None, False, Some e), g)
   | None \<Rightarrow> (case mutate json_size (revoke_verdict did (stampAt t)) g of (err, out, g) \<Rightarrow>
       if err \<noteq> None \<and> \<not> err_is err ErrReceiptNotWritten then ((None, False, err), g)
       else (case out of None \<Rightarrow> ((None, False, err), g)
         | Some (dev, changed) \<Rightarrow> ((Some dev, changed, err), g))))"

subsection \<open>Reads\<close>

definition ListDevices :: "registry \<Rightarrow> (go_error + device list) \<times> registry" where
  \<comment> \<open>\<open>List\<close>: a stable sort on the creation stamp, then the id\<close>
  "ListDevices g = (case next_io g of (i, g) \<Rightarrow> case load (io_load i) g of Inl e \<Rightarrow> (Inl e, g)
     | Inr f \<Rightarrow> (Inr (sort_key (\<lambda>d. (dv_CreatedAt d, dv_DeviceID d))
                   (map record_device (rf_Devices f))), g))"

record status =
  st_Active :: nat
  st_Pending :: nat
  st_Revoked :: nat
  st_PairingOpen :: bool
  st_NextPairingExpiry :: string
  st_PendingDevices :: "string list"

definition count_device :: "instant \<Rightarrow> status \<Rightarrow> device_record \<Rightarrow> status" where
  "count_device now s r =
     (if dr_State r = DeviceActive then s\<lparr>st_Active := st_Active s + 1\<rparr>
      else if dr_State r = DevicePending then
        (let s = s\<lparr>st_Pending := st_Pending s + 1\<rparr> in
         if dr_PairingExpiresAt r = [] \<or> expired now (dr_PairingExpiresAt r) then s
         else s\<lparr>st_PairingOpen := True,
                st_PendingDevices := st_PendingDevices s @ [dr_DeviceID r],
                st_NextPairingExpiry := (if st_NextPairingExpiry s = []
                   \<or> dr_PairingExpiresAt r < st_NextPairingExpiry s
                   then dr_PairingExpiresAt r else st_NextPairingExpiry s)\<rparr>)
      else if dr_State r = DeviceRevoked then s\<lparr>st_Revoked := st_Revoked s + 1\<rparr>
      else s)"

definition Registry_Status :: "instant \<Rightarrow> registry \<Rightarrow> (go_error + status) \<times> registry" where
  \<comment> \<open>one clock reading stands for the readings \<open>expired\<close> takes, device by device\<close>
  "Registry_Status now g = (case next_io g of (i, g) \<Rightarrow> case load (io_load i) g of Inl e \<Rightarrow> (Inl e, g)
     | Inr f \<Rightarrow> (Inr (foldl (count_device now)
         \<lparr>st_Active = 0, st_Pending = 0, st_Revoked = 0, st_PairingOpen = False,
          st_NextPairingExpiry = [], st_PendingDevices = []\<rparr> (rf_Devices f)), g))"

end
