(* ===== verification/RegistryStore.thy ===== *)
theory RegistryStore
  imports RegistryOps
begin

text \<open>
  What one locked section of the registry does to the disk. \<open>contents\<close> is the file as the
  operations read it. The interface \<open>record_store\<close> is what a reader of the store may rely
  on: an invariant of the file, a preorder in which the file evolves, and a meaning for audit
  rows that later changes keep. \<open>guarded_change\<close> adds a function given to \<open>mutate\<close>
  that keeps to it, and derives that \<open>mutate\<close> does, whatever the filesystem answers.
\<close>

definition empty_file :: registry_file where
  "empty_file = \<lparr>rf_Version = registryFileVersion, rf_Devices = []\<rparr>"

definition contents :: "registry \<Rightarrow> registry_file" where
  "contents g = (case rg_file g of None \<Rightarrow> empty_file | Some (f, _) \<Rightarrow> f)"

lemma contents_cong: "rg_file g = rg_file g' \<Longrightarrow> contents g = contents g'"
  by (simp add: contents_def)

lemma load_contents: "load fault g = Inr f \<Longrightarrow> f = contents g"
  by (auto simp: load_def contents_def empty_file_def split: option.splits if_splits prod.splits)

lemma load_Inr_iff:
  "load fault g = Inr f \<longleftrightarrow> fault = None \<and> f = contents g
     \<and> (\<forall>sz. rg_file g = Some (f, sz) \<longrightarrow> sz \<le> MaxRegistryBytes \<and> rf_Version f \<le> registryFileVersion
          \<and> length (rf_Devices f) \<le> MaxDevices)"
  by (auto simp: load_def contents_def empty_file_def split: option.splits if_splits prod.splits)

definition same_disk :: "registry \<Rightarrow> registry \<Rightarrow> bool" where
  "same_disk g g' \<longleftrightarrow> rg_file g' = rg_file g \<and> rg_rows g' = rg_rows g"

lemma same_disk_refl [simp]: "same_disk g g"
  by (simp add: same_disk_def)

lemma same_disk_trans: "same_disk a b \<Longrightarrow> same_disk b c \<Longrightarrow> same_disk a c"
  by (simp add: same_disk_def)

lemma next_io_disk: "next_io g = (i, g') \<Longrightarrow> same_disk g g' \<and> rg_marks g' = rg_marks g
    \<and> rg_seed g' = rg_seed g \<and> rg_entropy g' = rg_entropy g"
  by (auto simp: next_io_def same_disk_def split: list.splits)

lemma read_full_disk: "read_full n g = (x, g') \<Longrightarrow> same_disk g g' \<and> rg_marks g' = rg_marks g
    \<and> rg_seed g' = rg_seed g \<and> rg_tape g' = rg_tape g"
  by (auto simp: read_full_def same_disk_def split: if_splits)

lemma newSecret_disk: "newSecret n g = (x, g') \<Longrightarrow> same_disk g g' \<and> rg_marks g' = rg_marks g
    \<and> rg_tape g' = rg_tape g"
  by (auto simp: newSecret_def split: prod.splits sum.splits dest!: read_full_disk)

lemma newDeviceID_disk: "newDeviceID t g = (x, g') \<Longrightarrow> same_disk g g' \<and> rg_marks g' = rg_marks g"
  by (auto simp: newDeviceID_def split: prod.splits sum.splits dest!: read_full_disk)

lemma HostFingerprint_disk:
  assumes "HostFingerprint g = (x, g')" shows "same_disk g g' \<and> rg_marks g' = rg_marks g"
proof -
  have "same_disk (g\<lparr>rg_seed := s\<rparr>) h = same_disk g h" "same_disk g (h\<lparr>rg_seed := s\<rparr>) = same_disk g h"
    for g h s by (simp_all add: same_disk_def)
  with assms show ?thesis
    unfolding HostFingerprint_def
    by (auto simp: Let_def split: prod.splits sum.splits option.splits if_splits
        dest!: next_io_disk read_full_disk intro: same_disk_trans)
qed

subsection \<open>One locked section\<close>

lemma write_error_None: "write_error w = None \<longleftrightarrow> w = Written"
  by (cases w) auto

text \<open>
  The errors a filesystem delivers are its own: none of them is the sentinel
  \<open>ErrReceiptNotWritten\<close>, with which the registry says that a change is on disk.
\<close>

definition plain_io :: "io \<Rightarrow> bool" where
  "plain_io i \<longleftrightarrow> list_all (\<lambda>e. \<not> err_is e ErrReceiptNotWritten)
     [io_ensure i, io_lock i, io_load i, io_stat i, write_error (io_write i), write_error (io_audit i),
      io_remove i]"

definition plain_tape :: "registry \<Rightarrow> bool" where
  "plain_tape g \<longleftrightarrow> list_all plain_io (rg_tape g)"

lemma plain_next: "next_io g = (i, g') \<Longrightarrow> plain_tape g \<Longrightarrow> plain_io i"
  by (auto simp: next_io_def plain_tape_def plain_io_def io_ok_def split: list.splits)

lemma load_plain: "plain_io i \<Longrightarrow> load (io_load i) g = Inl x \<Longrightarrow> \<not> errors_is x ErrReceiptNotWritten"
  by (auto simp: load_def plain_io_def split: option.splits prod.splits if_splits)

lemma plain_tape_next: "next_io g = (i, g') \<Longrightarrow> plain_tape g \<Longrightarrow> plain_tape g'"
  by (auto simp: next_io_def plain_tape_def split: list.splits)

lemma mutate_cases:
  assumes "mutate json_size fn g = (e, out, g')"
  obtains (refused) "e \<noteq> None" "out = None" "same_disk g g'"
        "plain_tape g \<Longrightarrow> err_is e ErrReceiptNotWritten \<Longrightarrow> \<exists>x. fn (contents g) = Refuse x \<and> e = Some x"
    | (unchanged) a where "fn (contents g) = NoChange a" "e = None" "out = Some a" "same_disk g g'"
    | (unwritten) f row a where "fn (contents g) = Change f row a" "e \<noteq> None" "out = Some a"
        "same_disk g g'" "plain_tape g \<Longrightarrow> \<not> err_is e ErrReceiptNotWritten"
    | (written) f row a where "fn (contents g) = Change f row a" "out = Some a"
        "rg_file g' = Some (f\<lparr>rf_Version := registryFileVersion\<rparr>,
           json_size (f\<lparr>rf_Version := registryFileVersion\<rparr>))"
        "json_size (f\<lparr>rf_Version := registryFileVersion\<rparr>) \<le> MaxRegistryBytes"
        "rg_rows g' = rg_rows g \<and> (e = None \<longrightarrow> au_Event row = [])
          \<or> rg_rows g' = rg_rows g @ [row] \<and> au_Event row \<noteq> []"
proof -
  obtain i g1 where n: "next_io g = (i, g1)" by force
  have d: "same_disk g g1" and c: "contents g1 = contents g"
    using next_io_disk [OF n] by (auto simp: same_disk_def intro: contents_cong)
  show thesis
  proof (cases "io_ensure i \<noteq> None \<or> io_lock i \<noteq> None \<or> isl (load (io_load i) g1)")
    case True
    have "\<exists>x. mutate json_size fn g = (Some x, None, g1) \<and>
        (plain_io i \<longrightarrow> \<not> errors_is x ErrReceiptNotWritten)"
    proof (cases "io_ensure i")
      case (Some x)
      then show ?thesis using n by (simp add: mutate_def plain_io_def)
    next
      case ensure: None
      show ?thesis
      proof (cases "io_lock i")
        case (Some x)
        then show ?thesis using n ensure by (simp add: mutate_def plain_io_def)
      next
        case lock: None
        with True ensure obtain x where x: "load (io_load i) g1 = Inl x"
          by (auto simp: isl_def)
        then show ?thesis using n ensure lock load_plain [OF _ x] by (simp add: mutate_def)
      qed
    qed
    then have "e \<noteq> None" "out = None" "g' = g1" "plain_io i \<Longrightarrow> \<not> err_is e ErrReceiptNotWritten"
      using assms by auto
    then show ?thesis using d plain_next [OF n] by (intro refused) simp_all
  next
    case False
    then obtain f where Inr: "load (io_load i) g1 = Inr f"
      by (cases "load (io_load i) g1") auto
    note f = load_contents [OF Inr, unfolded c]
    from False have m: "mutate json_size fn g = (case fn (contents g) of
          Refuse e \<Rightarrow> (Some e, None, g1)
        | NoChange a \<Rightarrow> (None, Some a, g1)
        | Change f' row a \<Rightarrow> (case commit_file json_size i f' row g1 of (e, g) \<Rightarrow> (e, Some a, g)))"
      using n Inr f by (simp add: mutate_def)
    show ?thesis
    proof (cases "fn (contents g)")
      case (Change f' row a)
      then have cf: "commit_file json_size i f' row g1 = (e, g')" and out: "out = Some a"
        using assms m by (auto split: prod.splits)
      show ?thesis
      proof (cases "MaxRegistryBytes < json_size (f'\<lparr>rf_Version := registryFileVersion\<rparr>) \<or> \<not> landed (io_write i)")
        case True
        then have "e \<noteq> None \<and> g' = g1 \<and> (plain_io i \<longrightarrow> \<not> err_is e ErrReceiptNotWritten)"
          using cf by (cases "io_write i") (auto simp: commit_file_def Let_def plain_io_def split: if_splits)
        then show ?thesis using unwritten [OF Change] d out plain_next [OF n] by blast
      next
        case False
        have "rg_rows g1 = rg_rows g" using d by (simp add: same_disk_def)
        then show ?thesis using False cf out
          by (intro written [OF Change])
            (cases "io_write i"; cases "io_audit i";
              auto simp: commit_file_def Let_def split: if_splits)+
      qed
    qed (use assms m d in \<open>auto intro: refused unchanged\<close>)
  qed
qed

lemma mutate_works:
  assumes "load None g = Inr f" "rg_tape g = []"
    and "\<And>f' row a. fn f = Change f' row a \<Longrightarrow>
          json_size (f'\<lparr>rf_Version := registryFileVersion\<rparr>) \<le> MaxRegistryBytes"
  shows "mutate json_size fn g = (case fn f of
      Refuse e \<Rightarrow> (Some e, None, g)
    | NoChange a \<Rightarrow> (None, Some a, g)
    | Change f' row a \<Rightarrow> (None, Some a, g\<lparr>
        rg_file := Some (f'\<lparr>rf_Version := registryFileVersion\<rparr>, json_size (f'\<lparr>rf_Version := registryFileVersion\<rparr>)),
        rg_rows := rg_rows g @ (if au_Event row = [] then [] else [row])\<rparr>))"
  using assms
  by (auto simp: mutate_def next_io_def io_ok_def commit_file_def Let_def leD split: verdict.splits)

definition same_sides :: "registry \<Rightarrow> registry \<Rightarrow> bool" where
  "same_sides g g' \<longleftrightarrow> rg_marks g' = rg_marks g \<and> rg_seed g' = rg_seed g \<and> rg_entropy g' = rg_entropy g"

lemma commit_file_frame: "commit_file json_size i f row g = (e, g') \<Longrightarrow> same_sides g g'"
  by (simp add: same_sides_def commit_file_def Let_def split: option.splits if_splits) auto

lemma mutate_frame:
  assumes "mutate json_size fn g = (e, out, g')" shows "same_sides g g'"
proof -
  obtain i g1 where n: "next_io g = (i, g1)" by force
  then have s: "same_sides g g1" using next_io_disk by (simp add: same_sides_def)
  then have c: "same_sides g g2" if "commit_file json_size i f row g1 = (x, g2)" for f row x g2
    using commit_file_frame [OF that] by (simp add: same_sides_def)
  show ?thesis using assms s unfolding mutate_def n prod.case
    by (auto split: option.splits sum.splits verdict.splits prod.splits dest: c)
qed

subsection \<open>The interface of the store\<close>

locale record_store =
  fixes inv :: "registry_file \<Rightarrow> bool"
    and rel :: "registry_file \<Rightarrow> registry_file \<Rightarrow> bool"
    and meaning :: "audit_row \<Rightarrow> registry_file \<Rightarrow> bool"
  assumes inv_empty: "inv empty_file"
    and inv_version: "inv f \<Longrightarrow> inv (f\<lparr>rf_Version := registryFileVersion\<rparr>)"
    and rel_refl: "rel f f"
    and rel_trans: "rel f1 f2 \<Longrightarrow> rel f2 f3 \<Longrightarrow> rel f1 f3"
    and rel_version: "rel f (f\<lparr>rf_Version := registryFileVersion\<rparr>)"
    and meaning_mono: "inv f \<Longrightarrow> meaning row f \<Longrightarrow> rel f f' \<Longrightarrow> meaning row f'"
begin

definition kept :: "registry \<Rightarrow> bool" where
  "kept g \<longleftrightarrow> inv (contents g) \<and> (\<forall>f sz. rg_file g = Some (f, sz) \<longrightarrow> sz \<le> MaxRegistryBytes)
     \<and> (\<forall>row \<in> set (rg_rows g). meaning row (contents g))"

definition evolved :: "registry \<Rightarrow> registry \<Rightarrow> bool" where
  "evolved g g' \<longleftrightarrow> rel (contents g) (contents g') \<and> (\<exists>rows. rg_rows g' = rg_rows g @ rows)"

lemma evolved_refl: "evolved g g"
  by (simp add: evolved_def rel_refl)

lemma evolved_trans: "evolved a b \<Longrightarrow> evolved b c \<Longrightarrow> evolved a c"
  using rel_trans by (auto simp: evolved_def)

lemma same_disk_kept: "same_disk g g' \<Longrightarrow> kept g \<Longrightarrow> kept g' \<and> evolved g g'"
  using contents_cong [of g' g] by (simp add: same_disk_def kept_def evolved_def rel_refl)

lemma kept_read: "kept g \<Longrightarrow> load fault g = Inr f \<Longrightarrow> inv f"
  using load_contents by (auto simp: kept_def)

end

locale guarded_change = record_store +
  fixes ok :: "'b \<Rightarrow> bool" and fn :: "'b \<Rightarrow> registry_file \<Rightarrow> 'a verdict"
  assumes change: "ok b \<Longrightarrow> inv f \<Longrightarrow> fn b f = Change f' row a \<Longrightarrow>
      inv f' \<and> rel f f' \<and> (au_Event row \<noteq> [] \<longrightarrow> meaning row f')"
begin

lemma mutate_kept:
  assumes "ok b" "kept g" "mutate json_size (fn b) g = (e, out, g')"
  shows "kept g' \<and> evolved g g'"
  using assms(3)
proof (cases rule: mutate_cases)
  case (written f row a)
  let ?f = "f\<lparr>rf_Version := registryFileVersion\<rparr>"
  have inv: "inv (contents g)" and rows: "\<And>r. r \<in> set (rg_rows g) \<Longrightarrow> meaning r (contents g)"
    using assms(2) by (auto simp: kept_def)
  note c = change [OF assms(1) inv written(1)]
  have r: "rel (contents g) ?f" using c rel_trans rel_version by blast
  have f: "contents g' = ?f" using written(3) by (simp add: contents_def)
  have m: "au_Event row \<noteq> [] \<Longrightarrow> meaning row ?f" using c meaning_mono rel_version by blast
  show ?thesis unfolding kept_def evolved_def f
    using c m r rows meaning_mono [OF inv _ r] inv_version written(3,4,5) by auto
qed (use assms(2) same_disk_kept in blast)+

end
end
