(* ===== verification/RegistryProofs.thy ===== *)
theory RegistryProofs
  imports RegistryStore
begin

text \<open>
  The contract of the device registry and its refinement by the operations: the file stays
  well formed and small enough to be read again, a device only ever moves forward through its
  states, and an audit row never claims what the file does not show.
\<close>

subsection \<open>The contract\<close>

definition state_rank :: "string \<Rightarrow> nat" where
  "state_rank s = (if s = DevicePending then 0 else if s = DeviceActive then 1 else 2)"

definition record_ok :: "device_record \<Rightarrow> bool" where
  "record_ok r \<longleftrightarrow> Device_Validate (record_device r) = None \<and> 0 \<le> dr_PairingAttempts r
     \<and> validateOptionalTimestamp ''expires_at'' (dr_PairingExpiresAt r) = None
     \<and> (dr_State r \<noteq> DevicePending \<longrightarrow> dr_PairingCodeFingerprint r = [] \<and> dr_PairingExpiresAt r = [])"

definition registry_ok :: "registry_file \<Rightarrow> bool" where
  "registry_ok f \<longleftrightarrow> rf_Version f \<le> registryFileVersion \<and> length (rf_Devices f) \<le> MaxDevices
     \<and> distinct (map dr_DeviceID (rf_Devices f)) \<and> list_all record_ok (rf_Devices f)"

definition sticky :: "string \<Rightarrow> string \<Rightarrow> bool" where
  \<comment> \<open>once set, never changed\<close>
  "sticky x y \<longleftrightarrow> x = [] \<or> y = x"

definition advances :: "device_record \<Rightarrow> device_record \<Rightarrow> bool" where
  "advances r r' \<longleftrightarrow> dr_DeviceID r' = dr_DeviceID r \<and> dr_CreatedAt r' = dr_CreatedAt r
     \<and> state_rank (dr_State r) \<le> state_rank (dr_State r')
     \<and> (dr_State r = DeviceRevoked \<longrightarrow> dr_State r' = DeviceRevoked)
     \<and> dr_PairingAttempts r \<le> dr_PairingAttempts r'
     \<and> sticky (dr_PairingCodeFingerprint r') (dr_PairingCodeFingerprint r)
     \<and> sticky (dr_TokenFingerprint r) (dr_TokenFingerprint r')
     \<and> sticky (dr_RevokedAt r) (dr_RevokedAt r')
     \<and> (dr_State r \<noteq> DevicePending \<longrightarrow> dr_State r' \<noteq> DevicePending \<and> dr_Label r' = dr_Label r
          \<and> dr_Platform r' = dr_Platform r \<and> dr_PublicKey r' = dr_PublicKey r)"

definition evolves :: "registry_file \<Rightarrow> registry_file \<Rightarrow> bool" where
  "evolves f f' \<longleftrightarrow> (\<forall>r \<in> set (rf_Devices f). \<exists>r' \<in> set (rf_Devices f'). advances r r')"

definition row_shows :: "audit_row \<Rightarrow> device_record \<Rightarrow> bool" where
  "row_shows row r \<longleftrightarrow> dr_DeviceID r = au_DeviceID row \<and>
     (if au_Event row = ''paired'' then True
      else if au_Event row = ''expired'' then dr_PairingCodeFingerprint r = []
      else if au_Event row = ''confirmed'' then 1 \<le> state_rank (dr_State r)
      else if au_Event row = ''revoked''
        then dr_State r = DeviceRevoked \<and> dr_RevokedAt r = au_At row
      else False)"

definition row_meaning :: "audit_row \<Rightarrow> registry_file \<Rightarrow> bool" where
  "row_meaning row f \<longleftrightarrow> list_ex (row_shows row) (rf_Devices f)"

lemma row_meaningI: "r \<in> set (rf_Devices f) \<Longrightarrow> row_shows row r \<Longrightarrow> row_meaning row f"
  by (auto simp: row_meaning_def list_ex_iff)

subsection \<open>Records by id\<close>

lemma find_device_in: "find_device k rs = Some r \<Longrightarrow> r \<in> set rs \<and> dr_DeviceID r = k"
  by (induction k rs rule: find_device.induct) (auto split: if_splits)

lemma find_device_None: "find_device k rs = None \<longleftrightarrow> k \<notin> dr_DeviceID ` set rs"
  by (induction k rs rule: find_device.induct) auto

lemma find_device_iff: "distinct (map dr_DeviceID rs) \<Longrightarrow>
    find_device k rs = Some r \<longleftrightarrow> r \<in> set rs \<and> dr_DeviceID r = k"
  by (induction k rs rule: find_device.induct) (auto simp: image_iff)

lemma update_device_map: "distinct (map dr_DeviceID rs) \<Longrightarrow>
    update_device k u rs = map (\<lambda>r. if dr_DeviceID r = k then u r else r) rs"
  by (induction k u rs rule: update_device.induct) (auto simp: image_iff intro!: map_idI [symmetric])

lemma sticky_refl [simp]: "sticky x x"
  by (simp add: sticky_def)

lemma sticky_trans: "sticky x y \<Longrightarrow> sticky y z \<Longrightarrow> sticky x z"
  by (auto simp: sticky_def)

lemma advances_refl [simp]: "advances r r"
  by (simp add: advances_def)

lemma advances_trans:
  assumes ab: "advances a b" and bc: "advances b c" shows "advances a c"
proof -
  have "sticky (dr_PairingCodeFingerprint c) (dr_PairingCodeFingerprint a)"
    "sticky (dr_TokenFingerprint a) (dr_TokenFingerprint c)" "sticky (dr_RevokedAt a) (dr_RevokedAt c)"
    using ab bc sticky_trans unfolding advances_def by blast+
  with ab bc show ?thesis by (simp add: advances_def)
qed

lemma evolves_refl [simp]: "evolves f f"
  by (auto simp: evolves_def intro: advances_refl)

lemma evolves_trans: "evolves f1 f2 \<Longrightarrow> evolves f2 f3 \<Longrightarrow> evolves f1 f3"
  unfolding evolves_def using advances_trans by metis

lemma validateOptionalTimestamp_Nil [simp]: "validateOptionalTimestamp f [] = None"
  by (simp add: validateOptionalTimestamp_def)

lemma record_ok_valid: "record_ok r \<Longrightarrow> Device_Validate (record_device r) = None"
  by (simp add: record_ok_def)

lemma Device_Validate_None:
  "Device_Validate (record_device r) = None \<longleftrightarrow>
     validateID ''device_id'' PrefixDevice (dr_DeviceID r) = None
   \<and> validateText ''label'' (dr_Label r) MaxLabelBytes True = None
   \<and> dr_Platform r \<in> set (vocabulary ''platform'')
   \<and> dr_State r \<in> set (vocabulary ''device_state'')
   \<and> validateOptionalFingerprint ''token_fingerprint'' (dr_TokenFingerprint r) = None
   \<and> validateTimestamp ''created_at'' (dr_CreatedAt r) = None
   \<and> validateOptionalTimestamp ''last_seen_at'' (dr_LastSeenAt r) = None
   \<and> validateOptionalTimestamp ''revoked_at'' (dr_RevokedAt r) = None
   \<and> (dr_State r = DeviceRevoked \<longleftrightarrow> dr_RevokedAt r \<noteq> [])
   \<and> (dr_State r = DevicePending \<longrightarrow> dr_TokenFingerprint r = [])
   \<and> (dr_State r = DeviceActive \<longrightarrow> dr_TokenFingerprint r \<noteq> [])"
  by (auto simp: Device_Validate_def record_device_def header_validate_def device_state_rules_def
      vocabulary_def)

lemma device_states: "set (vocabulary ''device_state'') = {DevicePending, DeviceActive, DeviceRevoked}"
  by (simp add: vocabulary_def)

lemma record_ok_state: "record_ok r \<Longrightarrow> dr_State r \<in> {DevicePending, DeviceActive, DeviceRevoked}"
  using device_states by (auto simp: record_ok_def Device_Validate_None)

lemma update_contract:
  assumes ok: "registry_ok f" and k: "find_device k (rf_Devices f) = Some r"
    and new: "record_ok (u r)" "advances r (u r)"
  defines "f' \<equiv> f\<lparr>rf_Devices := update_device k u (rf_Devices f)\<rparr>"
  shows "registry_ok f' \<and> evolves f f' \<and> u r \<in> set (rf_Devices f')
    \<and> (\<forall>row. row_shows row (u r) \<longrightarrow> row_meaning row f')"
proof -
  define v where "v = (\<lambda>r. if dr_DeviceID r = k then u r else r)"
  have d: "distinct (map dr_DeviceID (rf_Devices f))" using ok by (simp add: registry_ok_def)
  have r: "r' = r" if "r' \<in> set (rf_Devices f)" "dr_DeviceID r' = k" for r'
    using that k by (metis find_device_iff [OF d] option.inject)
  have f': "rf_Devices f' = map v (rf_Devices f)" "rf_Version f' = rf_Version f"
    using d by (simp_all add: f'_def v_def update_device_map)
  have adv: "advances r' (v r') \<and> record_ok (v r')" if "r' \<in> set (rf_Devices f)" for r'
    using r [OF that] new ok that by (auto simp: v_def registry_ok_def list_all_iff)
  have "map dr_DeviceID (map v (rf_Devices f)) = map dr_DeviceID (rf_Devices f)"
    using adv by (simp add: advances_def)
  then have "registry_ok f'" using ok d adv
    by (simp add: registry_ok_def f' list_all_iff del: map_map)
  moreover have "evolves f f'" using adv by (auto simp: evolves_def f')
  moreover have "u r \<in> set (rf_Devices f')"
    using find_device_in [OF k] by (auto simp: f' v_def image_iff)
  ultimately show ?thesis using row_meaningI by blast
qed

lemma append_contract:
  assumes "registry_ok f" "record_ok r" "find_device (dr_DeviceID r) (rf_Devices f) = None"
    "length (rf_Devices f) < MaxDevices"
  shows "registry_ok (f\<lparr>rf_Devices := rf_Devices f @ [r]\<rparr>)
    \<and> evolves f (f\<lparr>rf_Devices := rf_Devices f @ [r]\<rparr>)"
  using assms by (auto simp: registry_ok_def evolves_def find_device_None intro: advances_refl)

lemma row_meaning_mono:
  assumes ok: "registry_ok f" and m: "row_meaning row f" and e: "evolves f f'"
  shows "row_meaning row f'"
proof -
  from m obtain r where r: "r \<in> set (rf_Devices f)" and p: "row_shows row r"
    unfolding row_meaning_def list_ex_iff by blast
  from e r obtain r' where r': "r' \<in> set (rf_Devices f')" and a: "advances r r'"
    unfolding evolves_def by blast
  have "dr_State r = DeviceRevoked \<Longrightarrow> dr_RevokedAt r \<noteq> []"
    using ok r by (auto simp: registry_ok_def list_all_iff record_ok_def Device_Validate_None)
  then have "row_shows row r'"
    using a p by (auto simp: row_shows_def advances_def sticky_def split: if_splits)
  with r' show ?thesis by (rule row_meaningI)
qed

interpretation devices: record_store registry_ok evolves row_meaning
proof
  show "registry_ok empty_file" by (simp add: registry_ok_def empty_file_def)
  show "registry_ok (f\<lparr>rf_Version := registryFileVersion\<rparr>)" if "registry_ok f" for f
    using that by (simp add: registry_ok_def)
  show "evolves f (f\<lparr>rf_Version := registryFileVersion\<rparr>)" for f
    by (auto simp: evolves_def intro: advances_refl)
qed (auto intro: row_meaning_mono elim: evolves_trans)

subsection \<open>Each verdict keeps to the contract\<close>

definition pairable :: "device_record \<times> string \<Rightarrow> bool" where
  "pairable p \<longleftrightarrow> record_ok (fst p)"

definition stamp_ok :: "string \<times> string \<Rightarrow> bool" where
  "stamp_ok p \<longleftrightarrow> validateTimestamp ''last_seen_at'' (snd p) = None"

lemma evolves_members: "evolves f f' \<Longrightarrow> r \<in> set (rf_Devices f) \<Longrightarrow>
    \<exists>r' \<in> set (rf_Devices f'). advances r r'"
  by (auto simp: evolves_def)

interpretation pairing: guarded_change registry_ok evolves row_meaning pairable
  "\<lambda>(rec, now). pair_verdict rec now"
proof
  fix b f f' row and a :: unit
  assume "pairable b" "registry_ok f" and v: "(case b of (rec, now) \<Rightarrow> pair_verdict rec now) f = Change f' row a"
  then show "registry_ok f' \<and> evolves f f' \<and> (au_Event row \<noteq> [] \<longrightarrow> row_meaning row f')"
    using append_contract [of f "fst b"]
    by (cases b) (auto simp: pairable_def pair_verdict_def row_shows_def intro: row_meaningI split: if_splits)
qed

interpretation confirming: guarded_change registry_ok evolves row_meaning "\<lambda>_. True"
  "\<lambda>(token, c, now, t2). confirm_verdict token c now t2"
proof
  fix b f f' row and a :: "device option \<times> bool"
  assume ok: "registry_ok f"
    and v: "(case b of (token, c, now, t2) \<Rightarrow> confirm_verdict token c now t2) f = Change f' row a"
  obtain token c now t2 where b: "b = (token, c, now, t2)" by (cases b)
  from v obtain r where k: "find_device (pc_DeviceID c) (rf_Devices f) = Some r"
    and live: "dr_State r = DevicePending"
    by (auto simp: b confirm_verdict_def split: option.splits if_splits)
  note r = find_device_in [OF k]
  have rok: "record_ok r" using ok r by (simp add: registry_ok_def list_all_iff)
  have row: "row_shows \<lparr>au_Event = ''expired'', au_DeviceID = pc_DeviceID c, au_At = now\<rparr>
      (r\<lparr>dr_PairingCodeFingerprint := []\<rparr>)"
    "row_shows \<lparr>au_Event = ''confirmed'', au_DeviceID = pc_DeviceID c, au_At = now\<rparr> (activate token c r)"
    using r by (simp_all add: row_shows_def activate_def state_rank_def)
  let ?burn = "\<lambda>r :: device_record. r\<lparr>dr_PairingCodeFingerprint := []\<rparr>"
  have burn: "record_ok (?burn r)" "advances r (?burn r)"
    using rok live by (simp_all add: record_ok_def record_device_def advances_def sticky_def)
  have act: "record_ok (activate token c r)" "advances r (activate token c r)"
    if "Device_Validate (record_device (activate token c r)) = None"
    using rok live that by (simp_all add: record_ok_def advances_def sticky_def activate_def state_rank_def
        Device_Validate_None)
  show "registry_ok f' \<and> evolves f f' \<and> (au_Event row \<noteq> [] \<longrightarrow> row_meaning row f')"
    using v k r update_contract [where u = ?burn, OF ok k burn]
      update_contract [where u = "activate token c", OF ok k act]
    by (auto simp: b confirm_verdict_def Let_def intro: row split: if_splits option.splits)
qed

interpretation failing: guarded_change registry_ok evolves row_meaning "\<lambda>_. True" failure_verdict
proof
  fix b f f' row a
  assume ok: "registry_ok f" and v: "failure_verdict b f = Change f' row a"
  from v obtain r where k: "find_device b (rf_Devices f) = Some r"
    by (auto simp: failure_verdict_def split: option.splits)
  have "record_ok r" using ok find_device_in [OF k] by (simp add: registry_ok_def list_all_iff)
  then show "registry_ok f' \<and> evolves f f' \<and> (au_Event row \<noteq> [] \<longrightarrow> row_meaning row f')"
    using v k update_contract [OF ok k, of "\<lambda>r. r\<lparr>dr_PairingAttempts := dr_PairingAttempts r + 1\<rparr>"]
    by (auto simp: failure_verdict_def record_ok_def record_device_def advances_def sticky_def no_row_def
        split: if_splits)
qed

interpretation seeing: guarded_change registry_ok evolves row_meaning stamp_ok
  "\<lambda>(did, now). seen_verdict did now"
proof
  fix b f f' row and a :: unit
  assume st: "stamp_ok b" and ok: "registry_ok f"
    and v: "(case b of (did, now) \<Rightarrow> seen_verdict did now) f = Change f' row a"
  obtain did now where b: "b = (did, now)" by (cases b)
  from v obtain r where k: "find_device did (rf_Devices f) = Some r"
    by (auto simp: b seen_verdict_def split: option.splits)
  have "record_ok r" using ok find_device_in [OF k] by (simp add: registry_ok_def list_all_iff)
  then show "registry_ok f' \<and> evolves f f' \<and> (au_Event row \<noteq> [] \<longrightarrow> row_meaning row f')"
    using v k st update_contract [OF ok k, of "\<lambda>r. r\<lparr>dr_LastSeenAt := now\<rparr>"]
    by (auto simp: b seen_verdict_def stamp_ok_def record_ok_def Device_Validate_None advances_def sticky_def
        no_row_def validateOptionalTimestamp_def split: if_splits)
qed

interpretation revoking: guarded_change registry_ok evolves row_meaning "\<lambda>_. True"
  "\<lambda>(did, now). revoke_verdict did now"
proof
  fix b f f' row and a :: "device \<times> bool"
  assume ok: "registry_ok f" and v: "(case b of (did, now) \<Rightarrow> revoke_verdict did now) f = Change f' row a"
  obtain did now where b: "b = (did, now)" by (cases b)
  from v obtain r where k: "find_device did (rf_Devices f) = Some r"
    and s: "dr_State r \<noteq> DeviceRevoked"
    by (auto simp: b revoke_verdict_def split: option.splits if_splits)
  note r = find_device_in [OF k]
  have rok: "record_ok r" using ok r by (simp add: registry_ok_def list_all_iff)
  have row: "row_shows \<lparr>au_Event = ''revoked'', au_DeviceID = did, au_At = now\<rparr> (retire now r)"
    using r by (simp add: row_shows_def retire_def)
  have new: "record_ok (retire now r)" "advances r (retire now r)"
    if "Device_Validate (record_device (retire now r)) = None"
    using rok s that
    by (simp_all add: record_ok_def advances_def sticky_def retire_def state_rank_def Device_Validate_None)
  show "registry_ok f' \<and> evolves f f' \<and> (au_Event row \<noteq> [] \<longrightarrow> row_meaning row f')"
    using v k r s update_contract [where u = "retire now", OF ok k new]
    by (auto simp: b revoke_verdict_def Let_def intro: row split: if_splits option.splits)
qed

end
