(* ===== verification/TimeFacts.thy ===== *)
theory TimeFacts
  imports Schema
begin

text \<open>
  Facts about stamps the components share: which strings the validator accepts, and that the
  order of two stamps as strings, in which the registry sorts and compares them, is the order
  of the instants.
\<close>

subsection \<open>The stamps the validator accepts\<close>

lemma show_nat_digits: "list_all is_digit (show_nat n)"
  by (induction n rule: show_nat.induct) (subst show_nat.simps, simp)

lemma length_show_nat: "10 ^ k \<le> n \<Longrightarrow> k < length (show_nat n)"
proof (induction n arbitrary: k rule: show_nat.induct)
  case (1 n)
  show ?case
  proof (cases k)
    case 0
    then show ?thesis by (subst show_nat.simps) simp
  next
    case (Suc j)
    then have "10 * 10 ^ j \<le> n" using 1(2) by simp
    then have "10 ^ j \<le> n div 10" "\<not> n < 10"
      using one_le_power [of "10::nat" j] by linarith+
    then show ?thesis using 1(1) Suc by (subst show_nat.simps) simp
  qed
qed

lemma parse_needs_year:
  assumes "parse_rfc3339 (format_year y @ r) = Some u" "r \<noteq> []"
  shows "0 \<le> y \<and> y < 10000"
proof (rule ccontr)
  assume "\<not> (0 \<le> y \<and> y < 10000)"
  then consider "y < 0" | "10000 \<le> nat y" "0 \<le> y" by linarith
  then show False
  proof cases
    case 1
    then show ?thesis using assms
      by (auto simp: format_year_def parse_rfc3339_def getyear_def is_digit_def byte_def
          split: list.splits bind_splits if_splits)
  next
    case 2
    have "4 < length (show_nat (nat y))" using 2 by (intro length_show_nat) simp
    then obtain a b c d e s where s: "show_nat (nat y) = a # b # c # d # e # s"
      by (auto simp: neq_Nil_conv Suc_less_eq2 numeral_eq_Suc length_Suc_conv less_Suc_eq_le
          dest!: Suc_le_D)
    then have "is_digit e" using show_nat_digits [of "nat y"] by simp
    then have "e \<noteq> CHR ''-''" by (auto simp: is_digit_def byte_def)
    then show ?thesis using assms 2 s
      by (simp add: format_year_def four_def parse_rfc3339_def getyear_def expect_def
          split: if_splits)
  qed
qed

lemma parse_format_years:
  assumes "parse_rfc3339 (format_rfc3339 t) = Some u" shows "in_years t"
proof -
  obtain y m d where c: "civil_of_days (t div second div 86400) = (y, m, d)" by (metis prod_cases3)
  then show ?thesis using assms parse_needs_year
    by (fastforce simp: format_rfc3339_def Let_def in_years_def)
qed

lemma validateTimestamp_stamp [simp]:
  "in_years t \<Longrightarrow> validateTimestamp f (format_rfc3339 t) = None"
  using format_ends_Z [of t] by (simp add: validateTimestamp_def parse_format)

lemma validateTimestamp_None:
  "validateTimestamp f s = None \<longleftrightarrow> (\<exists>t. in_years t \<and> truncate_second t = t \<and> s = format_rfc3339 t)"
    (is "?l \<longleftrightarrow> ?r")
proof
  assume ?l
  then obtain t where p: "parse_rfc3339 s = Some t" and s: "format_rfc3339 t = s"
    by (auto simp: validateTimestamp_def split: option.splits if_splits)
  then have y: "in_years t" using parse_format_years by blast
  then have "truncate_second t = t" using p s parse_format by fastforce
  with y s show ?r by blast
next
  assume ?r
  then show ?l by auto
qed

subsection \<open>The order of stamps\<close>

lemma append_less: "length xs = length xs' \<Longrightarrow>
    (xs @ ys < xs' @ ys') \<longleftrightarrow> xs < xs' \<or> xs = xs' \<and> ys < (ys' :: 'a :: linorder list)"
  by (induction xs xs' rule: list_induct2) auto

lemma digit_char_less: "n < 10 \<Longrightarrow> m < 10 \<Longrightarrow> digit_char n < digit_char m \<longleftrightarrow> n < m"
  by (simp add: digit_char_def less_char_def)

lemma digit_char_eq: "n < 10 \<Longrightarrow> m < 10 \<Longrightarrow> digit_char n = digit_char m \<longleftrightarrow> n = m"
  using digit_val_char by metis

lemma div_mod_less:
  fixes n m k :: nat
  assumes "0 < k" shows "n < m \<longleftrightarrow> n div k < m div k \<or> n div k = m div k \<and> n mod k < m mod k"
proof -
  have "n div k \<le> m div k" if "n < m" using that by (intro div_le_mono) simp
  moreover have "n < m" if "n div k < m div k" using that assms by (metis div_le_mono leD leI)
  moreover have "n < m \<longleftrightarrow> n mod k < m mod k" if "n div k = m div k"
    using that mult_div_mod_eq [of k n] mult_div_mod_eq [of k m] by (metis nat_add_left_cancel_less)
  ultimately show ?thesis by linarith
qed

lemma length_two [simp]: "length (two n) = 2"
  by (simp add: two_def)

lemma two_less: "n < 100 \<Longrightarrow> m < 100 \<Longrightarrow> two n < two m \<longleftrightarrow> n < m"
  unfolding div_mod_less [of 10 n m, simplified] by (auto simp: two_def digit_char_less digit_char_eq)

lemma two_eq: "n < 100 \<Longrightarrow> m < 100 \<Longrightarrow> two n = two m \<longleftrightarrow> n = m"
  using two_less [of n m] two_less [of m n] by (metis less_irrefl linorder_neqE_nat)

lemma four_twos: "n < 10000 \<Longrightarrow> four n = two (n div 100) @ two (n mod 100)"
  by (simp add: four_def two_def div_mult2_eq [symmetric] mod_mult2_eq [of n 10 10, simplified])

lemma length_four [simp]: "n < 10000 \<Longrightarrow> length (four n) = 4"
  by (simp add: four_def)

lemma four_less:
  assumes "n < 10000" "m < 10000" shows "four n < four m \<longleftrightarrow> n < m"
  unfolding div_mod_less [of 100 n m, simplified] four_twos [OF assms(1)] four_twos [OF assms(2)]
  using assms by (subst append_less) (simp_all add: two_less two_eq)

lemma four_eq: "n < 10000 \<Longrightarrow> m < 10000 \<Longrightarrow> four n = four m \<longleftrightarrow> n = m"
  using four_less [of n m] four_less [of m n] by (metis less_irrefl linorder_neqE_nat)

lemma year_of_day_mono: "n \<le> n' \<Longrightarrow> year_of_day n \<le> year_of_day n'"
  using year_of_day_bounds [of n] year_of_day_bounds [of n']
    year_start_mono [of "year_of_day n'" "year_of_day n"] by linarith

lemma month_start_step:
  assumes "1 \<le> m" "m \<le> 11"
  shows "month_start lp m + month_len lp m = month_start lp (m + 1)"
proof -
  have "m \<in> set [1..11]" using assms by simp
  then show ?thesis by (auto simp: upto.simps month_start_def month_len_def)
qed

lemma month_start_less:
  assumes "1 \<le> a" "a < b" "b \<le> 12"
  shows "month_start lp a + month_len lp a \<le> month_start lp b"
  using assms(2,3)
proof (induction b rule: int_gr_induct)
  case base
  then show ?case using month_start_step [of a lp] assms(1) by simp
next
  case (step i)
  moreover have "0 \<le> month_len lp i" by (simp add: month_len_def)
  ultimately show ?case using month_start_step [of i lp] assms(1) by linarith
qed

lemma civil_less:
  assumes "z < z'" and c: "civil_of_days z = (y, m, d)" and c': "civil_of_days z' = (y', m', d')"
  shows "y < y' \<or> y = y' \<and> (m < m' \<or> m = m' \<and> d < d')"
proof -
  note v = civil_of_days_correct [OF c] and v' = civil_of_days_correct [OF c']
  have "y \<le> y'" using assms year_of_day_mono [of "z + 719528" "z' + 719528"]
    by (auto simp: civil_of_days_def Let_def)
  moreover have "m \<le> m'" if "y = y'"
  proof (rule ccontr)
    assume "\<not> m \<le> m'"
    then have "month_start (leap y) m' + month_len (leap y) m' \<le> month_start (leap y) m"
      using v v' by (intro month_start_less) (simp_all add: valid_date_def)
    then show False using v v' that assms(1) by (simp add: valid_date_def days_of_civil_def days_in_def)
  qed
  moreover have "d < d'" if "y = y'" "m = m'"
    using that v v' assms(1) by (simp add: days_of_civil_def)
  ultimately show ?thesis by linarith
qed

lemma valid_date_bounds: "valid_date y m d \<Longrightarrow> 0 \<le> m \<and> nat m < 100 \<and> 0 \<le> d \<and> nat d < 100"
  by (auto simp: valid_date_def days_in_def month_len_def split: if_splits)

lemma same_div_mod: "(a::int) div k = b div k \<Longrightarrow> a < b \<Longrightarrow> a mod k < b mod k"
  by (metis mult_div_mod_eq add_less_cancel_left)

lemma field_less:
  fixes xs xs' r r' :: string
  assumes "length xs = length xs'"
  shows "(xs @ c # r < xs' @ c # r') \<longleftrightarrow> xs < xs' \<or> xs = xs' \<and> r < r'"
  using assms by (simp add: append_less)

lemma fields_less:
  assumes "y < 10000" "y' < 10000" "m < 100" "m' < 100" "d < 100" "d' < 100" "h < 100" "h' < 100"
    "i < 100" "i' < 100" "s < 100" "s' < 100"
  shows "(four y @ c1 # two m @ c2 # two d @ c3 # two h @ c4 # two i @ c5 # two s @ z
      < four y' @ c1 # two m' @ c2 # two d' @ c3 # two h' @ c4 # two i' @ c5 # two s' @ z)
    \<longleftrightarrow> y < y' \<or> y = y' \<and> (m < m' \<or> m = m' \<and> (d < d' \<or> d = d' \<and> (h < h' \<or> h = h' \<and>
        (i < i' \<or> i = i' \<and> s < s'))))"
proof -
  have l: "length (four y) = length (four y')" "length (two n) = length (two n')" for n n'
    using assms by simp_all
  have "(two s @ z < two s' @ z) \<longleftrightarrow> s < s'" using assms by (simp add: append_less two_less)
  then show ?thesis
    by (simp only: field_less [OF l(1)] field_less [OF l(2)] four_less [OF assms(1,2)] four_eq [OF assms(1,2)]
        two_less [OF assms(3,4)] two_eq [OF assms(3,4)] two_less [OF assms(5,6)] two_eq [OF assms(5,6)]
        two_less [OF assms(7,8)] two_eq [OF assms(7,8)] two_less [OF assms(9,10)] two_eq [OF assms(9,10)])
qed

lemma stamp_less:
  assumes "in_years a" "in_years b" "a div second < b div second"
  shows "format_rfc3339 a < format_rfc3339 b"
proof -
  define S T where "S = a div second" and "T = b div second"
  obtain y m d where c: "civil_of_days (S div 86400) = (y, m, d)" by (metis prod_cases3)
  obtain y' m' d' where c': "civil_of_days (T div 86400) = (y', m', d')" by (metis prod_cases3)
  define i j where "i = nat (S mod 86400)" and "j = nat (T mod 86400)"
  have y: "0 \<le> y" "y < 10000" "0 \<le> y'" "y' < 10000"
    using assms c c' by (simp_all add: in_years_def S_def T_def)
  have "valid_date y m d" "valid_date y' m' d'" using civil_of_days_correct c c' by blast+
  then have b: "0 \<le> m" "nat m < 100" "0 \<le> d" "nat d < 100" "0 \<le> m'" "nat m' < 100" "0 \<le> d'" "nat d' < 100"
    using valid_date_bounds by blast+
  have h: "i div 3600 < 100" "j div 3600 < 100"
    using clock_split(1) [of i] clock_split(1) [of j] by (simp_all add: i_def j_def)
  have f: "format_rfc3339 a = four (nat y) @ CHR ''-'' # two (nat m) @ CHR ''-'' # two (nat d) @ CHR ''T''
       # two (i div 3600) @ CHR '':'' # two (i div 60 mod 60) @ CHR '':'' # two (i mod 60) @ ''Z''"
    "format_rfc3339 b = four (nat y') @ CHR ''-'' # two (nat m') @ CHR ''-'' # two (nat d') @ CHR ''T''
       # two (j div 3600) @ CHR '':'' # two (j div 60 mod 60) @ CHR '':'' # two (j mod 60) @ ''Z''"
    using y by (simp_all add: format_rfc3339_def Let_def S_def [symmetric] T_def [symmetric] c c'
        i_def [symmetric] j_def [symmetric] format_year_def)
  have iff: "format_rfc3339 a < format_rfc3339 b \<longleftrightarrow> y < y' \<or> y = y' \<and> (m < m' \<or> m = m' \<and> (d < d' \<or> d = d' \<and>
     (i div 3600 < j div 3600 \<or> i div 3600 = j div 3600 \<and> (i div 60 mod 60 < j div 60 mod 60
       \<or> i div 60 mod 60 = j div 60 mod 60 \<and> i mod 60 < j mod 60))))"
  proof -
    have n: "nat y < nat y' \<longleftrightarrow> y < y'" "nat m < nat m' \<longleftrightarrow> m < m'" "nat d < nat d' \<longleftrightarrow> d < d'"
      using y b by (simp_all only: nat_less_eq_zless)
    have e: "nat y = nat y' \<longleftrightarrow> y = y'" "nat m = nat m' \<longleftrightarrow> m = m'" "nat d = nat d' \<longleftrightarrow> d = d'"
      using y b by (simp_all only: eq_nat_nat_iff)
    have "nat y < 10000" "nat y' < 10000" using y by simp_all
    then show ?thesis
      unfolding f n [symmetric] e [symmetric] by (rule fields_less) (use b h in simp_all)
  qed
  have days: "S div 86400 \<le> T div 86400" using assms by (intro zdiv_mono1) (simp_all add: S_def T_def)
  show ?thesis
  proof (cases "S div 86400 = T div 86400")
    case True
    then have e: "y = y'" "m = m'" "d = d'" using c c' by simp_all
    have "S mod 86400 < T mod 86400"
      by (rule same_div_mod [OF True]) (use assms(3) in \<open>simp only: S_def T_def\<close>)
    then have "i < j" by (simp add: i_def j_def nat_less_eq_zless del: zless_nat_conj)
    then have p: "i div 60 < j div 60 \<or> i div 60 = j div 60 \<and> i mod 60 < j mod 60"
      by (rule iffD1 [OF div_mod_less, rotated]) simp
    have q: "i div 60 < j div 60 \<longleftrightarrow> i div 60 div 60 < j div 60 div 60
        \<or> i div 60 div 60 = j div 60 div 60 \<and> i div 60 mod 60 < j div 60 mod 60"
      by (rule div_mod_less) simp
    have r: "n div 60 div 60 = n div 3600" for n :: nat by (simp add: div_mult2_eq [symmetric])
    have "i div 3600 = j div 3600 \<and> i div 60 mod 60 = j div 60 mod 60" if "i div 60 = j div 60"
      using that r by metis
    with p show ?thesis unfolding iff q r using e by blast
  next
    case False
    with days have "S div 86400 < T div 86400" by simp
    from civil_less [OF this c c'] show ?thesis unfolding iff by blast
  qed
qed

lemma truncate_less: "truncate_second a < truncate_second b \<longleftrightarrow> a div second < b div second"
  by (simp add: truncate_second_def second_def)

lemma stamp_order:
  assumes "in_years a" "in_years b"
  shows "format_rfc3339 a < format_rfc3339 b \<longleftrightarrow> truncate_second a < truncate_second b"
proof -
  have "format_rfc3339 a = format_rfc3339 b" if "truncate_second a = truncate_second b"
    using that format_truncate by metis
  then show ?thesis
    using stamp_less [OF assms] stamp_less [OF assms(2,1)] truncate_less by (metis less_irrefl less_linear order_less_asym)
qed
end
