(* ===== verification/SchemaFacts.thy ===== *)
theory SchemaFacts
  imports TimeFacts Receipts
begin

text \<open>
  Facts about the scalar validators that the components share: what an accepted identifier,
  scope or fingerprint can look like, and that a fingerprint the code makes is one it accepts.
\<close>

lemma Fingerprint_length [simp]: "length (Fingerprint s) = 71"
  by (simp add: Fingerprint_def sha256_hex_shape)

lemma Fingerprint_nonempty [simp]: "Fingerprint s \<noteq> []"
  by (simp add: Fingerprint_def)

lemma validateFingerprint_Fingerprint [simp]: "validateFingerprint f (Fingerprint s) = None"
  by (simp add: validateFingerprint_def Fingerprint_def has_prefix_def list_all_iff
      sha256_hex_shape)

lemma validateFingerprint_length: "validateFingerprint f s = None \<Longrightarrow> length s = 71"
  by (auto simp: validateFingerprint_def split: if_splits)

lemma validateID_None:
  "validateID f p s = None \<longleftrightarrow> length s \<le> MaxIDBytes \<and> has_prefix s p \<and> length p < length s
     \<and> list_all opaque_char s"
proof -
  have "length p \<le> length s" if "has_prefix s p"
    using that by (metis has_prefix_def length_take min.cobounded1)
  then show ?thesis by (auto simp: validateID_def opaqueRunes_def)
qed

lemma opaque_no_separator:
  "list_all opaque_char s \<Longrightarrow> CHR ''/'' \<notin> set s \<and> CHR 0x5C \<notin> set s \<and> CHR ''%'' \<notin> set s
     \<and> CHR '' '' \<notin> set s \<and> CHR 0x00 \<notin> set s"
  by (auto simp: list_all_iff opaque_char_def less_eq_char_def)

lemma validateScope_None:
  "validateScope f s = None \<longleftrightarrow> s = ''personal'' \<or> (length s \<le> MaxScopeBytes \<and>
     (\<exists>name. s = ''project:'' @ name \<and> name \<noteq> [] \<and> list_all opaque_char name
        \<and> CHR '':'' \<notin> set name \<and> name \<noteq> ''.'' \<and> name \<noteq> ''..''))"
proof -
  consider "s = ''personal''" | "s \<noteq> ''personal''" "\<not> has_prefix s ''project:''"
    | "s \<noteq> ''personal''" "has_prefix s ''project:''" by blast
  then show ?thesis
  proof cases
    case 1
    then show ?thesis by (simp add: validateScope_def MaxScopeBytes_def)
  next
    case 2
    then have "\<nexists>name. s = ''project:'' @ name" by (metis has_prefix_append)
    moreover have "validateScope f s \<noteq> None"
      using 2 by (simp add: validateScope_def cut_prefix_def errf_def)
    ultimately show ?thesis using 2 by blast
  next
    case 3
  then obtain name where s: "s = ''project:'' @ name"
    by (metis append_take_drop_id has_prefix_def)
  then have c: "cut_prefix s ''project:'' = (name, True)" by (simp add: cut_prefix_def has_prefix_def)
  have "list_all opaque_char name \<Longrightarrow>
      list_ex (\<lambda>c. c \<in> {CHR '':'', CHR ''/'', CHR 0x5C}) name \<longleftrightarrow> CHR '':'' \<in> set name"
    using opaque_no_separator [of name] by (auto simp: list_ex_iff)
  then show ?thesis using 3 unfolding validateScope_def c prod.case opaqueRunes_def
    by (auto simp: s)
  qed
qed
end
