(* ===== verification/RegistrySteps.thy ===== *)
theory RegistrySteps
  imports RegistryProofs SchemaFacts
begin

text \<open>
  The registry as a state machine: one step is one call of an operation, with any arguments
  and any answers of the filesystem, the clock and the entropy source. The lemmas lift the
  contract of \<open>RegistryProofs\<close> from one locked section to every reachable state.
\<close>

subsection \<open>The contract, operation by operation\<close>

definition sound :: "registry \<Rightarrow> bool" where
  "sound g \<longleftrightarrow> registry_ok (contents g)
     \<and> (\<forall>f sz. rg_file g = Some (f, sz) \<longrightarrow> sz \<le> MaxRegistryBytes)
     \<and> list_all (\<lambda>row. row_meaning row (contents g)) (rg_rows g)"

definition forward :: "registry \<Rightarrow> registry \<Rightarrow> bool" where
  "forward g g' \<longleftrightarrow> evolves (contents g) (contents g') \<and> (\<exists>rows. rg_rows g' = rg_rows g @ rows)"

lemma sound_kept: "sound g \<longleftrightarrow> devices.kept g"
  by (simp add: sound_def devices.kept_def list_all_iff)

lemma forward_evolved: "forward g g' \<longleftrightarrow> devices.evolved g g'"
  by (simp add: forward_def devices.evolved_def)

lemma forward_trans: "forward a b \<Longrightarrow> forward b c \<Longrightarrow> forward a c"
  using devices.evolved_trans by (simp add: forward_evolved)

lemma forward_refl [simp]: "forward g g"
  by (simp add: forward_evolved devices.evolved_refl)

abbreviation carried :: "registry \<Rightarrow> registry \<Rightarrow> bool" where
  "carried g g' \<equiv> sound g \<longrightarrow> sound g' \<and> forward g g'"

lemma carried_trans: "carried a b \<Longrightarrow> carried b c \<Longrightarrow> carried a c"
  using forward_trans by blast

lemma same_disk_carried: "same_disk g g' \<Longrightarrow> carried g g'"
  using devices.same_disk_kept by (simp add: sound_kept forward_evolved)

lemma same_disk_sound: "same_disk g g' \<Longrightarrow> sound g' = sound g"
  using contents_cong [of g' g] by (simp add: sound_def same_disk_def)

lemma same_disk_forward: "same_disk g g' \<Longrightarrow> forward g g'"
  using contents_cong [of g' g] by (simp add: forward_def same_disk_def)

lemma Pair_carried:
  assumes "Pair json_size url_parse l p e t0 t1 t2 g = (err, pl, g')" shows "carried g g'"
proof -
  have reg: "carried h h'"
    if r: "register_pending json_size url_parse l p e t1 t2 host did code h = (x, y, h')"
    for host did code h x y h'
  proof -
    let ?rec = "new_record did l p code (stampAt (t2 + PairingTTL)) (stampAt t1)"
    let ?pay = "\<lparr>hd_Schema = ''mora.companion.pairing'', hd_SchemaVersion = SchemaVersion,
            pp_DeviceID = did, pp_Endpoint = e, pp_PairingCode = code,
            pp_ExpiresAt = stampAt (t2 + PairingTTL), pp_HostFingerprint = host\<rparr>"
    show ?thesis
    proof (cases "PairingPayload_Validate url_parse ?pay = None \<and> Device_Validate (record_device ?rec) = None")
      case True
      obtain z out h2 where m: "mutate json_size (pair_verdict ?rec (stampAt t1)) h = (z, out, h2)"
        by (metis prod_cases3)
      have "validateTimestamp ''expires_at'' (stampAt (t2 + PairingTTL)) = None"
        using True by (simp add: PairingPayload_Validate_def)
      then have "pairable (?rec, stampAt t1)"
        using True by (simp add: pairable_def record_ok_def new_record_def validateOptionalTimestamp_def)
      from pairing.mutate_kept [OF this, of h json_size] m
      have "carried h h2" by (simp add: sound_kept forward_evolved)
      then show ?thesis using r m True
        by (auto simp: register_pending_def Let_def split: if_splits)
    next
      case False
      then show ?thesis using r by (auto simp: register_pending_def Let_def split: option.splits)
    qed
  qed
  show ?thesis
  proof (cases "same_disk g g'")
    case False
    with assms obtain host g1 did g2 code g3 x y where
      s: "HostFingerprint g = (Inr host, g1)" "newDeviceID t0 g1 = (Inr did, g2)"
      "newSecret pairingCodeEntropyBytes g2 = (Inr code, g3)"
      and r: "register_pending json_size url_parse l p e t1 t2 host did code g3 = (x, y, g')"
      unfolding Pair_def
      by (auto split: option.splits prod.splits sum.splits
          dest: HostFingerprint_disk newDeviceID_disk newSecret_disk same_disk_trans)
        (meson HostFingerprint_disk newDeviceID_disk newSecret_disk same_disk_trans)
    have "same_disk g g3"
      using s HostFingerprint_disk newDeviceID_disk newSecret_disk same_disk_trans by meson
    with reg [OF r] show ?thesis using same_disk_sound same_disk_forward forward_trans by blast
  qed (rule same_disk_carried)
qed


lemma Confirm_mutates:
  assumes "Confirm json_size c t1 t2 g = (r, g')"
  obtains (checked) "same_disk g g'" "fst (snd r) = None" "snd (snd r) \<noteq> None"
    | (spent) token h err out where "newSecret tokenEntropyBytes g = (Inr token, h)" "same_disk g h"
      "PairingConfirmation_Validate c = None"
      "mutate json_size (confirm_verdict token c (stampAt t1) t2) h = (err, out, g')"
      "r = (if err \<noteq> None \<and> \<not> err_is err ErrReceiptNotWritten then ([], None, err)
            else case out of Some (d, True) \<Rightarrow> ([], None, Some (if err_is err ErrReceiptNotWritten
                   then Joined ErrPairingExpired ErrReceiptNotWritten else ErrPairingExpired))
              | Some (d, False) \<Rightarrow> (token, d, err) | None \<Rightarrow> (token, None, err))"
proof (cases "PairingConfirmation_Validate c")
  case (Some e)
  then show ?thesis using assms by (intro checked) (auto simp: Confirm_def)
next
  case None
  obtain x h where n: "newSecret tokenEntropyBytes g = (x, h)" by force
  note d = newSecret_disk [OF n]
  show ?thesis
  proof (cases x)
    case (Inl e)
    then show ?thesis using assms None n d by (intro checked) (auto simp: Confirm_def)
  next
    case (Inr token)
    obtain err out h' where m: "mutate json_size (confirm_verdict token c (stampAt t1) t2) h = (err, out, h')"
      by (metis prod_cases3)
    have "h' = g'"
      using assms None n Inr m
      by (auto simp: Confirm_def Let_def split: option.splits prod.splits if_splits)
    then show ?thesis
      using assms None n d Inr m
      by (intro spent [of token h err out])
        (auto simp: Confirm_def Let_def split: option.splits prod.splits bool.splits if_splits)
  qed
qed

lemma Confirm_carried:
  assumes "Confirm json_size c t1 t2 g = (r, g')" shows "carried g g'"
  using assms
proof (cases rule: Confirm_mutates)
  case checked
  then show ?thesis by (simp add: same_disk_carried)
next
  case (spent token h err out)
  have "carried h g'"
    using confirming.mutate_kept [where b = "(token, c, stampAt t1, t2)" and g = h] spent
    by (simp add: sound_kept forward_evolved)
  with spent show ?thesis using same_disk_sound same_disk_forward forward_trans by blast
qed

lemma RecordPairingFailure_carried:
  assumes "RecordPairingFailure json_size did g = (r, g')" shows "carried g g'"
proof -
  obtain err out where m: "mutate json_size (failure_verdict did) g = (err, out, g')"
    using assms by (auto simp: RecordPairingFailure_def split: prod.splits if_splits)
  from failing.mutate_kept [OF _ _ m] show ?thesis by (simp add: sound_kept forward_evolved)
qed

lemma stampAt_valid [simp]: "in_years t \<Longrightarrow> validateTimestamp f (stampAt t) = None"
  by (simp add: stampAt_def)

lemma MarkSeen_carried:
  assumes "MarkSeen json_size did t g = (r, g')" "in_years t" shows "carried g g'"
proof -
  obtain out where m: "mutate json_size (seen_verdict did (stampAt t)) g = (r, out, g')"
    using assms by (auto simp: MarkSeen_def split: prod.splits)
  have "stamp_ok (did, stampAt t)" using assms by (simp add: stamp_ok_def)
  from seeing.mutate_kept [OF this, of g json_size] m show ?thesis
    by (simp add: sound_kept forward_evolved)
qed

lemma Revoke_carried:
  assumes "Revoke json_size did t g = (r, g')" shows "carried g g'"
proof (cases "validateID ''device_id'' PrefixDevice did")
  case None
  then obtain err out where m: "mutate json_size (revoke_verdict did (stampAt t)) g = (err, out, g')"
    using assms by (auto simp: Revoke_def split: prod.splits if_splits option.splits)
  from revoking.mutate_kept [where b = "(did, stampAt t)" and g = g] m show ?thesis
    by (simp add: sound_kept forward_evolved)
qed (use assms in \<open>auto simp: Revoke_def\<close>)

lemma reads_same_disk:
  "Authenticate token g = (a, g1) \<Longrightarrow> same_disk g g1"
  "PairingBudget did g = (b, g2) \<Longrightarrow> same_disk g g2"
  "ListDevices g = (c, g3) \<Longrightarrow> same_disk g g3"
  "Registry_Status now g = (d, g4) \<Longrightarrow> same_disk g g4"
  "HostFingerprint g = (e, g5) \<Longrightarrow> same_disk g g5"
  "MarkPairingFailureUnrecorded did g = (x, g6) \<Longrightarrow> same_disk g g6"
  "ClearPairingFailureUnrecorded did g = (y, g7) \<Longrightarrow> same_disk g g7"
proof -
  show "Authenticate token g = (a, g1) \<Longrightarrow> same_disk g g1"
    by (auto simp: Authenticate_def split: prod.splits sum.splits option.splits if_splits
        dest!: next_io_disk newSecret_disk intro: same_disk_trans)
  show "PairingBudget did g = (b, g2) \<Longrightarrow> same_disk g g2"
    by (auto simp: PairingBudget_def split: prod.splits sum.splits option.splits dest!: next_io_disk)
  show "ListDevices g = (c, g3) \<Longrightarrow> same_disk g g3" "Registry_Status now g = (d, g4) \<Longrightarrow> same_disk g g4"
    by (auto simp: ListDevices_def Registry_Status_def split: prod.splits sum.splits dest!: next_io_disk)
  show "HostFingerprint g = (e, g5) \<Longrightarrow> same_disk g g5"
    using HostFingerprint_disk by blast
  have m: "same_disk g (h\<lparr>rg_marks := s\<rparr>) = same_disk g h" for h s by (simp add: same_disk_def)
  show "MarkPairingFailureUnrecorded did g = (x, g6) \<Longrightarrow> same_disk g g6"
    "ClearPairingFailureUnrecorded did g = (y, g7) \<Longrightarrow> same_disk g g7"
    by (auto simp: MarkPairingFailureUnrecorded_def ClearPairingFailureUnrecorded_def m
        split: prod.splits sum.splits option.splits if_splits dest!: next_io_disk)
qed

subsection \<open>Steps\<close>

inductive reg_step :: "(registry_file \<Rightarrow> nat) \<Rightarrow> url_parser \<Rightarrow> registry \<Rightarrow> registry \<Rightarrow> bool"
  for json_size url_parse where
  pair: "Pair json_size url_parse l p e t0 t1 t2 g = (r, pl, g') \<Longrightarrow> reg_step json_size url_parse g g'"
| confirm: "Confirm json_size c t1 t2 g = (r, g') \<Longrightarrow> reg_step json_size url_parse g g'"
| budget: "PairingBudget did g = (r, g') \<Longrightarrow> reg_step json_size url_parse g g'"
| failure: "RecordPairingFailure json_size did g = (r, g') \<Longrightarrow> reg_step json_size url_parse g g'"
| mark: "MarkPairingFailureUnrecorded did g = (r, g') \<Longrightarrow> reg_step json_size url_parse g g'"
| clear: "ClearPairingFailureUnrecorded did g = (r, g') \<Longrightarrow> reg_step json_size url_parse g g'"
| authenticate: "Authenticate token g = (r, g') \<Longrightarrow> reg_step json_size url_parse g g'"
| seen: "in_years t \<Longrightarrow> MarkSeen json_size did t g = (r, g') \<Longrightarrow> reg_step json_size url_parse g g'"
| revoke: "Revoke json_size did t g = (r, g') \<Longrightarrow> reg_step json_size url_parse g g'"
| list: "ListDevices g = (r, g') \<Longrightarrow> reg_step json_size url_parse g g'"
| status: "Registry_Status now g = (r, g') \<Longrightarrow> reg_step json_size url_parse g g'"
| host: "HostFingerprint g = (r, g') \<Longrightarrow> reg_step json_size url_parse g g'"
| world: "reg_step json_size url_parse g (g\<lparr>rg_tape := tape, rg_entropy := entropy\<rparr>)"

definition reaches :: "(registry_file \<Rightarrow> nat) \<Rightarrow> url_parser \<Rightarrow> registry \<Rightarrow> registry \<Rightarrow> bool" where
  "reaches json_size url_parse = (reg_step json_size url_parse)\<^sup>*\<^sup>*"

lemma step_carried: "reg_step json_size url_parse g g' \<Longrightarrow> carried g g'"
proof (induction rule: reg_step.induct)
  case (world g tape entropy)
  then show ?case by (intro same_disk_carried) (simp add: same_disk_def)
qed (use Pair_carried Confirm_carried RecordPairingFailure_carried MarkSeen_carried Revoke_carried
      reads_same_disk same_disk_carried in metis)+

lemma reaches_carried: "reaches json_size url_parse g g' \<Longrightarrow> carried g g'"
  unfolding reaches_def
proof (induction rule: rtranclp_induct)
  case (step y z)
  then show ?case using step_carried carried_trans by blast
qed simp

lemma reaches_refl: "reaches json_size url_parse g g"
  by (simp add: reaches_def)

lemma reaches_step: "reg_step json_size url_parse g g' \<Longrightarrow> reaches json_size url_parse g g'"
  by (auto simp: reaches_def)

end
