(* ===== verification/RegistryClaims.thy ===== *)
theory RegistryClaims
  imports RegistrySteps
begin

text \<open>
  What the device registry promises: it can always read what it wrote, a device never moves
  backwards, a pairing code is spent once, a revoked credential stays dead, and the audit log
  is truthful. Each property quantifies over the failures of the filesystem, held in the tape
  of the state.
\<close>

definition device_of :: "registry \<Rightarrow> string \<Rightarrow> device_record option" where
  "device_of g k = find_device k (rf_Devices (contents g))"

lemma sound_distinct: "sound g \<Longrightarrow> distinct (map dr_DeviceID (rf_Devices (contents g)))"
  by (simp add: sound_def registry_ok_def)

lemma device_of_iff: "sound g \<Longrightarrow>
    device_of g k = Some r \<longleftrightarrow> r \<in> set (rf_Devices (contents g)) \<and> dr_DeviceID r = k"
  unfolding device_of_def by (rule find_device_iff) (rule sound_distinct)

lemma device_of_ok: "sound g \<Longrightarrow> device_of g k = Some r \<Longrightarrow> record_ok r \<and> dr_DeviceID r = k"
  by (simp add: device_of_iff sound_def registry_ok_def list_all_iff)

lemma device_advances:
  assumes "sound g" "device_of g k = Some r" "reaches json_size url_parse g g'"
  shows "\<exists>r'. device_of g' k = Some r' \<and> advances r r'"
proof -
  have "sound g'" "forward g g'" using assms reaches_carried by blast+
  then obtain r' where "r' \<in> set (rf_Devices (contents g'))" "advances r r'"
    using assms(1,2) by (auto simp: device_of_iff forward_def dest: evolves_members)
  then show ?thesis using \<open>sound g'\<close> assms(1,2) by (auto simp: device_of_iff advances_def)
qed

lemma same_disk_device: "same_disk g g' \<Longrightarrow> device_of g' = device_of g"
  using contents_cong [of g' g] by (simp add: device_of_def fun_eq_iff same_disk_def)

subsection \<open>Example registries for the witnesses\<close>

definition example_stamp :: string where "example_stamp = format_rfc3339 0"

definition active_example :: device_record where
  "active_example = \<lparr>dr_DeviceID = ''dev_a'', dr_Label = ''phone'', dr_Platform = ''ios'',
     dr_State = DeviceActive, dr_TokenFingerprint = Fingerprint ''tok'',
     dr_PairingCodeFingerprint = [], dr_PairingExpiresAt = [], dr_PairingAttempts = 0,
     dr_PublicKey = [], dr_CreatedAt = example_stamp, dr_LastSeenAt = [], dr_RevokedAt = []\<rparr>"

definition pending_example :: device_record where
  "pending_example = new_record ''dev_p'' ''mac'' ''macos'' ''code'' (stampAt 600000000000) example_stamp"

definition revoked_example :: device_record where
  "revoked_example = active_example\<lparr>dr_DeviceID := ''dev_r'', dr_State := DeviceRevoked,
     dr_TokenFingerprint := Fingerprint ''old'', dr_RevokedAt := example_stamp\<rparr>"

definition registry_example :: registry where
  "registry_example = \<lparr>rg_file = Some (\<lparr>rf_Version = 1, rf_Devices = [revoked_example, pending_example, active_example]\<rparr>, 900),
     rg_rows = [\<lparr>au_Event = ''paired'', au_DeviceID = ''dev_p'', au_At = example_stamp\<rparr>],
     rg_marks = {}, rg_seed = None, rg_entropy = replicate 64 7, rg_tape = []\<rparr>"

lemma in_years_epoch [simp]: "in_years 0" "in_years 600000000000"
  by code_simp+

lemma example_id_ok: "validateID f ''dev_'' ''dev_a'' = None" "validateID f ''dev_'' ''dev_p'' = None"
  "validateID f ''dev_'' ''dev_r'' = None"
  by code_simp+

lemma example_records: "record_ok active_example" "record_ok pending_example"
  "record_ok revoked_example"
  by (simp_all add: record_ok_def revoked_example_def active_example_def pending_example_def new_record_def Device_Validate_None
      example_id_ok validateText_def MaxLabelBytes_def vocabulary_def validateOptionalFingerprint_def
      validateOptionalTimestamp_def example_stamp_def)

lemma example_contents [simp]:
  "contents registry_example = \<lparr>rf_Version = 1, rf_Devices = [revoked_example, pending_example, active_example]\<rparr>"
  by (simp add: contents_def registry_example_def)

lemma example_ids [simp]: "dr_DeviceID active_example = ''dev_a''" "dr_DeviceID pending_example = ''dev_p''"
  "dr_DeviceID revoked_example = ''dev_r''"
  by (simp_all add: revoked_example_def active_example_def pending_example_def new_record_def)

lemma example_sound: "sound registry_example"
  using example_records
  by (auto simp: sound_def registry_ok_def registryFileVersion_def MaxDevices_def row_meaning_def
      row_shows_def registry_example_def MaxRegistryBytes_def contents_def)

subsection \<open>The record file\<close>

lemma sound_load: "sound g \<Longrightarrow> load None g = Inr (contents g)"
  by (auto simp: load_Inr_iff sound_def registry_ok_def contents_def)



text \<open>C14: A device record only moves forward: over any sequence of operations it is never lost,
  its id and creation stamp never change, it goes from pending to active to revoked and never
  back, its wrong-guess count never falls, its pairing code can only be cleared, and once set its
  token fingerprint and revocation stamp are never rewritten.\<close>

theorem devices_only_advance:
  assumes "sound g" "device_of g k = Some r" "reaches json_size url_parse g g'"
  shows "\<exists>r'. device_of g' k = Some r' \<and> dr_DeviceID r' = k \<and> dr_CreatedAt r' = dr_CreatedAt r
     \<and> state_rank (dr_State r) \<le> state_rank (dr_State r')
     \<and> dr_PairingAttempts r \<le> dr_PairingAttempts r'
     \<and> (dr_PairingCodeFingerprint r' = [] \<or> dr_PairingCodeFingerprint r' = dr_PairingCodeFingerprint r)
     \<and> (dr_TokenFingerprint r = [] \<or> dr_TokenFingerprint r' = dr_TokenFingerprint r)
     \<and> (dr_RevokedAt r = [] \<or> dr_RevokedAt r' = dr_RevokedAt r)"
  using device_advances [OF assms] device_of_ok [OF assms(1,2)]
  by (auto simp: advances_def sticky_def)

lemma device_example [simp]: "device_of registry_example ''dev_a'' = Some active_example"
  "device_of registry_example ''dev_p'' = Some pending_example"
  "device_of registry_example ''dev_r'' = Some revoked_example"
  by (simp_all add: device_of_def)

theorem devices_only_advance_witness:
  "\<exists>r'. device_of registry_example ''dev_a'' = Some r' \<and> dr_TokenFingerprint r' = Fingerprint ''tok''"
proof -
  have "dr_TokenFingerprint active_example = Fingerprint ''tok''" by (simp add: active_example_def)
  with devices_only_advance [OF example_sound device_example(1) reaches_refl [of "\<lambda>_. 0" "\<lambda>_. None"]]
  show ?thesis by auto
qed

subsection \<open>Authentication\<close>

lemma match_token_spec:
  assumes "match_token absent want m rs = Some r" "length absent = 71"
  shows "m = Some r \<or> r \<in> set rs \<and>
    (if length (dr_TokenFingerprint r) = 71 then dr_TokenFingerprint r = want else absent = want)"
  using assms
proof (induction absent want m rs rule: match_token.induct)
  case (2 absent want m r' rs)
  then show ?case by (auto simp: Let_def split: if_splits)
qed simp

lemma active_fingerprint: "record_ok r \<Longrightarrow> dr_State r = DeviceActive \<Longrightarrow> length (dr_TokenFingerprint r) = 71"
  using validateFingerprint_length
  by (auto simp: record_ok_def Device_Validate_None validateOptionalFingerprint_def split: if_splits)

lemma Authenticate_Inr:
  assumes "sound g" "Authenticate token g = (Inr d, g')"
  shows "\<exists>r. device_of g (dv_DeviceID d) = Some r \<and> d = record_device r \<and> dr_State r = DeviceActive
    \<and> dr_TokenFingerprint r = Fingerprint token"
proof -
  obtain i g1 where n: "next_io g = (i, g1)" by force
  obtain r f seed where l: "load (io_load i) g1 = Inr f"
    and m: "match_token (Fingerprint seed) (Fingerprint token) None (rf_Devices f) = Some r"
    and a: "dr_State r = DeviceActive" and d: "d = record_device r"
    using assms(2) n by (auto simp: Authenticate_def split: sum.splits option.splits prod.splits if_splits)
  have f: "f = contents g" using load_contents [OF l] next_io_disk [OF n] contents_cong [of g1 g]
    by (simp add: same_disk_def)
  have "r \<in> set (rf_Devices f)" using match_token_spec [OF m] by simp
  then have r: "device_of g (dr_DeviceID r) = Some r" using assms(1) f by (simp add: device_of_iff)
  then show ?thesis
    using a d match_token_spec [OF m] active_fingerprint device_of_ok [OF assms(1) r]
    by (auto simp: record_device_def split: if_splits)
qed

text \<open>C1: Once a device is revoked, no token whatever authenticates as that device again, however the
  registry is used afterwards; and whatever does authenticate is an active device whose stored
  fingerprint is the fingerprint of the presented token.\<close>

theorem revoked_never_authenticates:
  assumes "sound g" "device_of g k = Some r" "dr_State r = DeviceRevoked"
    "reaches json_size url_parse g g'" "Authenticate token g' = (Inr d, g'')"
  shows "dv_DeviceID d \<noteq> k \<and> (\<exists>r'. device_of g' (dv_DeviceID d) = Some r' \<and> dr_State r' = DeviceActive
    \<and> dr_TokenFingerprint r' = Fingerprint token)"
proof -
  have "sound g'" using reaches_carried [OF assms(4)] assms(1) by blast
  then obtain r' where r': "device_of g' (dv_DeviceID d) = Some r'" "dr_State r' = DeviceActive"
      "dr_TokenFingerprint r' = Fingerprint token"
    using Authenticate_Inr [OF _ assms(5)] by blast
  moreover obtain r2 where "device_of g' k = Some r2" "dr_State r2 = DeviceRevoked"
    using device_advances [OF assms(1,2,4)] assms(3) by (auto simp: advances_def)
  ultimately show ?thesis by auto
qed

lemma Authenticate_example:
  "\<exists>g'. Authenticate ''tok'' registry_example = (Inr (record_device active_example), g')"
  using sound_load [OF example_sound]
  by (simp add: Authenticate_def next_io_def registry_example_def io_ok_def newSecret_def read_full_def
      tokenEntropyBytes_def load_def MaxRegistryBytes_def registryFileVersion_def MaxDevices_def)
    (simp add: Let_def active_example_def)

theorem revoked_never_authenticates_witness:
  "dv_DeviceID (record_device active_example) \<noteq> ''dev_r''"
proof -
  obtain g' where a: "Authenticate ''tok'' registry_example = (Inr (record_device active_example), g')"
    using Authenticate_example by blast
  have "dr_State revoked_example = DeviceRevoked" by (simp add: revoked_example_def)
  from revoked_never_authenticates [OF example_sound device_example(3) this
      reaches_refl [of "\<lambda>_. 0" "\<lambda>_. None"] a]
  show ?thesis by blast
qed

end
