(* ===== verification/ConfirmClaims.thy ===== *)
theory ConfirmClaims
  imports RegistryClaims
begin

text \<open>
  Spending a pairing code: who is granted a credential, that a code is spent at most once, what
  a wrong or a late code leaves behind, and what a write that fails after it has landed does.
\<close>

lemma contents_simps [simp]:
  "contents (g\<lparr>rg_file := Some (f, n)\<rparr>) = f" "contents (g\<lparr>rg_rows := rows\<rparr>) = contents g"
  "contents (g\<lparr>rg_tape := tape\<rparr>) = contents g" "contents (g\<lparr>rg_entropy := entropy\<rparr>) = contents g"
  "contents (g\<lparr>rg_marks := marks\<rparr>) = contents g"
  by (simp_all add: contents_def)

lemma result_parts: "\<exists>a b c g. x = ((a, b, c), g)"
  by (cases x; cases "fst x") auto

lemma update_found: "find_device k rs = Some r \<Longrightarrow> dr_DeviceID (u r) = k \<Longrightarrow>
    find_device k (update_device k u rs) = Some (u r)"
  by (induction k u rs rule: update_device.induct) (auto split: if_splits)

lemma plain_newSecret: "newSecret n g = (x, h) \<Longrightarrow> plain_tape h = plain_tape g"
  using newSecret_disk by (auto simp: plain_tape_def)

lemma confirm_Change:
  assumes "confirm_verdict token c now t2 f = Change f' row a"
  obtains (expired) r where "find_device (pc_DeviceID c) (rf_Devices f) = Some r" "live_pending r"
      "dr_PairingCodeFingerprint r = Fingerprint (pc_PairingCode c)" "expired t2 (dr_PairingExpiresAt r)"
      "f' = f\<lparr>rf_Devices := update_device (pc_DeviceID c) (\<lambda>r. r\<lparr>dr_PairingCodeFingerprint := []\<rparr>) (rf_Devices f)\<rparr>"
      "a = (None, True)" "row = \<lparr>au_Event = ''expired'', au_DeviceID = pc_DeviceID c, au_At = now\<rparr>"
    | (granted) r where "find_device (pc_DeviceID c) (rf_Devices f) = Some r" "live_pending r"
      "dr_PairingCodeFingerprint r = Fingerprint (pc_PairingCode c)" "\<not> expired t2 (dr_PairingExpiresAt r)"
      "Device_Validate (record_device (activate token c r)) = None"
      "f' = f\<lparr>rf_Devices := update_device (pc_DeviceID c) (activate token c) (rf_Devices f)\<rparr>"
      "a = (Some (record_device (activate token c r)), False)"
      "row = \<lparr>au_Event = ''confirmed'', au_DeviceID = pc_DeviceID c, au_At = now\<rparr>"
  using assms
  by (auto simp: confirm_verdict_def live_pending_def Let_def split: option.splits if_splits)

lemma confirm_not_live:
  assumes "\<And>r. find_device (pc_DeviceID c) (rf_Devices f) = Some r \<Longrightarrow> \<not> live_pending r"
  shows "\<exists>e. confirm_verdict token c now t2 f = Refuse e"
  using assms
  by (cases "find_device (pc_DeviceID c) (rf_Devices f)") (auto simp: confirm_verdict_def live_pending_def)

lemma live_pending_back: "advances r r' \<Longrightarrow> \<not> live_pending r \<Longrightarrow> \<not> live_pending r'"
  by (auto simp: advances_def sticky_def live_pending_def)

lemma Confirm_granted:
  assumes "plain_tape g" "Confirm json_size c t1 t2 g = ((token, Some d, e), g')"
  shows "\<exists>r. device_of g (pc_DeviceID c) = Some r \<and> live_pending r
    \<and> dr_PairingCodeFingerprint r = Fingerprint (pc_PairingCode c) \<and> \<not> expired t2 (dr_PairingExpiresAt r)
    \<and> device_of g' (pc_DeviceID c) = Some (activate token c r) \<and> d = record_device (activate token c r)
    \<and> Device_Validate d = None \<and> (e = None \<or> err_is e ErrReceiptNotWritten)
    \<and> (e = None \<longrightarrow> rg_rows g' = rg_rows g @ [\<lparr>au_Event = ''confirmed'', au_DeviceID = pc_DeviceID c, au_At = stampAt t1\<rparr>])"
  using assms(2)
proof (cases rule: Confirm_mutates)
  case checked
  then show ?thesis by simp
next
  case (spent tok h err out)
  have hc: "contents h = contents g" "rg_rows h = rg_rows g" "plain_tape h"
    using spent(1,2) assms(1) plain_newSecret contents_cong [of h g] by (auto simp: same_disk_def)
  from spent(5) have out: "out = Some (Some d, False)" "tok = token" "e = err"
      "err = None \<or> err_is err ErrReceiptNotWritten"
    by (auto split: if_splits option.splits bool.splits)
  from spent(4) show ?thesis
  proof (cases rule: mutate_cases)
    case (written f row a)
    from written(1) show ?thesis
    proof (cases rule: confirm_Change)
      case (granted r)
      have "dr_DeviceID (activate token c r) = pc_DeviceID c"
        using find_device_in [OF granted(1)] by (simp add: activate_def)
      then have "device_of g' (pc_DeviceID c) = Some (activate token c r)"
        using written(3) granted out update_found [OF granted(1), of "activate token c"]
        by (simp add: device_of_def contents_def)
      then show ?thesis using granted out written hc by (auto simp: device_of_def)
    qed (use written out in simp)
  next
    case (unchanged a)
    then show ?thesis
      by (auto simp: confirm_verdict_def Let_def split: option.splits if_splits)
  qed (use out hc in auto)
qed

lemma Confirm_refused:
  assumes "\<And>r. device_of g (pc_DeviceID c) = Some r \<Longrightarrow> \<not> live_pending r \<or>
      dr_PairingCodeFingerprint r \<noteq> Fingerprint (pc_PairingCode c)"
    "Confirm json_size c t1 t2 g = ((token, d, e), g')"
  shows "d = None \<and> e \<noteq> None \<and> same_disk g g'"
  using assms(2)
proof (cases rule: Confirm_mutates)
  case (spent tok h err out)
  have hc: "contents h = contents g" using spent(2) contents_cong [of h g] by (simp add: same_disk_def)
  have "\<exists>x. confirm_verdict tok c (stampAt t1) t2 (contents h) = Refuse x"
    using assms(1)
    by (cases "device_of g (pc_DeviceID c)") (auto simp: confirm_verdict_def hc device_of_def live_pending_def)
  with spent(4) have "out = None" "err \<noteq> None" "same_disk h g'"
    by (auto elim!: mutate_cases)
  then show ?thesis using spent same_disk_trans by (auto split: if_splits)
qed simp_all

text \<open>A credential is granted only against a live pairing: when \<open>Confirm\<close> returns a
  device, the registry held a pending, unexpired record whose code fingerprint is the fingerprint
  of the presented code, and now holds that record active with the fingerprint of exactly the
  returned token, the code cleared; the returned device passes \<open>Device.Validate\<close>, and the only
  error beside it is a missing audit row.\<close>

lemma confirm_grants_live_pairing:
  assumes "plain_tape g" "Confirm json_size c t1 t2 g = ((token, Some d, e), g')"
  shows "\<exists>r r'. device_of g (pc_DeviceID c) = Some r \<and> dr_State r = DevicePending
    \<and> dr_PairingCodeFingerprint r = Fingerprint (pc_PairingCode c) \<and> \<not> expired t2 (dr_PairingExpiresAt r)
    \<and> device_of g' (pc_DeviceID c) = Some r' \<and> dr_State r' = DeviceActive
    \<and> dr_TokenFingerprint r' = Fingerprint token \<and> dr_PairingCodeFingerprint r' = []
    \<and> d = record_device r' \<and> Device_Validate d = None \<and> (e = None \<or> err_is e ErrReceiptNotWritten)"
  using Confirm_granted [OF assms] by (auto simp: live_pending_def activate_def)

text \<open>C10: A pairing code is spent at most once: after a \<open>Confirm\<close> that granted a credential, and
  any operations in between, every further \<open>Confirm\<close> for that device is refused, grants
  nothing and leaves the disk as it was.\<close>

theorem pairing_code_spent_once:
  assumes "sound g" "plain_tape g" "Confirm json_size c t1 t2 g = ((token, Some d, e), g1)"
    "reaches json_size url_parse g1 g2" "pc_DeviceID c' = pc_DeviceID c"
    "Confirm json_size c' t3 t4 g2 = ((token', d', e'), g3)"
  shows "d' = None \<and> e' \<noteq> None \<and> same_disk g2 g3"
proof -
  from Confirm_granted [OF assms(2,3)] obtain r where
    r: "device_of g1 (pc_DeviceID c) = Some (activate token c r)" by blast
  have s: "sound g1" using Confirm_carried [OF assms(3)] assms(1) by blast
  have "\<not> live_pending (activate token c r)" by (simp add: live_pending_def activate_def)
  then obtain r' where "device_of g2 (pc_DeviceID c') = Some r'" "\<not> live_pending r'"
    using device_advances [OF s r assms(4)] live_pending_back assms(5) by auto
  then show ?thesis using Confirm_refused [OF _ assms(6)] by auto
qed

text \<open>A wrong code changes nothing: \<open>Confirm\<close> with a code whose fingerprint is not the stored
  one (or for a device that is not waiting) returns no credential and an error, and the record
  file and the audit log are byte for byte what they were.\<close>

lemma wrong_code_changes_nothing:
  assumes "device_of g (pc_DeviceID c) = Some r"
    "dr_PairingCodeFingerprint r \<noteq> Fingerprint (pc_PairingCode c)"
    "Confirm json_size c t1 t2 g = ((token, d, e), g')"
  shows "d = None \<and> e \<noteq> None \<and> rg_file g' = rg_file g \<and> rg_rows g' = rg_rows g"
  using Confirm_refused [OF _ assms(3)] assms(1,2) by (auto simp: same_disk_def)

subsection \<open>A concrete confirmation\<close>

definition confirm_example :: pairing_confirmation where
  "confirm_example = \<lparr>hd_Schema = ''mora.companion.pairing.confirmation'', hd_SchemaVersion = 1,
     pc_DeviceID = ''dev_p'', pc_PairingCode = ''code'', pc_Label = ''mac'', pc_Platform = ''macos'',
     pc_PublicKey = ''ed25519:AAECAwQFBgcICQoLDA0ODxAREhMUFRYXGBkaGxwdHh8='', pc_ConfirmedAt = example_stamp\<rparr>"

lemma example_key: "validatePublicKey f ''ed25519:AAECAwQFBgcICQoLDA0ODxAREhMUFRYXGBkaGxwdHh8='' = None"
  by code_simp

lemma confirm_example_valid: "PairingConfirmation_Validate (confirm_example\<lparr>pc_PairingCode := code\<rparr>) = None
    \<longleftrightarrow> code \<noteq> [] \<and> length code \<le> 128"
  by (simp add: PairingConfirmation_Validate_def confirm_example_def header_validate_def SchemaVersion_def
      example_id_ok validateText_def MaxIdempotencyKeyBytes_def MaxLabelBytes_def vocabulary_def example_key
      example_stamp_def errf_def)

lemma pending_fields: "dr_State pending_example = DevicePending"
  "dr_PairingCodeFingerprint pending_example = Fingerprint ''code''"
  "dr_PairingExpiresAt pending_example = stampAt 600000000000" "live_pending pending_example"
  by (simp_all add: pending_example_def new_record_def live_pending_def)

lemma expired_stamp: "in_years t \<Longrightarrow> expired now (stampAt t) \<longleftrightarrow> truncate_second t \<le> now"
  by (auto simp: expired_def stampAt_def parse_format)

lemma activate_example_valid: "Device_Validate (record_device (activate token confirm_example pending_example)) = None"
  using example_records(2)
  by (simp add: record_ok_def Device_Validate_None activate_def confirm_example_def pending_example_def
      new_record_def validateOptionalFingerprint_def device_states validateText_def MaxLabelBytes_def vocabulary_def)

lemma confirm_example_verdict:
  "confirm_verdict token confirm_example now 0 (contents registry_example) =
     Change ((contents registry_example)\<lparr>rf_Devices := [revoked_example, activate token confirm_example pending_example, active_example]\<rparr>)
       \<lparr>au_Event = ''confirmed'', au_DeviceID = ''dev_p'', au_At = now\<rparr>
       (Some (record_device (activate token confirm_example pending_example)), False)"
proof -
  have "\<not> expired 0 (stampAt 600000000000)"
    by (simp add: expired_stamp truncate_second_def second_def)
  then show ?thesis using pending_fields activate_example_valid [of token]
    by (simp add: confirm_verdict_def confirm_example_def)
qed

lemma newSecret_example: "\<exists>h. newSecret tokenEntropyBytes (registry_example\<lparr>rg_tape := tape\<rparr>) = (Inr (base32_string (replicate 32 7)), h)
    \<and> h = registry_example\<lparr>rg_tape := tape, rg_entropy := replicate 32 7\<rparr>"
  by (simp add: newSecret_def read_full_def registry_example_def tokenEntropyBytes_def)

lemma Confirm_example: "\<exists>token d g'. Confirm (\<lambda>_. 100) confirm_example 0 0 registry_example = ((token, Some d, None), g')"
proof -
  let ?h = "registry_example\<lparr>rg_entropy := replicate 32 7\<rparr>"
  have c: "contents ?h = contents registry_example" by (rule contents_cong) simp
  have "sound ?h" using example_sound by (simp add: sound_def c)
  then have l: "load None ?h = Inr (contents registry_example)" using sound_load c by metis
  have "registry_example\<lparr>rg_tape := []\<rparr> = registry_example" by (simp add: registry_example_def)
  then have n: "newSecret tokenEntropyBytes registry_example = (Inr (base32_string (replicate 32 7)), ?h)"
    using newSecret_example [of "[]"] by simp
  have t: "rg_tape ?h = []" by (simp add: registry_example_def)
  have v: "PairingConfirmation_Validate confirm_example = None"
    using confirm_example_valid [of "''code''"] by (simp add: confirm_example_def)
  show ?thesis unfolding Confirm_def v option.case n prod.case sum.case
    by (subst mutate_works [OF l t]) (simp_all add: confirm_example_verdict MaxRegistryBytes_def del: example_contents)
qed

lemma confirm_grants_live_pairing_witness:
  "\<exists>r. device_of registry_example ''dev_p'' = Some r \<and> dr_State r = DevicePending"
proof -
  obtain token d g' where "Confirm (\<lambda>_. 100) confirm_example 0 0 registry_example = ((token, Some d, None), g')"
    using Confirm_example by blast
  from confirm_grants_live_pairing [OF _ this] show ?thesis
    by (auto simp: plain_tape_def registry_example_def confirm_example_def)
qed

theorem pairing_code_spent_once_witness:
  "\<exists>g1 token' e' g3. Confirm (\<lambda>_. 100) confirm_example 0 0 g1 = ((token', None, Some e'), g3) \<and> same_disk g1 g3"
proof -
  obtain token d g1 where c: "Confirm (\<lambda>_. 100) confirm_example 0 0 registry_example = ((token, Some d, None), g1)"
    using Confirm_example by blast
  have p: "plain_tape registry_example" by (simp add: plain_tape_def registry_example_def)
  obtain token' d' e' g3 where c2: "Confirm (\<lambda>_. 100) confirm_example 0 0 g1 = ((token', d', e'), g3)"
    using result_parts by meson
  from pairing_code_spent_once [OF example_sound p c reaches_refl [of "\<lambda>_. 100" "\<lambda>_. None"] refl c2]
  show ?thesis using c2 by auto
qed

lemma wrong_code_changes_nothing_witness:
  "\<exists>token e g'. Confirm (\<lambda>_. 100) (confirm_example\<lparr>pc_DeviceID := ''dev_a''\<rparr>) 0 0 registry_example
      = ((token, None, Some e), g') \<and> rg_file g' = rg_file registry_example"
proof -
  let ?g = registry_example
  let ?c = "confirm_example\<lparr>pc_DeviceID := ''dev_a''\<rparr>"
  have d: "device_of ?g (pc_DeviceID ?c) = Some active_example"
    by simp
  obtain token d e g' where c: "Confirm (\<lambda>_. 100) ?c 0 0 ?g = ((token, d, e), g')"
    using result_parts by meson
  have "dr_PairingCodeFingerprint active_example \<noteq> Fingerprint (pc_PairingCode ?c)"
    by (simp add: active_example_def Fingerprint_nonempty [symmetric])
  from wrong_code_changes_nothing [OF d this c] c show ?thesis by auto
qed

subsection \<open>Late codes and late failures\<close>

text \<open>A code that is right but late is burned, not merely refused: with a disk that works,
  \<open>Confirm\<close> answers \<open>ErrPairingExpired\<close>, mints nothing, and the device stays pending with its
  code cleared, so that no later clock reading makes the code work.\<close>

lemma late_code_is_burned:
  assumes "sound g" "rg_tape g = []" "tokenEntropyBytes \<le> length (rg_entropy g)"
    "device_of g (pc_DeviceID c) = Some r" "live_pending r"
    "dr_PairingCodeFingerprint r = Fingerprint (pc_PairingCode c)" "expired t2 (dr_PairingExpiresAt r)"
    "PairingConfirmation_Validate c = None" "\<And>f. json_size f \<le> MaxRegistryBytes"
  shows "\<exists>g'. Confirm json_size c t1 t2 g = (([], None, Some ErrPairingExpired), g')
    \<and> device_of g' (pc_DeviceID c) = Some (r\<lparr>dr_PairingCodeFingerprint := []\<rparr>)"
proof -
  obtain token h where n: "newSecret tokenEntropyBytes g = (Inr token, h)" and h: "rg_file h = rg_file g"
    "rg_tape h = []"
    using assms(2,3) by (auto simp: newSecret_def read_full_def)
  have c: "contents h = contents g" using h contents_cong by blast
  have l: "load None h = Inr (contents h)" using sound_load [OF assms(1)] h c by (simp add: load_def)
  let ?burn = "\<lambda>r. r\<lparr>dr_PairingCodeFingerprint := []\<rparr>"
  have f: "find_device (pc_DeviceID c) (rf_Devices (contents h)) = Some r"
    using assms(4) c by (simp add: device_of_def)
  have v: "confirm_verdict token c (stampAt t1) t2 (contents h) = Change
      ((contents h)\<lparr>rf_Devices := update_device (pc_DeviceID c) ?burn (rf_Devices (contents h))\<rparr>)
      \<lparr>au_Event = ''expired'', au_DeviceID = pc_DeviceID c, au_At = stampAt t1\<rparr> (None, True)"
    using f assms(5-7) by (simp add: confirm_verdict_def live_pending_def)
  have u: "find_device (pc_DeviceID c) (update_device (pc_DeviceID c) ?burn (rf_Devices (contents h))) = Some (?burn r)"
    using find_device_in [OF f] by (intro update_found [OF f]) simp
  show ?thesis
    unfolding Confirm_def assms(8) option.case n prod.case sum.case
    by (subst mutate_works [OF l h(2) assms(9)]) (use u in \<open>simp add: v device_of_def\<close>)
qed

lemma mutate_write_fault:
  assumes "load None g = Inr f" "rg_tape g = [io_ok\<lparr>io_write := WrittenThen x\<rparr>]"
    "fn f = Change f' row a" "json_size (f'\<lparr>rf_Version := registryFileVersion\<rparr>) \<le> MaxRegistryBytes"
  shows "mutate json_size fn g = (Some x, Some a, g\<lparr>rg_tape := [],
      rg_file := Some (f'\<lparr>rf_Version := registryFileVersion\<rparr>, json_size (f'\<lparr>rf_Version := registryFileVersion\<rparr>))\<rparr>)"
proof -
  have "load None (g\<lparr>rg_tape := []\<rparr>) = Inr f" using assms(1) by (simp add: load_def)
  then show ?thesis using assms
    by (simp add: mutate_def next_io_def io_ok_def commit_file_def Let_def)
qed

text \<open>A fault this protocol does not survive: when the record file has been renamed into
  place and the directory sync or the mode check after the rename fails, \<open>Confirm\<close> returns the
  plain error and no token, although the device is already active on disk under the fingerprint
  of the token it has just discarded. By the one-use rule no later \<open>Confirm\<close> can mint
  another: the credential is held by nobody.\<close>

lemma late_write_fault_strands_credential:
  assumes "sound g" "rg_tape g = [io_ok\<lparr>io_write := WrittenThen x\<rparr>]" "\<not> errors_is x ErrReceiptNotWritten"
    "device_of g (pc_DeviceID c) = Some r" "live_pending r"
    "dr_PairingCodeFingerprint r = Fingerprint (pc_PairingCode c)" "\<not> expired t2 (dr_PairingExpiresAt r)"
    "PairingConfirmation_Validate c = None" "newSecret tokenEntropyBytes g = (Inr token, h)"
    "Device_Validate (record_device (activate token c r)) = None" "\<And>f. json_size f \<le> MaxRegistryBytes"
  shows "\<exists>g' r'. Confirm json_size c t1 t2 g = (([], None, Some x), g')
    \<and> device_of g' (pc_DeviceID c) = Some r' \<and> dr_State r' = DeviceActive
    \<and> dr_TokenFingerprint r' = Fingerprint token \<and> \<not> live_pending r'"
proof -
  have h: "rg_file h = rg_file g" "rg_tape h = rg_tape g" using newSecret_disk [OF assms(9)] by (auto simp: same_disk_def)
  have c: "contents h = contents g" using h contents_cong by blast
  have l: "load None h = Inr (contents h)" using sound_load [OF assms(1)] h c by (simp add: load_def)
  have f: "find_device (pc_DeviceID c) (rf_Devices (contents h)) = Some r"
    using assms(4) c by (simp add: device_of_def)
  have v: "confirm_verdict token c (stampAt t1) t2 (contents h) = Change
      ((contents h)\<lparr>rf_Devices := update_device (pc_DeviceID c) (activate token c) (rf_Devices (contents h))\<rparr>)
      \<lparr>au_Event = ''confirmed'', au_DeviceID = pc_DeviceID c, au_At = stampAt t1\<rparr>
      (Some (record_device (activate token c r)), False)"
    using f assms(5-7,10) by (simp add: confirm_verdict_def live_pending_def)
  have u: "find_device (pc_DeviceID c) (update_device (pc_DeviceID c) (activate token c) (rf_Devices (contents h)))
      = Some (activate token c r)"
    using find_device_in [OF f] by (intro update_found [OF f]) (simp add: activate_def)
  show ?thesis
    unfolding Confirm_def assms(8) option.case assms(9) prod.case sum.case
    by (subst mutate_write_fault [where fn = "confirm_verdict token c (stampAt t1) t2", OF l h(2) [unfolded assms(2)] v assms(11)])
      (use u assms(3) in \<open>simp add: device_of_def activate_def live_pending_def\<close>)
qed

lemma late_example: "expired 600000000000 (dr_PairingExpiresAt pending_example)"
  "\<not> expired 0 (dr_PairingExpiresAt pending_example)"
  by (simp_all add: pending_fields expired_stamp truncate_second_def second_def)

lemma confirm_example_fields: "pc_DeviceID confirm_example = ''dev_p''" "pc_PairingCode confirm_example = ''code''"
  "PairingConfirmation_Validate confirm_example = None"
  using confirm_example_valid [of "''code''"] by (simp_all add: confirm_example_def)

lemma late_code_is_burned_witness:
  "\<exists>g'. Confirm (\<lambda>_. 100) confirm_example 0 600000000000 registry_example = (([], None, Some ErrPairingExpired), g')"
proof -
  have "rg_tape registry_example = []" "tokenEntropyBytes \<le> length (rg_entropy registry_example)"
    by (simp_all add: registry_example_def tokenEntropyBytes_def)
  moreover have "100 \<le> MaxRegistryBytes" by (simp add: MaxRegistryBytes_def)
  ultimately show ?thesis
    using late_code_is_burned [OF example_sound, of confirm_example pending_example 600000000000 "\<lambda>_. 100" 0]
      late_example(1) by (simp add: confirm_example_fields pending_fields) blast
qed

lemma late_write_fault_strands_credential_witness:
  "\<exists>g'. Confirm (\<lambda>_. 100) confirm_example 0 0
      (registry_example\<lparr>rg_tape := [io_ok\<lparr>io_write := WrittenThen (OtherError ''sync'')\<rparr>]\<rparr>)
    = (([], None, Some (OtherError ''sync'')), g')"
proof -
  let ?tape = "[io_ok\<lparr>io_write := WrittenThen (OtherError ''sync'')\<rparr>]"
  let ?g = "registry_example\<lparr>rg_tape := ?tape\<rparr>"
  have s: "sound ?g" using example_sound by (simp add: sound_def)
  obtain token h where n: "newSecret tokenEntropyBytes ?g = (Inr token, h)" using newSecret_example by blast
  have d: "device_of ?g ''dev_p'' = Some pending_example"
    using device_example(2) by (simp add: device_of_def)
  have "100 \<le> MaxRegistryBytes" by (simp add: MaxRegistryBytes_def)
  with late_write_fault_strands_credential [OF s, of "OtherError ''sync''" confirm_example pending_example 0 token h
      "\<lambda>_. 100" 0] d n late_example(2) activate_example_valid [of token]
  show ?thesis by (auto simp: confirm_example_fields pending_fields)
qed

end
