(* ===== verification/RegistryAdmin.thy ===== *)
theory RegistryAdmin
  imports ConfirmClaims
begin

text \<open>
  The administrative side of the registry: what \<open>Pair\<close> hands out, what \<open>Revoke\<close> leaves
  behind, that the audit log is truthful, and what \<open>Status\<close> and \<open>List\<close> report.
\<close>

subsection \<open>The audit log\<close>

text \<open>The audit log is append-only and never lies: in every reachable state each row names a
  device the record file holds; the device of a \<open>revoked\<close> row is revoked at exactly the row's
  stamp, that of a \<open>confirmed\<close> row has left the pending state, and that of an \<open>expired\<close> row
  holds no code.\<close>

lemma audit_rows_truthful:
  assumes "sound g" "reaches json_size url_parse g g'" "row \<in> set (rg_rows g')"
  shows "(\<exists>r. device_of g' (au_DeviceID row) = Some r
      \<and> (au_Event row = ''revoked'' \<longrightarrow> dr_State r = DeviceRevoked \<and> dr_RevokedAt r = au_At row)
      \<and> (au_Event row = ''confirmed'' \<longrightarrow> dr_State r \<noteq> DevicePending)
      \<and> (au_Event row = ''expired'' \<longrightarrow> dr_PairingCodeFingerprint r = []))
    \<and> (\<exists>rows. rg_rows g' = rg_rows g @ rows)"
proof -
  have s: "sound g'" and f: "forward g g'" using reaches_carried [OF assms(2)] assms(1) by blast+
  then obtain r where r: "r \<in> set (rf_Devices (contents g'))" "row_shows row r"
    using assms(3) by (auto simp: sound_def list_all_iff row_meaning_def list_ex_iff)
  then have "device_of g' (au_DeviceID row) = Some r"
    using s by (simp add: device_of_iff row_shows_def)
  with r(2) f show ?thesis
    by (auto simp: row_shows_def state_rank_def forward_def split: if_splits)
qed

lemma audit_rows_truthful_witness:
  "\<exists>r. device_of registry_example ''dev_p'' = Some r"
proof -
  have row: "\<lparr>au_Event = ''paired'', au_DeviceID = ''dev_p'', au_At = example_stamp\<rparr> \<in> set (rg_rows registry_example)"
    by (simp add: registry_example_def)
  from audit_rows_truthful [OF example_sound reaches_refl [of "\<lambda>_. 0" "\<lambda>_. None"] row]
  show ?thesis by auto
qed

subsection \<open>Revoke\<close>

text \<open>When \<open>Revoke\<close> returns a device, the record file holds it revoked with its pairing code
  and expiry cleared, the returned view is that record, \<open>changed\<close> tells whether this call did
  it, and revoking a revoked device touches neither the file nor the audit log.\<close>

lemma revoke_takes_effect:
  assumes "sound g" "plain_tape g" "Revoke json_size did t g = ((Some d, changed, e), g')"
  shows "\<exists>r r'. device_of g did = Some r \<and> device_of g' did = Some r' \<and> dr_State r' = DeviceRevoked
    \<and> dr_PairingCodeFingerprint r' = [] \<and> dr_PairingExpiresAt r' = [] \<and> d = record_device r'
    \<and> (changed \<longleftrightarrow> dr_State r \<noteq> DeviceRevoked) \<and> (\<not> changed \<longrightarrow> same_disk g g' \<and> e = None)"
proof -
  obtain err out h where mu: "mutate json_size (revoke_verdict did (stampAt t)) g = (err, out, h)"
    by (metis prod_cases3)
  have v: "validateID ''device_id'' PrefixDevice did = None"
    using assms(3) by (cases "validateID ''device_id'' PrefixDevice did") (simp_all add: Revoke_def)
  from assms(3) have "out = Some (d, changed) \<and> h = g' \<and> e = err \<and> (err = None \<or> err_is err ErrReceiptNotWritten)"
    unfolding Revoke_def v option.case mu prod.case by (cases out) (simp_all split: if_splits prod.splits)
  then have m: "mutate json_size (revoke_verdict did (stampAt t)) g = (err, Some (d, changed), g')"
    and err: "err = None \<or> err_is err ErrReceiptNotWritten" and e: "e = err"
    using mu by simp_all
  from m show ?thesis
  proof (cases rule: mutate_cases)
    case (unchanged a)
    then obtain r where "device_of g did = Some r" "dr_State r = DeviceRevoked" "d = record_device r" "\<not> changed"
      by (auto simp: revoke_verdict_def device_of_def Let_def split: option.splits if_splits)
    moreover have "device_of g' did = device_of g did" using unchanged same_disk_device by simp
    ultimately show ?thesis
      using device_of_ok [OF assms(1)] unchanged e by (auto simp: record_ok_def)
  next
    case (unwritten f row a)
    then show ?thesis using err assms(2) by auto
  next
    case (written f row a)
    then obtain r where r: "find_device did (rf_Devices (contents g)) = Some r" "dr_State r \<noteq> DeviceRevoked"
      and f: "f = (contents g)\<lparr>rf_Devices := update_device did (retire (stampAt t)) (rf_Devices (contents g))\<rparr>"
      and d: "d = record_device (retire (stampAt t) r)" "changed"
      by (auto simp: revoke_verdict_def Let_def split: option.splits if_splits)
    have "find_device did (update_device did (retire (stampAt t)) (rf_Devices (contents g))) = Some (retire (stampAt t) r)"
      using find_device_in [OF r(1)] by (intro update_found [OF r(1)]) (simp add: retire_def)
    then have "device_of g' did = Some (retire (stampAt t) r)"
      using written(3) f by (simp add: device_of_def contents_def)
    then show ?thesis using r d by (simp add: device_of_def retire_def)
  qed simp
qed

lemma revoke_takes_effect_witness:
  "\<exists>d e g'. Revoke (\<lambda>_. 100) ''dev_r'' 0 registry_example = ((Some d, False, e), g') \<and> same_disk registry_example g'"
proof -
  have v: "revoke_verdict ''dev_r'' (stampAt 0) (contents registry_example) = NoChange (record_device revoked_example, False)"
    by (simp add: revoke_verdict_def revoked_example_def active_example_def)
  have "rg_tape registry_example = []" by (simp add: registry_example_def)
  from mutate_works [OF sound_load [OF example_sound] this, of "revoke_verdict ''dev_r'' (stampAt 0)" "\<lambda>_. 100"] v
  have m: "Revoke (\<lambda>_. 100) ''dev_r'' 0 registry_example = ((Some (record_device revoked_example), False, None), registry_example)"
    by (simp add: Revoke_def example_id_ok MaxRegistryBytes_def del: example_contents)
  have "plain_tape registry_example" by (simp add: plain_tape_def registry_example_def)
  from revoke_takes_effect [OF example_sound this m] m show ?thesis by auto
qed

subsection \<open>Pair\<close>

lemma plain_read_full: "read_full n g = (x, h) \<Longrightarrow> plain_tape h = plain_tape g"
  using read_full_disk by (auto simp: plain_tape_def)

lemma plain_newDeviceID: "newDeviceID t g = (x, h) \<Longrightarrow> plain_tape h = plain_tape g"
  by (auto simp: newDeviceID_def split: prod.splits sum.splits dest!: plain_read_full)

lemma plain_HostFingerprint: "HostFingerprint g = (x, h) \<Longrightarrow> plain_tape g \<Longrightarrow> plain_tape h"
proof -
  have m: "plain_tape (g\<lparr>rg_seed := s\<rparr>) = plain_tape g" for g s by (simp add: plain_tape_def)
  show "HostFingerprint g = (x, h) \<Longrightarrow> plain_tape g \<Longrightarrow> plain_tape h"
    unfolding HostFingerprint_def
    by (auto simp: Let_def m split: prod.splits sum.splits option.splits if_splits
        dest!: plain_tape_next plain_read_full)
qed

text \<open>What \<open>Pair\<close> hands out is what it stored: a returned payload passes its own \<open>Validate\<close>,
  its device id was new, and the record file holds that device pending, with the fingerprint of
  the code in the payload, the payload's expiry, an unspent guess budget and no token.\<close>

lemma pair_stores_what_it_hands_out:
  assumes "plain_tape g" "Pair json_size url_parse label platform endpoint t0 t1 t2 g = (e, Some p, g')"
  shows "PairingPayload_Validate url_parse p = None \<and> device_of g (pp_DeviceID p) = None
    \<and> (\<exists>r. device_of g' (pp_DeviceID p) = Some r \<and> dr_State r = DevicePending
        \<and> dr_PairingCodeFingerprint r = Fingerprint (pp_PairingCode p)
        \<and> dr_PairingExpiresAt r = pp_ExpiresAt p \<and> dr_PairingAttempts r = 0 \<and> dr_TokenFingerprint r = [])"
proof -
  obtain host g1 did g2 code g3 where
      s: "HostFingerprint g = (Inr host, g1)" "newDeviceID t0 g1 = (Inr did, g2)"
      "newSecret pairingCodeEntropyBytes g2 = (Inr code, g3)"
      and r: "register_pending json_size url_parse label platform endpoint t1 t2 host did code g3 = (e, Some p, g')"
    using assms(2) unfolding Pair_def by (auto split: option.splits prod.splits sum.splits)
  have d: "same_disk g g3"
    using s HostFingerprint_disk newDeviceID_disk newSecret_disk same_disk_trans by meson
  then have c: "contents g3 = contents g" using contents_cong [of g3 g] by (simp add: same_disk_def)
  have pl: "plain_tape g3"
    using s assms(1) plain_HostFingerprint plain_newDeviceID plain_newSecret by metis
  let ?rec = "new_record did label platform code (stampAt (t2 + PairingTTL)) (stampAt t1)"
  obtain out where m: "mutate json_size (pair_verdict ?rec (stampAt t1)) g3 = (e, out, g')"
    and v: "PairingPayload_Validate url_parse p = None" and p: "pp_DeviceID p = did" "pp_PairingCode p = code"
      "pp_ExpiresAt p = stampAt (t2 + PairingTTL)"
    and e: "e = None \<or> err_is e ErrReceiptNotWritten"
    using r by (auto simp: register_pending_def Let_def split: option.splits prod.splits if_splits)
  from m show ?thesis
  proof (cases rule: mutate_cases)
    case refused
    then have "\<exists>x. pair_verdict ?rec (stampAt t1) (contents g3) = Refuse x \<and> e = Some x" "err_is e ErrReceiptNotWritten"
      using e pl by auto
    then show ?thesis by (auto simp: pair_verdict_def split: if_splits)
  next
    case (unchanged a)
    then show ?thesis by (auto simp: pair_verdict_def split: if_splits)
  next
    case (unwritten f row a)
    then show ?thesis using e pl by auto
  next
    case (written f row a)
    have id: "dr_DeviceID ?rec = did" by (simp add: new_record_def)
    have n: "find_device did (rf_Devices (contents g)) = None"
      and f: "f = (contents g)\<lparr>rf_Devices := rf_Devices (contents g) @ [?rec]\<rparr>"
      using written(1) id c by (auto simp: pair_verdict_def split: if_splits)
    have "find_device did (rs @ [?rec]) = Some ?rec" if "find_device did rs = None" for rs
      using that id by (induction rs) (auto split: if_splits)
    then have "device_of g' did = Some ?rec"
      using n f written(3) by (simp add: device_of_def contents_def)
    then show ?thesis using v p n by (simp add: device_of_def new_record_def)
  qed
qed
definition fresh_example :: registry where
  "fresh_example = \<lparr>rg_file = None, rg_rows = [], rg_marks = {}, rg_seed = Some (replicate 32 CHR ''s''),
     rg_entropy = replicate 24 7, rg_tape = []\<rparr>"

definition example_url :: url_parser where
  "example_url raw = Some (''https'', False, ''mora.local'')"

lemma fresh_sound: "sound fresh_example"
  by (simp add: sound_def fresh_example_def contents_def empty_file_def registry_ok_def)

lemma fresh_id: "PrefixDevice @ format_compact 0 @ ''_'' @ hex_string (replicate 4 7) = ''dev_19700101_000000_07070707''"
  by code_simp

lemma fresh_id_ok: "validateID f ''dev_'' ''dev_19700101_000000_07070707'' = None"
  by code_simp

lemma fresh_code: "length (base32_string (replicate 20 7)) = 32"
  by (simp add: base32_string_def Let_def)

lemma Pair_example:
  "\<exists>p g'. Pair (\<lambda>_. 100) example_url ''phone'' ''ios'' ''https://mora.local'' 0 0 0 fresh_example = (None, Some p, g')"
proof -
  let ?did = "''dev_19700101_000000_07070707''"
  let ?h = "fresh_example\<lparr>rg_entropy := []\<rparr>"
  let ?code = "base32_string (replicate 20 7)"
  have host: "HostFingerprint fresh_example = (Inr (Fingerprint (replicate 32 CHR ''s'')), fresh_example)"
    by (simp add: HostFingerprint_def next_io_def fresh_example_def readHostSeed_def io_ok_def tokenEntropyBytes_def)
  have did: "newDeviceID 0 fresh_example = (Inr ?did, fresh_example\<lparr>rg_entropy := replicate 20 7\<rparr>)"
    using fresh_id by (simp add: newDeviceID_def read_full_def fresh_example_def deviceIDEntropyBytes_def)
  have code: "newSecret pairingCodeEntropyBytes (fresh_example\<lparr>rg_entropy := replicate 20 7\<rparr>) = (Inr ?code, ?h)"
    by (simp add: newSecret_def read_full_def fresh_example_def pairingCodeEntropyBytes_def)
  have checks: "pair_checks example_url ''phone'' ''ios'' ''https://mora.local'' = None"
    by (simp add: pair_checks_def validateText_def MaxLabelBytes_def vocabulary_def validateEndpoint_def
        example_url_def MaxDeepLinkBytes_def)
  have code_ne: "?code \<noteq> []" using fresh_code by (metis length_0_conv zero_neq_numeral)
  have y: "in_years PairingTTL" by code_simp
  have rec: "record_ok (new_record ?did ''phone'' ''ios'' ?code (stampAt PairingTTL) (stampAt 0))"
    by (simp add: record_ok_def new_record_def Device_Validate_None fresh_id_ok validateText_def MaxLabelBytes_def
        vocabulary_def validateOptionalFingerprint_def validateOptionalTimestamp_def y)
  have sz: "load None ?h = Inr empty_file" "rg_tape ?h = []"
    by (simp_all add: load_def fresh_example_def empty_file_def)
  show ?thesis
    unfolding Pair_def checks option.case host prod.case sum.case did code register_pending_def Let_def
    using code_ne fresh_code rec
    by (subst mutate_works [OF sz])
      (simp_all add: PairingPayload_Validate_def header_validate_def fresh_id_ok validateText_def
        MaxDeepLinkBytes_def validateEndpoint_def example_url_def MaxIdempotencyKeyBytes_def SchemaVersion_def
        record_ok_def y pair_verdict_def empty_file_def MaxDevices_def MaxRegistryBytes_def)
qed

lemma pair_stores_what_it_hands_out_witness:
  "\<exists>p g'. device_of g' (pp_DeviceID p) \<noteq> None \<and> PairingPayload_Validate example_url p = None"
proof -
  obtain p g' where p: "Pair (\<lambda>_. 100) example_url ''phone'' ''ios'' ''https://mora.local'' 0 0 0 fresh_example
      = (None, Some p, g')" using Pair_example by blast
  have "plain_tape fresh_example" by (simp add: plain_tape_def fresh_example_def)
  from pair_stores_what_it_hands_out [OF this p] show ?thesis by auto
qed

end
