(* ===== verification/RegistryReads.thy ===== *)
theory RegistryReads
  imports RegistryAdmin "HOL-Library.Multiset"
begin

text \<open>
  What \<open>Status\<close> and \<open>List\<close> report: the counters add up, the earliest open pairing is the
  earliest in time, and the listing is the registry in the order the devices were created.
\<close>

definition in_state :: "string \<Rightarrow> device_record list \<Rightarrow> nat" where
  "in_state s rs = length (filter (\<lambda>r. dr_State r = s) rs)"

definition pairing_open :: "instant \<Rightarrow> device_record \<Rightarrow> bool" where
  "pairing_open now r \<longleftrightarrow> dr_State r = DevicePending \<and> dr_PairingExpiresAt r \<noteq> []
     \<and> \<not> expired now (dr_PairingExpiresAt r)"

definition earlier :: "string \<Rightarrow> string \<Rightarrow> string" where
  \<comment> \<open>the choice \<open>Status\<close> makes at each open pairing\<close>
  "earlier a b = (if a = [] \<or> b < a then b else a)"

lemma count_device_fields:
  "st_Active (count_device now s r) = st_Active s + (if dr_State r = DeviceActive then 1 else 0)"
  "st_Pending (count_device now s r) = st_Pending s + (if dr_State r = DevicePending then 1 else 0)"
  "st_Revoked (count_device now s r) = st_Revoked s + (if dr_State r = DeviceRevoked then 1 else 0)"
  "st_PendingDevices (count_device now s r) = st_PendingDevices s @ (if pairing_open now r then [dr_DeviceID r] else [])"
  "st_PairingOpen (count_device now s r) = (st_PairingOpen s \<or> pairing_open now r)"
  "st_NextPairingExpiry (count_device now s r) = (if pairing_open now r
     then earlier (st_NextPairingExpiry s) (dr_PairingExpiresAt r) else st_NextPairingExpiry s)"
  by (simp_all add: count_device_def pairing_open_def earlier_def Let_def)

lemma status_fold:
  "st_Active (foldl (count_device now) s rs) = st_Active s + in_state DeviceActive rs"
  "st_Pending (foldl (count_device now) s rs) = st_Pending s + in_state DevicePending rs"
  "st_Revoked (foldl (count_device now) s rs) = st_Revoked s + in_state DeviceRevoked rs"
  "st_PendingDevices (foldl (count_device now) s rs)
     = st_PendingDevices s @ map dr_DeviceID (filter (pairing_open now) rs)"
  "st_PairingOpen (foldl (count_device now) s rs) = (st_PairingOpen s \<or> list_ex (pairing_open now) rs)"
  "st_NextPairingExpiry (foldl (count_device now) s rs)
     = foldl earlier (st_NextPairingExpiry s) (map dr_PairingExpiresAt (filter (pairing_open now) rs))"
  by (induction rs arbitrary: s) (simp_all add: count_device_fields in_state_def)

lemma foldl_earlier:
  assumes "[] \<notin> set es"
  shows "es \<noteq> [] \<or> a \<noteq> [] \<Longrightarrow> foldl earlier a es \<in> set es \<union> {a} - {[]}
    \<and> (\<forall>e \<in> set es \<union> {a} - {[]}. foldl earlier a es \<le> e)"
  using assms
proof (induction es arbitrary: a)
  case (Cons e es)
  have e: "earlier a e \<noteq> []" "earlier a e \<in> {a, e}" "a \<noteq> [] \<Longrightarrow> earlier a e \<le> a" "earlier a e \<le> e"
    using Cons.prems by (auto simp: earlier_def)
  have "foldl earlier (earlier a e) es \<in> set es \<union> {earlier a e} - {[]}
    \<and> (\<forall>x \<in> set es \<union> {earlier a e} - {[]}. foldl earlier (earlier a e) es \<le> x)"
    using Cons.IH [of "earlier a e"] Cons.prems e(1) by auto
  with e show ?case by (auto intro: order_trans)
qed simp

lemma states_add_up:
  "list_all record_ok rs \<Longrightarrow> in_state DeviceActive rs + in_state DevicePending rs + in_state DeviceRevoked rs = length rs"
  by (induction rs) (auto simp: in_state_def dest: record_ok_state)

lemma open_expiry:
  assumes "record_ok r" "pairing_open now r"
  obtains t where "in_years t" "truncate_second t = t" "dr_PairingExpiresAt r = format_rfc3339 t" "now < t"
proof -
  obtain t where t: "in_years t" "truncate_second t = t" "dr_PairingExpiresAt r = format_rfc3339 t"
    using assms by (auto simp: record_ok_def pairing_open_def validateOptionalTimestamp_def validateTimestamp_None)
  then have "now < t" using assms(2) by (auto simp: pairing_open_def expired_def parse_format)
  with t that show ?thesis by blast
qed

text \<open>\<open>Status\<close> reports the registry: the three counters add up to the number of devices, the
  pending list is exactly the devices with an unexpired pairing, in file order, the open flag says
  whether there is one, and the next expiry is the earliest of their deadlines in time, although
  the code compares them as strings.\<close>

lemma status_reports_registry:
  assumes "sound g" "Registry_Status now g = (Inr s, g')"
  shows "st_Active s + st_Pending s + st_Revoked s = length (rf_Devices (contents g))
    \<and> st_PendingDevices s = map dr_DeviceID (filter (pairing_open now) (rf_Devices (contents g)))
    \<and> (st_PairingOpen s \<longleftrightarrow> st_PendingDevices s \<noteq> [])
    \<and> (st_PairingOpen s \<longrightarrow> (\<exists>t. parse_rfc3339 (st_NextPairingExpiry s) = Some t \<and> now < t
        \<and> (\<forall>r \<in> set (rf_Devices (contents g)). pairing_open now r \<longrightarrow>
             (\<exists>u. parse_rfc3339 (dr_PairingExpiresAt r) = Some u \<and> t \<le> u))))"
proof -
  obtain i g1 where n: "next_io g = (i, g1)" by force
  obtain f where f: "load (io_load i) g1 = Inr f"
    using assms(2) n by (auto simp: Registry_Status_def split: sum.splits)
  have fc: "f = contents g" using load_contents [OF f] next_io_disk [OF n] contents_cong [of g1 g]
    by (simp add: same_disk_def)
  let ?rs = "rf_Devices (contents g)"
  let ?open = "filter (pairing_open now) ?rs"
  have ok: "list_all record_ok ?rs" using assms(1) by (simp add: sound_def registry_ok_def)
  have s: "st_Active s = in_state DeviceActive ?rs" "st_Pending s = in_state DevicePending ?rs"
    "st_Revoked s = in_state DeviceRevoked ?rs" "st_PendingDevices s = map dr_DeviceID ?open"
    "st_PairingOpen s \<longleftrightarrow> ?open \<noteq> []" "st_NextPairingExpiry s = foldl earlier [] (map dr_PairingExpiresAt ?open)"
    using assms(2) n f fc
    by (auto simp: Registry_Status_def status_fold list_ex_iff filter_empty_conv)
  have "\<exists>t. parse_rfc3339 (st_NextPairingExpiry s) = Some t \<and> now < t
      \<and> (\<forall>r \<in> set ?rs. pairing_open now r \<longrightarrow> (\<exists>u. parse_rfc3339 (dr_PairingExpiresAt r) = Some u \<and> t \<le> u))"
    if "?open \<noteq> []"
  proof -
    have "[] \<notin> set (map dr_PairingExpiresAt ?open)" by (auto simp: pairing_open_def)
    from foldl_earlier [OF this, of "[]"] that obtain q where
      q: "q \<in> set ?rs" "pairing_open now q" "st_NextPairingExpiry s = dr_PairingExpiresAt q"
      and least: "\<And>r. r \<in> set ?rs \<Longrightarrow> pairing_open now r \<Longrightarrow> st_NextPairingExpiry s \<le> dr_PairingExpiresAt r"
      unfolding s(6) by (auto simp: pairing_open_def)
    obtain t where t: "in_years t" "truncate_second t = t" "dr_PairingExpiresAt q = format_rfc3339 t" "now < t"
      using open_expiry [OF _ q(2)] q(1) ok by (metis list_all_iff)
    have "\<exists>u. parse_rfc3339 (dr_PairingExpiresAt r) = Some u \<and> t \<le> u"
      if r: "r \<in> set ?rs" "pairing_open now r" for r
    proof -
      obtain u where u: "in_years u" "truncate_second u = u" "dr_PairingExpiresAt r = format_rfc3339 u"
        using open_expiry [OF _ r(2)] r(1) ok by (metis list_all_iff)
      have "\<not> format_rfc3339 u < format_rfc3339 t" using least [OF r] q(3) t(3) u(3) by simp
      then show ?thesis using t u by (simp add: stamp_order parse_format)
    qed
    then show ?thesis using q(3) t by (auto simp: parse_format)
  qed
  then show ?thesis using s states_add_up [OF ok] by auto
qed

lemma status_example: "\<exists>s g'. Registry_Status 0 registry_example = (Inr s, g') \<and> st_PairingOpen s"
proof -
  have "pairing_open 0 pending_example"
    using late_example(2) by (simp add: pairing_open_def pending_fields(1)) (simp add: pending_fields(3) stampAt_def)
  then have o: "list_ex (pairing_open 0) (rf_Devices (contents registry_example))" by simp
  have "load None registry_example = Inr (contents registry_example)" by (rule sound_load [OF example_sound])
  then show ?thesis using o
    by (simp add: Registry_Status_def next_io_def registry_example_def io_ok_def status_fold del: example_contents)
qed

lemma status_reports_registry_witness:
  "\<exists>s t g'. Registry_Status 0 registry_example = (Inr s, g') \<and> parse_rfc3339 (st_NextPairingExpiry s) = Some t"
proof -
  obtain s g' where s: "Registry_Status 0 registry_example = (Inr s, g')" "st_PairingOpen s"
    using status_example by blast
  from status_reports_registry [OF example_sound s(1)] s show ?thesis by blast
qed

subsection \<open>List\<close>

text \<open>\<open>List\<close> is the registry, once each and nothing else, and its order is the order in time
  in which the devices were created, ties broken by id, although it sorts the stamps as strings.\<close>

lemma list_in_creation_order:
  assumes "sound g" "ListDevices g = (Inr ds, g')" "i < j" "j < length ds"
  shows "set ds = record_device ` set (rf_Devices (contents g)) \<and> length ds = length (rf_Devices (contents g))
    \<and> distinct (map dv_DeviceID ds)
    \<and> (\<exists>a b. parse_rfc3339 (dv_CreatedAt (ds ! i)) = Some a \<and> parse_rfc3339 (dv_CreatedAt (ds ! j)) = Some b
        \<and> (a < b \<or> a = b \<and> dv_DeviceID (ds ! i) < dv_DeviceID (ds ! j)))"
proof -
  obtain k g1 where n: "next_io g = (k, g1)" by force
  obtain f where f: "load (io_load k) g1 = Inr f"
    using assms(2) n by (auto simp: ListDevices_def split: sum.splits)
  have fc: "f = contents g" using load_contents [OF f] next_io_disk [OF n] contents_cong [of g1 g]
    by (simp add: same_disk_def)
  let ?rs = "rf_Devices (contents g)" and ?key = "\<lambda>d. (dv_CreatedAt d, dv_DeviceID d)"
  have ds: "ds = sort_key ?key (map record_device ?rs)"
    using assms(2) n f fc by (simp add: ListDevices_def)
  have sorted: "sorted (map ?key ds)" by (simp add: ds)
  have set: "set ds = record_device ` set ?rs" and len: "length ds = length ?rs" by (simp_all add: ds)
  have "mset (map dv_DeviceID ds) = mset (map dr_DeviceID ?rs)"
    by (simp add: ds record_device_def multiset.map_comp comp_def)
  then have d: "distinct (map dv_DeviceID ds)"
    using sound_distinct [OF assms(1)] mset_eq_imp_distinct_iff by blast
  have stamp: "\<exists>t. in_years t \<and> truncate_second t = t \<and> dv_CreatedAt (ds ! m) = format_rfc3339 t" if "m < length ds" for m
  proof -
    obtain r where r: "r \<in> set ?rs" "ds ! m = record_device r"
      using \<open>m < length ds\<close> set by (metis image_iff nth_mem)
    then have "record_ok r" using assms(1) by (simp add: sound_def registry_ok_def list_all_iff)
    then have "validateTimestamp ''created_at'' (dr_CreatedAt r) = None"
      by (simp add: record_ok_def Device_Validate_None)
    then show ?thesis using r(2) by (simp add: validateTimestamp_None record_device_def)
  qed
  obtain a where a: "in_years a" "truncate_second a = a" "dv_CreatedAt (ds ! i) = format_rfc3339 a"
    using stamp [of i] assms(3,4) by auto
  obtain b where b: "in_years b" "truncate_second b = b" "dv_CreatedAt (ds ! j) = format_rfc3339 b"
    using stamp [of j] assms(3,4) by auto
  have le: "?key (ds ! i) \<le> ?key (ds ! j)" using sorted_nth_mono [OF sorted, of i j] assms(3,4) by simp
  have "dv_DeviceID (ds ! i) \<noteq> dv_DeviceID (ds ! j)"
    using d assms(3,4) by (auto simp: distinct_conv_nth)
  moreover have "format_rfc3339 a < format_rfc3339 b \<or> format_rfc3339 a \<le> format_rfc3339 b
      \<and> dv_DeviceID (ds ! i) \<le> dv_DeviceID (ds ! j)"
    using le unfolding a(3) b(3) less_eq_prod_def fst_conv snd_conv .
  moreover have "format_rfc3339 a < format_rfc3339 b \<longleftrightarrow> a < b" "format_rfc3339 b < format_rfc3339 a \<longleftrightarrow> b < a"
    using stamp_order [OF a(1) b(1)] stamp_order [OF b(1) a(1)] a(2) b(2) by metis+
  ultimately have "a < b \<or> a = b \<and> dv_DeviceID (ds ! i) < dv_DeviceID (ds ! j)"
    by (metis leD linorder_neqE order_le_less)
  then show ?thesis using set len d a b by (auto simp: parse_format)
qed

lemma list_in_creation_order_witness:
  "\<exists>ds g'. ListDevices registry_example = (Inr ds, g') \<and> length ds = 3 \<and> distinct (map dv_DeviceID ds)"
proof -
  have l: "load None registry_example = Inr (contents registry_example)" by (rule sound_load [OF example_sound])
  have n: "next_io registry_example = (io_ok, registry_example)"
    by (simp add: next_io_def registry_example_def)
  define ds where "ds = sort_key (\<lambda>d. (dv_CreatedAt d, dv_DeviceID d))
      (map record_device (rf_Devices (contents registry_example)))"
  have ds: "ListDevices registry_example = (Inr ds, registry_example)" "length ds = 3"
    using l by (simp_all add: ListDevices_def n io_ok_def ds_def del: example_contents) simp
  from list_in_creation_order [OF example_sound ds(1), of 0 1] ds show ?thesis by auto
qed

end
