(* ===== verification/Envelope.thy ===== *)
theory Envelope
  imports Receipts
begin

text \<open>
  The asynchronous operation envelope, internal/companion/envelope.go: the published state
  machine and its transition check, and the validation of an \<open>Operation\<close>.
\<close>

subsection \<open>The state machine\<close>

definition transitions :: "string \<Rightarrow> string list" where
  "transitions s =
     (if s = StateCaptured then [StateTriaged, StateFailed]
      else if s = StateTriaged then [StateLeased, StateFailed]
      else if s = StateLeased then [StateRunning, StateTriaged, StateFailed]
      else if s = StateRunning then [StateDone, StateNeedsInput, StateFailed, StateTriaged]
      else if s = StateNeedsInput then [StateRunning, StateFailed]
      else [])"

definition IsTerminal :: "string \<Rightarrow> bool" where
  "IsTerminal s \<longleftrightarrow> s = StateDone \<or> s = StateFailed"

definition AwaitsUser :: "string \<Rightarrow> bool" where
  "AwaitsUser s \<longleftrightarrow> s = StateNeedsInput"

definition ValidateTransition :: "string \<Rightarrow> string \<Rightarrow> go_error option" where
  "ValidateTransition frm to = first_err [
     inVocabulary ''operation_state'' frm ''from'',
     inVocabulary ''operation_state'' to ''to'',
     (if frm = to then None
      else if to \<in> set (transitions frm) then None
      else errf CodeInvalidState ''state'')]"

definition NextStates :: "string \<Rightarrow> string list" where
  "NextStates s = transitions s"

subsection \<open>The envelope\<close>

record payload_ref =
  pr_Ref :: string
  pr_Fingerprint :: string
  pr_Bytes :: int
  pr_MediaType :: string

definition PayloadRef_validate :: "payload_ref \<Rightarrow> string \<Rightarrow> go_error option" where
  "PayloadRef_validate p fld = first_err [
     validateText (fld @ ''.ref'') (pr_Ref p) MaxIdempotencyKeyBytes True,
     (if \<not> opaqueRunes (pr_Ref p) then errf CodeInvalidValue (fld @ ''.ref'') else None),
     validateFingerprint (fld @ ''.fingerprint'') (pr_Fingerprint p),
     (if pr_Bytes p < 0 then errf CodeInvalidValue (fld @ ''.bytes'')
      else if int MaxCaptureTextBytes < pr_Bytes p then errf CodeTooLarge (fld @ ''.bytes'') else None),
     inVocabulary ''media_type'' (pr_MediaType p) (fld @ ''.media_type'')]"

record provenance =
  pv_Origin :: string
  pv_DeviceID :: string
  pv_Surface :: string
  pv_AcceptedAt :: string

definition Provenance_validate :: "provenance \<Rightarrow> string \<Rightarrow> go_error option" where
  "Provenance_validate p fld = first_err [
     inVocabulary ''origin'' (pv_Origin p) (fld @ ''.origin''),
     (if pv_Origin p = OriginCompanion \<and> pv_DeviceID p = []
      then errf CodeMissingField (fld @ ''.device_id'') else None),
     validateOptionalID (fld @ ''.device_id'') PrefixDevice (pv_DeviceID p),
     inVocabulary ''platform'' (pv_Surface p) (fld @ ''.surface''),
     validateTimestamp (fld @ ''.accepted_at'') (pv_AcceptedAt p)]"

record attempt =
  at_Count :: int
  at_Max :: int
  at_ExecutionID :: string

definition Attempt_validate :: "attempt \<Rightarrow> string \<Rightarrow> go_error option" where
  "Attempt_validate a fld = first_err [
     (if at_Count a < 0 then errf CodeInvalidValue (fld @ ''.count'') else None),
     (if at_Max a \<le> 0 then errf CodeInvalidValue (fld @ ''.max'') else None),
     (if MaxAttempts < at_Max a then errf CodeTooLarge (fld @ ''.max'') else None),
     (if at_Max a < at_Count a then errf CodeInvalidState (fld @ ''.count'') else None),
     validateOptionalID (fld @ ''.execution_id'') PrefixExecution (at_ExecutionID a)]"

record operation_result =
  or_ReceiptID :: string
  or_MemoryID :: string
  or_ErrorCode :: string

record operation = header +
  op_RequestID :: string
  op_IdempotencyKey :: string
  op_Kind :: string
  op_Lane :: string
  op_Intent :: string
  op_State :: string
  op_Payload :: payload_ref
  op_Provenance :: provenance
  op_Attempt :: attempt
  op_CreatedAt :: string
  op_UpdatedAt :: string
  op_Freshness :: "source_freshness list option"
  op_Result :: "operation_result option"

definition Operation_Status :: "operation \<Rightarrow> operation_status" where
  "Operation_Status o1 = \<lparr>os_RequestID = op_RequestID o1, os_Lane = op_Lane o1,
     os_Kind = op_Kind o1, os_State = op_State o1, os_UpdatedAt = op_UpdatedAt o1,
     os_Attempts = at_Count (op_Attempt o1)\<rparr>"

definition validateKindForLane :: "string \<Rightarrow> string \<Rightarrow> go_error option" where
  "validateKindForLane lane kind =
     (if lane = LaneMemory \<and> (kind = KindCapture \<or> kind = KindAsk) then None
      else if lane = LaneResearch \<and> kind = KindResearch then None
      else errf CodeInvalidState ''kind'')"

definition KindFor :: "string \<Rightarrow> go_error + string \<times> string" where
  "KindFor intent =
     (if intent = IntentRemember then Inr (KindCapture, LaneMemory)
      else if intent = IntentAsk then Inr (KindAsk, LaneMemory)
      else if intent = IntentInvestigate then Inr (KindResearch, LaneResearch)
      else Inl (SchemaError CodeInvalidEnum ''intent''))"

definition result_rules :: "string \<Rightarrow> operation_result \<Rightarrow> go_error option" where
  "result_rules state r = first_err [
     validateOptionalID ''result.receipt_id'' PrefixReceipt (or_ReceiptID r),
     validateOptionalID ''result.memory_id'' PrefixMemory (or_MemoryID r),
     (if or_ErrorCode r \<noteq> []
      then inVocabulary ''reject_reason'' (or_ErrorCode r) ''result.error_code'' else None),
     (if state = StateDone then
        (if or_ErrorCode r \<noteq> [] then errf CodeInvalidState ''result.error_code''
         else if or_ReceiptID r = [] then errf CodeMissingField ''result.receipt_id'' else None)
      else if state = StateFailed then
        (if or_ErrorCode r = [] then errf CodeMissingField ''result.error_code''
         else if or_MemoryID r \<noteq> [] then errf CodeInvalidState ''result.memory_id'' else None)
      else None)]"

definition validateResult :: "operation \<Rightarrow> go_error option" where
  "validateResult o1 = (case op_Result o1 of
     None \<Rightarrow> if IsTerminal (op_State o1) then errf CodeMissingField ''result'' else None
   | Some r \<Rightarrow> if \<not> IsTerminal (op_State o1) then errf CodeInvalidState ''result''
       else result_rules (op_State o1) r)"

definition Operation_Validate :: "operation \<Rightarrow> go_error option" where
  "Operation_Validate o1 = first_err [
     header_validate o1 ''mora.companion.operation'',
     validateID ''request_id'' PrefixRequest (op_RequestID o1),
     validateIdempotencyKey ''idempotency_key'' (op_IdempotencyKey o1),
     inVocabulary ''kind'' (op_Kind o1) ''kind'',
     inVocabulary ''lane'' (op_Lane o1) ''lane'',
     inVocabulary ''intent'' (op_Intent o1) ''intent'',
     inVocabulary ''operation_state'' (op_State o1) ''state'',
     ValidateRouting (op_Lane o1) (op_Intent o1),
     validateKindForLane (op_Lane o1) (op_Kind o1),
     PayloadRef_validate (op_Payload o1) ''payload'',
     Provenance_validate (op_Provenance o1) ''provenance'',
     Attempt_validate (op_Attempt o1) ''attempt'',
     validateTimestamp ''created_at'' (op_CreatedAt o1),
     validateTimestamp ''updated_at'' (op_UpdatedAt o1),
     (if op_UpdatedAt o1 < op_CreatedAt o1 then errf CodeInvalidState ''updated_at'' else None),
     (case op_Freshness o1 of None \<Rightarrow> errf CodeMissingField ''freshness''
      | Some rows \<Rightarrow> validateFreshness ''freshness'' rows (op_CreatedAt o1)),
     validateResult o1]"

fun join_strings :: "string \<Rightarrow> string list \<Rightarrow> string" where
  \<comment> \<open>\<open>strings.Join\<close>\<close>
  "join_strings sep [] = []"
| "join_strings sep [x] = x"
| "join_strings sep (x # y # zs) = x @ sep @ join_strings sep (y # zs)"

definition StateMachine :: string where
  "StateMachine = concat (map (\<lambda>s. let nxt = NextStates s in
     if nxt = [] then s @ '' -> (terminal)'' @ [CHR 0x0A]
     else s @ '' -> '' @ join_strings '' | '' nxt @ [CHR 0x0A])
     [StateCaptured, StateTriaged, StateLeased, StateRunning, StateNeedsInput, StateDone, StateFailed])"

end
