(* ===== verification/ContractClaims.thy ===== *)
theory ContractClaims
  imports SchemaFacts Envelope
begin

text \<open>
  What the wire contract guarantees about a document that validated: canonical stamps, scopes
  and identifiers that cannot name a path, receipts that cannot claim a write that did not
  happen, captures bound to their text, and the decode/encode pair.
\<close>

subsection \<open>Scalars\<close>

text \<open>The timestamp validator accepts exactly the canonical stamps: a string passes if and only
  if it is the RFC 3339 rendering, in UTC at second precision, of an instant in a year of four
  digits. So two different accepted strings never name the same instant.\<close>

lemma timestamps_are_canonical:
  "validateTimestamp fld s = None \<longleftrightarrow>
     (\<exists>t. in_years t \<and> truncate_second t = t \<and> s = format_rfc3339 t \<and> parse_rfc3339 s = Some t)"
  using parse_format by (auto simp: validateTimestamp_None)

text \<open>Formatting then parsing a stamp gives the instant back, truncated to the second, and
  accepted stamps compare as strings exactly as their instants compare in time; the
  kernel sorts and compares the strings.\<close>

lemma stamps_round_trip_in_order:
  assumes "in_years a" "in_years b"
  shows "parse_rfc3339 (format_rfc3339 a) = Some (truncate_second a)
    \<and> (format_rfc3339 a < format_rfc3339 b \<longleftrightarrow> truncate_second a < truncate_second b)"
  using parse_format [OF assms(1)] stamp_order [OF assms] by simp

lemma stamps_round_trip_in_order_witness:
  "parse_rfc3339 (format_rfc3339 0) = Some 0 \<and> format_rfc3339 0 < format_rfc3339 1000000000"
proof -
  have y: "in_years 0" "in_years 1000000000" by code_simp+
  from stamps_round_trip_in_order [OF y] show ?thesis by (simp add: truncate_second_def second_def)
qed

text \<open>A scope is \<open>personal\<close> or \<open>project:\<close> and a name; the name can be neither empty nor a
  dot name, and no accepted scope holds a path separator, so a device cannot turn its scope into a
  path or invent another namespace.\<close>

lemma scopes_never_name_paths:
  assumes "validateScope fld s = None"
  shows "(s = ''personal'' \<or> (\<exists>name. s = ''project:'' @ name \<and> name \<notin> {[], ''.'', ''..''} \<and> CHR '':'' \<notin> set name))
    \<and> CHR ''/'' \<notin> set s \<and> CHR 0x5C \<notin> set s \<and> length s \<le> MaxScopeBytes"
  using assms opaque_no_separator
  by (auto simp: validateScope_None MaxScopeBytes_def)

lemma scopes_never_name_paths_witness:
  "CHR ''/'' \<notin> set ''project:mora''"
proof -
  have "validateScope [] ''project:mora'' = None" by code_simp
  from scopes_never_name_paths [OF this] show ?thesis by blast
qed

text \<open>An identifier is accepted exactly when it is its prefix and at least one more byte, at most
  \<open>MaxIDBytes\<close> in all, every byte in the opaque set; such an identifier holds no separator,
  blank or control byte, so it is safe as a file name and in a log line.\<close>

lemma identifiers_are_opaque:
  "validateID fld prefix s = None \<longleftrightarrow> length s \<le> MaxIDBytes \<and> (\<exists>tail. s = prefix @ tail \<and> tail \<noteq> [])
      \<and> list_all opaque_char s \<and> set s \<inter> {CHR ''/'', CHR 0x5C, CHR '' '', CHR 0x00} = {}"
proof -
  have "has_prefix s prefix \<and> length prefix < length s \<longleftrightarrow> (\<exists>tail. s = prefix @ tail \<and> tail \<noteq> [])"
    by (auto simp: has_prefix_def) (metis append_take_drop_id drop_eq_Nil leD)
  then show ?thesis using opaque_no_separator [of s] by (auto simp: validateID_None)
qed

text \<open>The fingerprint the code computes of any text is one its validator accepts: \<open>sha256:\<close>
  and 64 lower-case hexadecimal digits.\<close>

lemma fingerprints_validate:
  "validateFingerprint fld (Fingerprint s) = None \<and> length (Fingerprint s) = 71"
  by simp

subsection \<open>Receipts\<close>

lemma receipt_rules:
  assumes "Receipt_Validate r = None"
  shows "receipt_state_rules r = None" "validatePolicyOutcome (rc_State r) (rc_Reason r) (rc_Policy r) = None"
    "rc_State r \<in> {ReceiptAccepted, ReceiptApplied, ReceiptRejected}"
    "rc_Policy r \<in> {PolicyOpen, PolicyPropose, PolicyReadonly}"
  using assms by (simp_all add: Receipt_Validate_def vocabulary_def)

text \<open>C23: A receipt that validates cannot overstate what happened: it names a memory exactly when it
  says \<open>applied\<close>, and then it is settled, carries no reason, and was written under the open
  policy; \<open>accepted\<close> appears only under the propose policy, without reason or memory; a
  rejection always carries a reason and a settlement stamp, and under the open or propose policy
  that reason is not \<open>policy\<close>.\<close>

theorem receipts_never_overstate:
  assumes "Receipt_Validate r = None"
  shows "(rc_MemoryID r \<noteq> [] \<longleftrightarrow> rc_State r = ReceiptApplied)
    \<and> (rc_State r = ReceiptApplied \<longrightarrow> rc_SettledAt r \<noteq> [] \<and> rc_Reason r = [] \<and> rc_Policy r = PolicyOpen)
    \<and> (rc_State r = ReceiptAccepted \<longrightarrow> rc_Reason r = [] \<and> rc_Policy r = PolicyPropose)
    \<and> (rc_State r = ReceiptRejected \<longrightarrow> rc_Reason r \<noteq> [] \<and> rc_SettledAt r \<noteq> []
        \<and> (rc_Reason r = ReasonPolicy \<longrightarrow> rc_Policy r = PolicyReadonly))"
  using receipt_rules [OF assms]
  by (auto simp: receipt_state_rules_def validatePolicyOutcome_def policy_state_def split: if_splits)

definition receipt_example :: receipt where
  "receipt_example = NewReceipt\<lparr>rc_ReceiptID := ''rcp_1'', rc_RequestID := ''req_1'', rc_IdempotencyKey := ''k'',
     rc_DeviceID := ''dev_1'', rc_State := ReceiptApplied, rc_MemoryID := ''mem_1'',
     rc_PayloadFingerprint := Fingerprint ''hello'', rc_Policy := PolicyOpen,
     rc_ReceivedAt := format_rfc3339 0, rc_SettledAt := format_rfc3339 0\<rparr>"

lemma ids_example: "validateID f ''rcp_'' ''rcp_1'' = None" "validateID f ''req_'' ''req_1'' = None"
  "validateID f ''dev_'' ''dev_1'' = None" "validateID f ''mem_'' ''mem_1'' = None"
  "validateIdempotencyKey f ''k'' = None" "in_years 0"
  by code_simp+

lemma receipt_example_valid: "Receipt_Validate receipt_example = None"
  by (simp add: Receipt_Validate_def receipt_example_def NewReceipt_def header_validate_def ids_example
      vocabulary_def validateOptionalTimestamp_def validateOptionalID_def receipt_state_rules_def
      validatePolicyOutcome_def policy_state_def)

theorem receipts_never_overstate_witness: "rc_Policy receipt_example = PolicyOpen"
  using receipts_never_overstate [OF receipt_example_valid] by (simp add: receipt_example_def NewReceipt_def)

subsection \<open>Captures\<close>

text \<open>A capture that validates is bound to its text and its lane: the fingerprint is the
  fingerprint of the text, the text is between one byte and \<open>MaxCaptureTextBytes\<close>, and the
  intent fits the requested lane, so that research is asked for only on the research lane.\<close>

lemma captures_bind_their_text:
  assumes "Capture_Validate c = None"
  shows "ca_PayloadFingerprint c = Fingerprint (ca_Text c) \<and> ca_Text c \<noteq> []
    \<and> length (ca_Text c) \<le> MaxCaptureTextBytes
    \<and> (ca_RequestedLane c = LaneMemory \<and> ca_Intent c \<in> {IntentRemember, IntentAsk}
       \<or> ca_RequestedLane c = LaneResearch \<and> ca_Intent c = IntentInvestigate)"
  using assms
  by (auto simp: Capture_Validate_def validateText_def ValidateRouting_def split: if_splits)

definition capture_example :: capture where
  "capture_example = \<lparr>hd_Schema = ''mora.companion.capture'', hd_SchemaVersion = 1, ca_IdempotencyKey = ''k'',
     ca_DeviceID = ''dev_1'', ca_CapturedAt = format_rfc3339 0, ca_RequestedLane = LaneMemory,
     ca_Intent = IntentRemember, ca_Scope = ''personal'', ca_Text = ''hello'',
     ca_PayloadFingerprint = Fingerprint ''hello''\<rparr>"

lemma capture_example_valid: "Capture_Validate capture_example = None"
  by (simp add: Capture_Validate_def capture_example_def header_validate_def SchemaVersion_def ids_example
      vocabulary_def validateScope_def MaxScopeBytes_def validateText_def MaxCaptureTextBytes_def ValidateRouting_def)

lemma captures_bind_their_text_witness: "length (ca_Text capture_example) \<le> MaxCaptureTextBytes"
  using captures_bind_their_text [OF capture_example_valid] by blast

subsection \<open>Decoding and encoding\<close>

text \<open>What \<open>Marshal\<close> sends validated and fits its byte limit, and \<open>Unmarshal\<close> at the other
  end, given a decoder that reads back what the encoder wrote, returns the same value.\<close>

lemma marshal_unmarshal_round_trip:
  assumes "Marshal limit encode validate v = Inr b" "decode b = Decoded v False"
  shows "validate v = None \<and> (limit = 0 \<or> length b \<le> limit) \<and> Unmarshal limit decode validate b = Inr v"
  using assms by (auto simp: Marshal_def Unmarshal_def Let_def split: option.splits if_splits)

lemma marshal_unmarshal_round_trip_witness:
  "Unmarshal MaxCaptureBytes (\<lambda>_. Decoded capture_example False) Capture_Validate (''x'' @ [CHR 0x0A]) = Inr capture_example"
proof -
  have "Marshal MaxCaptureBytes (\<lambda>_. ''x'') Capture_Validate capture_example = Inr (''x'' @ [CHR 0x0A])"
    by (simp add: Marshal_def capture_example_valid MaxCaptureBytes_def)
  from marshal_unmarshal_round_trip [OF this, of "\<lambda>_. Decoded capture_example False"] show ?thesis by simp
qed

text \<open>Decoding is strict: \<open>Unmarshal\<close> returns a value only from a body within the byte limit that
  decodes with nothing after it, and only if the value passes its own \<open>Validate\<close>.\<close>

lemma unmarshal_strict:
  assumes "Unmarshal limit decode validate b = Inr v"
  shows "(limit = 0 \<or> length b \<le> limit) \<and> decode b = Decoded v False \<and> validate v = None"
  using assms by (auto simp: Unmarshal_def split: if_splits decoded.splits option.splits)

theorem unmarshal_strict_witness: "Capture_Validate capture_example = None"
proof -
  have "Unmarshal 0 (\<lambda>_. Decoded capture_example False) Capture_Validate [] = Inr capture_example"
    by (simp add: Unmarshal_def capture_example_valid)
  from unmarshal_strict [OF this] show ?thesis by blast
qed

subsection \<open>Endpoints and devices\<close>

text \<open>A pairing endpoint that validates is either HTTPS with a host or plain HTTP to this
  machine, and never carries credentials in the URL.\<close>

lemma endpoints_stay_private:
  assumes "validateEndpoint url_parse fld raw = None"
  shows "\<exists>scheme host. url_parse raw = Some (scheme, False, host) \<and>
    (scheme = ''https'' \<and> host \<noteq> [] \<or> scheme = ''http'' \<and> host \<in> {''127.0.0.1'', ''::1'', ''localhost''})"
  using assms by (auto simp: validateEndpoint_def split: option.splits prod.splits if_splits)

theorem endpoints_stay_private_witness:
  "(''https'', False, ''h'') \<in> {(s, u, h). s = ''https'' \<and> \<not> u \<and> h \<noteq> []}"
proof -
  have "validateEndpoint (\<lambda>_. Some (''https'', False, ''h'')) [] ''u'' = None"
    by (simp add: validateEndpoint_def validateText_def MaxDeepLinkBytes_def)
  from endpoints_stay_private [OF this] show ?thesis by auto
qed

subsection \<open>Freshness\<close>

text \<open>A freshness row that validates against a reference stamp is honest about its age: a fresh
  or stale source has a last success not after the reference, and the age it reports is the whole
  number of seconds between the two (Go's saturating subtraction aside); a source that never
  succeeded reports neither.\<close>

lemma freshness_rows_honest:
  assumes "freshness_validate f fld reference = None" "reference \<noteq> []"
  shows "(sf_State f = FreshnessNever \<longrightarrow> sf_LastSuccessAt f = [] \<and> sf_AgeSeconds f = -1)
    \<and> (sf_State f \<in> {FreshnessFresh, FreshnessStale} \<longrightarrow> (\<exists>a b. parse_rfc3339 (sf_LastSuccessAt f) = Some a
        \<and> parse_rfc3339 reference = Some b \<and> sf_AgeSeconds f = go_quot (time_sub b a) second \<and> 0 \<le> sf_AgeSeconds f))
    \<and> (sf_State f = FreshnessFailed \<longrightarrow> sf_ErrorCode f \<noteq> [])"
  using assms
  by (auto simp: freshness_validate_def checkAge_def Let_def split: if_splits option.splits)

definition freshness_example :: source_freshness where
  "freshness_example = \<lparr>sf_Key = ''mail'', sf_State = FreshnessNever, sf_AgeSeconds = -1, sf_LastSuccessAt = [],
     sf_ErrorCode = []\<rparr>"

lemma freshness_rows_honest_witness: "sf_AgeSeconds freshness_example = -1"
proof -
  have "validateSourceKey ([] @ ''.key'') ''mail'' = None" by code_simp
  then have "freshness_validate freshness_example [] (format_rfc3339 0) = None"
    by (simp add: freshness_validate_def freshness_example_def vocabulary_def validateOptionalTimestamp_def)
  from freshness_rows_honest [OF this] show ?thesis by (simp add: freshness_example_def)
qed

end
