(* ===== verification/EnvelopeClaims.thy ===== *)
theory EnvelopeClaims
  imports ContractClaims "HOL-Library.Sublist"
begin

text \<open>
  The operation state machine as a transition system: which histories the transition check
  admits, and what a validated envelope says about its own progress.
\<close>

subsection \<open>Histories\<close>

fun legal_history :: "string list \<Rightarrow> bool" where
  \<comment> \<open>consecutive states that \<open>ValidateTransition\<close> admits\<close>
  "legal_history [] = True"
| "legal_history [s] = True"
| "legal_history (s # t # rest) = (ValidateTransition s t = None \<and> legal_history (t # rest))"

lemma operation_states: "set (vocabulary ''operation_state'') =
    {StateCaptured, StateTriaged, StateLeased, StateRunning, StateDone, StateNeedsInput, StateFailed}"
  by (auto simp: vocabulary_def)

lemma ValidateTransition_None: "ValidateTransition s t = None \<longleftrightarrow>
    s \<in> set (vocabulary ''operation_state'') \<and> t \<in> set (vocabulary ''operation_state'')
    \<and> (s = t \<or> t \<in> set (transitions s))"
  by (auto simp: ValidateTransition_def errf_def)

lemma into_done: "ValidateTransition s StateDone = None \<Longrightarrow> s \<in> {StateDone, StateRunning}"
  by (auto simp: ValidateTransition_None transitions_def operation_states split: if_splits)

lemma into_running: "ValidateTransition s StateRunning = None \<Longrightarrow> s \<in> {StateRunning, StateLeased, StateNeedsInput}"
  by (auto simp: ValidateTransition_None transitions_def operation_states split: if_splits)

lemma into_needs_input: "ValidateTransition s StateNeedsInput = None \<Longrightarrow> s \<in> {StateNeedsInput, StateRunning}"
  by (auto simp: ValidateTransition_None transitions_def operation_states split: if_splits)

lemma into_leased: "ValidateTransition s StateLeased = None \<Longrightarrow> s \<in> {StateLeased, StateTriaged}"
  by (auto simp: ValidateTransition_None transitions_def operation_states split: if_splits)

definition still_to_pass :: "string \<Rightarrow> string list" where
  \<comment> \<open>the states every history from this one to \<open>done\<close> has to visit, in order\<close>
  "still_to_pass s = (if s = StateCaptured then [StateCaptured, StateTriaged, StateLeased, StateRunning, StateDone]
     else if s = StateTriaged then [StateTriaged, StateLeased, StateRunning, StateDone]
     else if s = StateLeased then [StateLeased, StateRunning, StateDone]
     else if s = StateRunning then [StateRunning, StateDone]
     else if s = StateNeedsInput then [StateNeedsInput, StateRunning, StateDone] else [s])"

lemma still_to_pass_step:
  assumes "ValidateTransition s t = None" "t \<noteq> StateFailed" "s \<noteq> t"
  shows "\<exists>rest. still_to_pass s = s # rest \<and> subseq rest (still_to_pass t)"
  using assms
  by (auto simp: ValidateTransition_None transitions_def operation_states still_to_pass_def split: if_splits)

lemma terminal_stuck: "IsTerminal s \<Longrightarrow> ValidateTransition s t = None \<Longrightarrow> t = s"
  by (auto simp: IsTerminal_def ValidateTransition_None transitions_def)

lemma terminal_history: "legal_history (s # ss) \<Longrightarrow> IsTerminal s \<Longrightarrow> set ss \<subseteq> {s}"
proof (induction ss)
  case (Cons t ss)
  then have "t = s" using terminal_stuck by simp
  with Cons show ?case by (cases ss) auto
qed simp

lemma history_passes:
  "legal_history (s # ss) \<Longrightarrow> last (s # ss) = StateDone \<Longrightarrow> subseq (still_to_pass s) (s # ss)"
proof (induction ss arbitrary: s)
  case Nil
  then show ?case by (simp add: still_to_pass_def)
next
  case (Cons t ss)
  then have IH: "subseq (still_to_pass t) (t # ss)" and v: "ValidateTransition s t = None" by simp_all
  show ?case
  proof (cases "s = t")
    case True
    then show ?thesis using IH by (simp add: list_emb_Cons)
  next
    case False
    have "last (t # ss) = StateDone" "legal_history (t # ss)" using Cons.prems by simp_all
    moreover have "last (t # ss) \<in> set (t # ss)" by (rule last_in_set) simp
    ultimately have "t \<noteq> StateFailed"
      using terminal_history [of t ss] by (auto simp: IsTerminal_def simp del: last.simps)
    then obtain rest where "still_to_pass s = s # rest" "subseq rest (still_to_pass t)"
      using still_to_pass_step [OF v _ False] by blast
    then show ?thesis using IH subseq_order.order_trans by auto
  qed
qed

text \<open>No operation skips the governed steps: any history of states that the transition check
  admits one by one and that leads from \<open>captured\<close> to \<open>done\<close> passes through triage, a lease and
  a run, in that order, however often it was retried or waited for input in between.\<close>

lemma done_only_through_the_spine:
  assumes "legal_history (StateCaptured # ss)" "last (StateCaptured # ss) = StateDone"
  shows "subseq [StateCaptured, StateTriaged, StateLeased, StateRunning, StateDone] (StateCaptured # ss)"
  using history_passes [OF assms] by (simp add: still_to_pass_def)

lemma spine_example: "legal_history [StateCaptured, StateTriaged, StateLeased, StateTriaged, StateLeased, StateRunning,
    StateNeedsInput, StateRunning, StateDone]"
  by code_simp

lemma done_only_through_the_spine_witness:
  "subseq [StateCaptured, StateTriaged, StateLeased, StateRunning, StateDone]
    [StateCaptured, StateTriaged, StateLeased, StateTriaged, StateLeased, StateRunning,
     StateNeedsInput, StateRunning, StateDone]"
  using done_only_through_the_spine [OF spine_example] by simp

text \<open>The transition check is the published machine and its terminal states are final: a step is
  admitted exactly between published states that are equal or joined by \<open>NextStates\<close>; the
  published states without a successor are exactly the terminal ones; and every state but \<open>done\<close>
  may fail.\<close>

lemma terminal_states_are_final:
  "(ValidateTransition s t = None \<longleftrightarrow> s \<in> set (vocabulary ''operation_state'')
       \<and> t \<in> set (vocabulary ''operation_state'') \<and> (s = t \<or> t \<in> set (NextStates s)))
   \<and> (s \<in> set (vocabulary ''operation_state'') \<and> NextStates s = [] \<longleftrightarrow> IsTerminal s)
   \<and> (s \<in> set (vocabulary ''operation_state'') - {StateDone} \<longleftrightarrow> ValidateTransition s StateFailed = None)"
proof (intro conjI)
  show "s \<in> set (vocabulary ''operation_state'') \<and> NextStates s = [] \<longleftrightarrow> IsTerminal s"
    by (auto simp: IsTerminal_def NextStates_def transitions_def operation_states split: if_splits)
  show "s \<in> set (vocabulary ''operation_state'') - {StateDone} \<longleftrightarrow> ValidateTransition s StateFailed = None"
    by (auto simp: transitions_def operation_states ValidateTransition_None split: if_splits)
qed (simp add: ValidateTransition_None NextStates_def)

subsection \<open>The envelope\<close>

text \<open>Routing has one authority: the kind and lane \<open>KindFor\<close> derives from an intent are exactly
  those that \<open>ValidateRouting\<close> and \<open>validateKindForLane\<close> admit together; an intent outside the
  vocabulary is refused.\<close>

lemma kind_for_agrees_with_validators:
  "KindFor intent = Inr (kind, lane) \<longleftrightarrow>
     ValidateRouting lane intent = None \<and> validateKindForLane lane kind = None
     \<and> (intent = IntentRemember \<and> kind = KindCapture \<or> intent = IntentAsk \<and> kind = KindAsk
        \<or> intent = IntentInvestigate \<and> kind = KindResearch)"
  by (auto simp: KindFor_def ValidateRouting_def validateKindForLane_def)

text \<open>A validated envelope is consistent about its progress: it carries a result exactly when it is
  terminal, a failure names its error and no memory, a success names a receipt and no error, the
  retry count stays within its cap and the cap within \<open>MaxAttempts\<close>, and it was not updated
  before it was created.\<close>

lemma envelopes_are_consistent:
  assumes "Operation_Validate o1 = None"
  shows "(op_Result o1 \<noteq> None \<longleftrightarrow> IsTerminal (op_State o1))
    \<and> (\<forall>r. op_Result o1 = Some r \<longrightarrow> (op_State o1 = StateDone \<longrightarrow> or_ReceiptID r \<noteq> [] \<and> or_ErrorCode r = [])
         \<and> (op_State o1 = StateFailed \<longrightarrow> or_ErrorCode r \<noteq> [] \<and> or_MemoryID r = []))
    \<and> 0 \<le> at_Count (op_Attempt o1) \<and> at_Count (op_Attempt o1) \<le> at_Max (op_Attempt o1)
    \<and> at_Max (op_Attempt o1) \<le> MaxAttempts
    \<and> (\<exists>a b. parse_rfc3339 (op_CreatedAt o1) = Some a \<and> parse_rfc3339 (op_UpdatedAt o1) = Some b \<and> a \<le> b)"
proof -
  have v: "validateResult o1 = None" "Attempt_validate (op_Attempt o1) ''attempt'' = None"
    "validateTimestamp ''created_at'' (op_CreatedAt o1) = None"
    "validateTimestamp ''updated_at'' (op_UpdatedAt o1) = None" "\<not> op_UpdatedAt o1 < op_CreatedAt o1"
    using assms by (simp_all add: Operation_Validate_def split: if_splits)
  obtain a b where "in_years a" "truncate_second a = a" "op_CreatedAt o1 = format_rfc3339 a"
    "in_years b" "truncate_second b = b" "op_UpdatedAt o1 = format_rfc3339 b"
    using v(3,4) by (auto simp: validateTimestamp_None)
  then have "\<exists>a b. parse_rfc3339 (op_CreatedAt o1) = Some a \<and> parse_rfc3339 (op_UpdatedAt o1) = Some b \<and> a \<le> b"
    using v(5) by (simp add: parse_format stamp_order)
  moreover have "0 \<le> at_Count (op_Attempt o1) \<and> at_Count (op_Attempt o1) \<le> at_Max (op_Attempt o1)
      \<and> at_Max (op_Attempt o1) \<le> MaxAttempts"
    using v(2) by (simp add: Attempt_validate_def split: if_splits)
  ultimately show ?thesis using v(1)
    by (auto simp: validateResult_def result_rules_def split: option.splits if_splits)
qed

definition operation_example :: operation where
  "operation_example = \<lparr>hd_Schema = ''mora.companion.operation'', hd_SchemaVersion = 1,
     op_RequestID = ''req_1'', op_IdempotencyKey = ''k'', op_Kind = KindCapture, op_Lane = LaneMemory,
     op_Intent = IntentRemember, op_State = StateDone,
     op_Payload = \<lparr>pr_Ref = ''k'', pr_Fingerprint = Fingerprint ''hello'', pr_Bytes = 5,
        pr_MediaType = ''text/plain; charset=utf-8''\<rparr>,
     op_Provenance = \<lparr>pv_Origin = OriginCompanion, pv_DeviceID = ''dev_1'', pv_Surface = ''ios'',
        pv_AcceptedAt = format_rfc3339 0\<rparr>,
     op_Attempt = \<lparr>at_Count = 1, at_Max = 3, at_ExecutionID = []\<rparr>,
     op_CreatedAt = format_rfc3339 0, op_UpdatedAt = format_rfc3339 0, op_Freshness = Some [],
     op_Result = Some \<lparr>or_ReceiptID = ''rcp_1'', or_MemoryID = ''mem_1'', or_ErrorCode = []\<rparr>\<rparr>"

lemma opaque_example: "opaqueRunes ''k''" by code_simp

lemma operation_example_valid: "Operation_Validate operation_example = None"
  by (simp add: Operation_Validate_def operation_example_def header_validate_def SchemaVersion_def ids_example
      vocabulary_def ValidateRouting_def validateKindForLane_def PayloadRef_validate_def validateText_def
      MaxIdempotencyKeyBytes_def opaque_example MaxCaptureTextBytes_def Provenance_validate_def
      validateOptionalID_def Attempt_validate_def MaxAttempts_def validateFreshness_def validateCount_def
      MaxFreshnessSources_def validateResult_def IsTerminal_def result_rules_def)

lemma envelopes_are_consistent_witness: "IsTerminal (op_State operation_example)"
  using envelopes_are_consistent [OF operation_example_valid] by (simp add: operation_example_def)

end
