(* ===== verification/Reservations.thy ===== *)
theory Reservations
  imports Registry "HOL-Library.AList"
begin

text \<open>
  The durable reservation store behind governed capture, internal/companion/idempotency.go.
  The state is the directory tree (\<open>rs_files\<close>: the \<open>.json\<close> entries of the device
  directories, each the record it decodes to with its size, or bytes that are no reservation),
  the census and the in-flight set the process keeps in memory, and the entropy to come. As in
  the registry, every locked section takes the outcome of its filesystem calls from a tape, and
  a clock reading is an argument. A channel is a number; a closed channel is remembered, which
  is what makes the release of a claim happen once. Reads of a directory come in name order.
\<close>

definition KernelTimeout :: duration where "KernelTimeout = 20 * second"
definition MaxReservations :: nat where "MaxReservations = 512"
definition MaxPendingReservations :: nat where "MaxPendingReservations = 64"
definition ReservationTTL :: duration where "ReservationTTL = 7 * 24 * hour"
definition ReservationTakeover :: duration where "ReservationTakeover = 3 * KernelTimeout"
definition PendingSweepAfter :: duration where "PendingSweepAfter = 4 * ReservationTakeover"
definition maxReservationBytes :: nat where "maxReservationBytes = 65536"
definition reservationIDEntropyBytes :: nat where "reservationIDEntropyBytes = 4"

abbreviation reservationPending :: string where "reservationPending \<equiv> ''pending''"
abbreviation reservationSettled :: string where "reservationSettled \<equiv> ''settled''"
abbreviation schemaCaptureReservation :: string where
  "schemaCaptureReservation \<equiv> ''mora.companion.capture.reservation''"

definition zero_time :: instant where
  \<comment> \<open>the zero \<open>time.Time\<close>, 0001-01-01T00:00:00Z\<close>
  "zero_time = - 62135596800 * second"

subsection \<open>Records\<close>

record capture_identity =
  ci_DeviceID :: string
  ci_Key :: string
  ci_Identity :: string
  ci_Fingerprint :: string
  ci_MemoryID :: string

definition CaptureIdentity_validate :: "capture_identity \<Rightarrow> go_error option" where
  "CaptureIdentity_validate i = first_err [
     validateID ''device_id'' PrefixDevice (ci_DeviceID i),
     validateIdempotencyKey ''idempotency_key'' (ci_Key i),
     validateFingerprint ''capture_identity'' (ci_Identity i),
     validateFingerprint ''payload_fingerprint'' (ci_Fingerprint i),
     validateID ''memory_id'' PrefixMemory (ci_MemoryID i)]"

record reservation = header +
  rv_IdempotencyKey :: string
  rv_DeviceID :: string
  rv_CaptureIdentity :: string
  rv_PayloadFingerprint :: string
  rv_MemoryID :: string
  rv_State :: string
  rv_ReservedAt :: string
  rv_ExpiresAt :: string
  rv_Receipt :: "receipt option"
  rv_Response :: string

type_synonym res_path = "string \<times> string" \<comment> \<open>device directory, file name\<close>

datatype stored = Stored reservation nat | Foreign

record res_io =
  ri_ensure :: "go_error option"
  ri_lock :: "go_error option"
  ri_read :: "go_error option"
  ri_write :: write_result
  ri_stuck :: "res_path list" \<comment> \<open>the files \<open>os.Remove\<close> fails on\<close>
  ri_hidden :: "res_path list" \<comment> \<open>the files a walk of the store fails to list or read\<close>

definition res_io_ok :: res_io where
  "res_io_ok = \<lparr>ri_ensure = None, ri_lock = None, ri_read = None, ri_write = Written,
     ri_stuck = [], ri_hidden = []\<rparr>"

record res_store =
  rs_files :: "(res_path \<times> stored) list"
  rs_total :: nat
  rs_pending :: "(res_path \<times> instant) list"
  rs_inflight :: "(string \<times> nat) list"
  rs_chans :: nat
  rs_closed :: "nat list"
  rs_entropy :: "nat list"
  rs_tape :: "res_io list"

definition next_res_io :: "res_store \<Rightarrow> res_io \<times> res_store" where
  "next_res_io g = (case rs_tape g of [] \<Rightarrow> (res_io_ok, g) | i # t \<Rightarrow> (i, g\<lparr>rs_tape := t\<rparr>))"

record claim =
  cl_inflight :: string
  cl_done :: nat
  cl_path :: res_path
  cl_record :: reservation
  cl_TakenOver :: bool

definition Claim_MemoryID :: "claim \<Rightarrow> string" where
  "Claim_MemoryID c = rv_MemoryID (cl_record c)"

definition Claim_Identity :: "claim \<Rightarrow> capture_identity" where
  "Claim_Identity c = \<lparr>ci_DeviceID = rv_DeviceID (cl_record c), ci_Key = rv_IdempotencyKey (cl_record c),
     ci_Identity = rv_CaptureIdentity (cl_record c), ci_Fingerprint = rv_PayloadFingerprint (cl_record c),
     ci_MemoryID = rv_MemoryID (cl_record c)\<rparr>"

definition reservationStamp :: "instant \<Rightarrow> string" where
  "reservationStamp t = format_rfc3339 (truncate_second t)"

subsection \<open>Files\<close>

definition reservation_path :: "string \<Rightarrow> string \<Rightarrow> res_path" where
  "reservation_path deviceID key = (deviceID, fst (cut_prefix (Fingerprint key) ''sha256:'') @ ''.json'')"

definition readReservation :: "go_error option \<Rightarrow> stored option \<Rightarrow> go_error + reservation" where
  "readReservation fault file = (case fault of Some e \<Rightarrow> Inl e
     | None \<Rightarrow> (case file of
         None \<Rightarrow> Inl ErrNotExist
       | Some Foreign \<Rightarrow> Inl (OtherError ''not readable as a capture reservation'')
       | Some (Stored r sz) \<Rightarrow>
           if maxReservationBytes < sz then Inl (OtherError ''over the byte limit'')
           else case header_validate r schemaCaptureReservation of
             Some e \<Rightarrow> Inl e
           | None \<Rightarrow> (case rv_Receipt r of None \<Rightarrow> Inr r
               | Some rc \<Rightarrow> (case Receipt_Validate rc of Some e \<Rightarrow> Inl e | None \<Rightarrow> Inr r))))"

definition write_reservation ::
  "(reservation \<Rightarrow> nat) \<Rightarrow> res_io \<Rightarrow> res_path \<Rightarrow> reservation \<Rightarrow> res_store \<Rightarrow> go_error option \<times> res_store"
where
  "write_reservation json_size i p r g =
     (if maxReservationBytes < json_size r then (Some (OtherError ''reservation over the limit''), g)
      else (write_error (ri_write i),
            if landed (ri_write i) then g\<lparr>rs_files := AList.update p (Stored r (json_size r)) (rs_files g)\<rparr>
            else g))"

definition os_Remove :: "res_io \<Rightarrow> res_path \<Rightarrow> res_store \<Rightarrow> bool \<times> res_store" where
  "os_Remove i p g = (if p \<in> set (ri_stuck i) \<or> map_of (rs_files g) p = None then (False, g)
     else (True, g\<lparr>rs_files := AList.delete p (rs_files g)\<rparr>))"

definition list_reservations :: "res_io \<Rightarrow> res_store \<Rightarrow> (res_path \<times> reservation) list" where
  \<comment> \<open>\<open>list\<close>: an entry that cannot be read is skipped\<close>
  "list_reservations i g = List.map_filter
     (\<lambda>(p, s). if p \<in> set (ri_hidden i) then None
        else case readReservation None (Some s) of Inl e \<Rightarrow> None | Inr r \<Rightarrow> Some (p, r))
     (sort_key fst (rs_files g))"

subsection \<open>The census\<close>

definition remember :: "res_path \<Rightarrow> instant \<Rightarrow> bool \<Rightarrow> res_store \<Rightarrow> res_store" where
  "remember p now fresh g = g\<lparr>rs_total := rs_total g + (if fresh then 1 else 0),
     rs_pending := AList.update p now (rs_pending g)\<rparr>"

definition forget :: "res_path \<Rightarrow> res_store \<Rightarrow> res_store" where
  "forget p g = g\<lparr>rs_pending := AList.delete p (rs_pending g), rs_total := rs_total g - 1\<rparr>"

definition settled :: "res_path \<Rightarrow> res_store \<Rightarrow> res_store" where
  "settled p g = g\<lparr>rs_pending := AList.delete p (rs_pending g)\<rparr>"

definition takeoverDue :: "string \<Rightarrow> instant \<Rightarrow> bool" where
  "takeoverDue reservedAt now = (case parse_rfc3339 reservedAt of None \<Rightarrow> True
     | Some t \<Rightarrow> \<not> now < t + ReservationTakeover)"

definition collectable :: "reservation \<Rightarrow> instant \<Rightarrow> bool" where
  "collectable r now =
     (if (case parse_rfc3339 (rv_ExpiresAt r) of None \<Rightarrow> False | Some t \<Rightarrow> \<not> now < t) then True
      else if rv_State r \<noteq> reservationPending then False
      else case parse_rfc3339 (rv_ReservedAt r) of None \<Rightarrow> True
        | Some t \<Rightarrow> \<not> now < t + PendingSweepAfter)"

fun census_rows :: "res_io \<Rightarrow> instant \<Rightarrow> (res_path \<times> reservation) list
    \<Rightarrow> nat \<times> (res_path \<times> instant) list \<Rightarrow> res_store \<Rightarrow> (nat \<times> (res_path \<times> instant) list) \<times> res_store" where
  "census_rows i now [] c g = (c, g)"
| "census_rows i now ((p, r) # rows) (n, pending) g =
     (if collectable r now then census_rows i now rows (n, pending) (snd (os_Remove i p g))
      else census_rows i now rows (n + 1,
        if rv_State r = reservationPending then
          AList.update p (case parse_rfc3339 (rv_ReservedAt r) of Some t \<Rightarrow> t | None \<Rightarrow> zero_time) pending
        else pending) g)"

definition census :: "instant \<Rightarrow> res_store \<Rightarrow> res_store" where
  "census now g = (case next_res_io g of (i, g) \<Rightarrow>
     case census_rows i now (list_reservations i g) (0, []) g of ((n, pending), g) \<Rightarrow>
       g\<lparr>rs_total := n, rs_pending := pending\<rparr>)"

definition NewReservationStore ::
  "(res_path \<times> stored) list \<Rightarrow> nat list \<Rightarrow> res_io list \<Rightarrow> instant \<Rightarrow> res_store" where
  \<comment> \<open>a process opening the store over the files it finds\<close>
  "NewReservationStore files entropy tape now = census now \<lparr>rs_files = files, rs_total = 0,
     rs_pending = [], rs_inflight = [], rs_chans = 0, rs_closed = [], rs_entropy = entropy,
     rs_tape = tape\<rparr>"

definition stale :: "instant \<Rightarrow> instant \<Rightarrow> bool" where
  "stale now reserved \<longleftrightarrow> reserved = zero_time \<or> \<not> now < reserved + PendingSweepAfter"

definition sweep :: "instant \<Rightarrow> res_io \<Rightarrow> res_store \<Rightarrow> nat \<times> res_store" where
  "sweep now i g =
     (let old = map fst (filter (\<lambda>(p, t). stale now t) (rs_pending g));
          live = filter (\<lambda>(p, t). \<not> stale now t) (rs_pending g);
          g = g\<lparr>rs_pending := live, rs_total := rs_total g - length old\<rparr>
      in (length live, fold (\<lambda>p g. snd (os_Remove i p g)) old g))"

fun trim_rows :: "res_io \<Rightarrow> res_path \<Rightarrow> nat \<Rightarrow> (res_path \<times> reservation) list \<Rightarrow> res_store \<Rightarrow> res_store" where
  "trim_rows i keep excess [] g = g"
| "trim_rows i keep excess ((p, r) # rows) g =
     (if excess = 0 then g
      else if p = keep \<or> rv_State r \<noteq> reservationSettled then trim_rows i keep excess rows g
      else case os_Remove i p g of
        (True, g) \<Rightarrow> trim_rows i keep (excess - 1) rows (forget p g)
      | (False, g) \<Rightarrow> trim_rows i keep excess rows g)"

definition trim :: "res_io \<Rightarrow> res_path \<Rightarrow> res_store \<Rightarrow> res_store" where
  "trim i keep g =
     (if rs_total g \<le> MaxReservations then g
      else let rows = list_reservations i g in
        if length rows \<le> MaxReservations then g
        else trim_rows i keep (length rows - MaxReservations)
               (sort_key (\<lambda>row. rv_ReservedAt (snd row)) rows) g)"

subsection \<open>Reserve\<close>

datatype reserved = Replay string | Claimed claim

definition finish :: "string \<Rightarrow> nat \<Rightarrow> res_store \<Rightarrow> res_store" where
  "finish k ch g = g\<lparr>
     rs_inflight := (if map_of (rs_inflight g) k = Some ch then AList.delete k (rs_inflight g)
                     else rs_inflight g),
     rs_closed := ch # rs_closed g\<rparr>"

definition pending_record :: "capture_identity \<Rightarrow> instant \<Rightarrow> reservation" where
  "pending_record cid now = \<lparr>hd_Schema = schemaCaptureReservation, hd_SchemaVersion = SchemaVersion,
     rv_IdempotencyKey = ci_Key cid, rv_DeviceID = ci_DeviceID cid, rv_CaptureIdentity = ci_Identity cid,
     rv_PayloadFingerprint = ci_Fingerprint cid, rv_MemoryID = ci_MemoryID cid,
     rv_State = reservationPending, rv_ReservedAt = reservationStamp now,
     rv_ExpiresAt = reservationStamp (now + ReservationTTL), rv_Receipt = None, rv_Response = []\<rparr>"

definition publish_claim ::
  "(reservation \<Rightarrow> nat) \<Rightarrow> res_io \<Rightarrow> capture_identity \<Rightarrow> string \<Rightarrow> nat \<Rightarrow> instant \<Rightarrow> bool \<Rightarrow> res_store
    \<Rightarrow> (go_error + reserved) \<times> res_store" where
  \<comment> \<open>\<open>reserveOnDisk\<close> from the record on; \<open>fresh\<close> is the negation of \<open>takenOver\<close>\<close>
  "publish_claim json_size i cid inflight ch now takenOver g =
     (let p = reservation_path (ci_DeviceID cid) (ci_Key cid); r = pending_record cid now in
      case write_reservation json_size i p r g of
        (Some e, g) \<Rightarrow> (Inl e, g)
      | (None, g) \<Rightarrow> (Inr (Claimed \<lparr>cl_inflight = inflight, cl_done = ch, cl_path = p,
            cl_record = r, cl_TakenOver = takenOver\<rparr>),
          trim i p (remember p now (\<not> takenOver) g)))"

definition admit_fresh ::
  "(reservation \<Rightarrow> nat) \<Rightarrow> res_io \<Rightarrow> capture_identity \<Rightarrow> string \<Rightarrow> nat \<Rightarrow> instant \<Rightarrow> res_store
    \<Rightarrow> (go_error + reserved) \<times> res_store" where
  "admit_fresh json_size i cid inflight ch now g =
     (case sweep now i g of (live, g) \<Rightarrow>
        if MaxPendingReservations \<le> live then (Inl ErrTooManyPending, g)
        else publish_claim json_size i cid inflight ch now False g)"

definition reserveOnDisk ::
  "(reservation \<Rightarrow> nat) \<Rightarrow> capture_identity \<Rightarrow> string \<Rightarrow> nat \<Rightarrow> instant \<Rightarrow> res_store
    \<Rightarrow> (go_error + reserved) \<times> res_store" where
  "reserveOnDisk json_size cid inflight ch now g = (case next_res_io g of (i, g) \<Rightarrow>
     case ri_ensure i of Some e \<Rightarrow> (Inl e, g) | None \<Rightarrow> (case ri_lock i of Some e \<Rightarrow> (Inl e, g)
   | None \<Rightarrow>
     (let p = reservation_path (ci_DeviceID cid) (ci_Key cid) in
      case readReservation (ri_read i) (map_of (rs_files g) p) of
        Inl e \<Rightarrow> if errors_is e ErrNotExist then admit_fresh json_size i cid inflight ch now g
                 else (Inl e, g)
      | Inr existing \<Rightarrow>
          if collectable existing now
            then admit_fresh json_size i cid inflight ch now (forget p (snd (os_Remove i p g)))
          else if rv_CaptureIdentity existing \<noteq> ci_Identity cid then (Inl ErrIdempotencyConflict, g)
          else if rv_State existing = reservationSettled \<and> rv_Response existing \<noteq> []
            then (Inr (Replay (rv_Response existing)), g)
          else if \<not> takeoverDue (rv_ReservedAt existing) now then (Inl ErrCaptureInFlight, g)
          else publish_claim json_size i (cid\<lparr>ci_MemoryID := rv_MemoryID existing\<rparr>) inflight ch now True g)))"

definition inflight_key :: "capture_identity \<Rightarrow> string" where
  "inflight_key cid = ci_DeviceID cid @ [CHR 0x00] @ ci_Key cid"

definition take_hold ::
  "(reservation \<Rightarrow> nat) \<Rightarrow> capture_identity \<Rightarrow> instant \<Rightarrow> res_store \<Rightarrow> (go_error + reserved) \<times> res_store"
where
  \<comment> \<open>the branch of the loop in which nobody holds the key\<close>
  "take_hold json_size cid now g =
     (let k = inflight_key cid; ch = rs_chans g;
          g = g\<lparr>rs_inflight := AList.update k ch (rs_inflight g), rs_chans := ch + 1\<rparr>
      in case reserveOnDisk json_size cid k ch now g of
           (Inr (Claimed c), g) \<Rightarrow> (Inr (Claimed c), g)
         | (other, g) \<Rightarrow> (other, finish k ch g))"

fun reserve_loop ::
  "(reservation \<Rightarrow> nat) \<Rightarrow> capture_identity \<Rightarrow> instant \<Rightarrow> (res_store \<Rightarrow> res_store) list \<Rightarrow> res_store
    \<Rightarrow> (go_error + reserved) \<times> res_store" where
  \<comment> \<open>each element of the list is what the rest of the program does until the channel waited on
     is closed; the timer fires when the list is used up\<close>
  "reserve_loop json_size cid now [] g =
     (if map_of (rs_inflight g) (inflight_key cid) = None then take_hold json_size cid now g
      else (Inl ErrCaptureInFlight, g))"
| "reserve_loop json_size cid now (w # waits) g =
     (if map_of (rs_inflight g) (inflight_key cid) = None then take_hold json_size cid now g
      else reserve_loop json_size cid now waits (w g))"

definition Reserve ::
  "(reservation \<Rightarrow> nat) \<Rightarrow> capture_identity \<Rightarrow> instant \<Rightarrow> (res_store \<Rightarrow> res_store) list \<Rightarrow> res_store
    \<Rightarrow> (go_error + reserved) \<times> res_store" where
  "Reserve json_size cid now waits g = (case CaptureIdentity_validate cid of Some e \<Rightarrow> (Inl e, g)
     | None \<Rightarrow> reserve_loop json_size cid now waits g)"

subsection \<open>Settle and Abandon\<close>

definition Claim_finish :: "claim \<Rightarrow> res_store \<Rightarrow> res_store" where
  "Claim_finish c g = (if cl_done c \<in> set (rs_closed g) then g else finish (cl_inflight c) (cl_done c) g)"

definition settle_claim ::
  "(reservation \<Rightarrow> nat) \<Rightarrow> claim \<Rightarrow> receipt \<Rightarrow> string \<Rightarrow> res_store \<Rightarrow> go_error option \<times> res_store" where
  "settle_claim json_size c r response g = (case Receipt_Validate r of Some e \<Rightarrow> (Some e, g)
     | None \<Rightarrow>
       if response = [] then (Some (OtherError ''no response bytes''), g)
       else if rc_IdempotencyKey r \<noteq> rv_IdempotencyKey (cl_record c)
         \<or> rc_DeviceID r \<noteq> rv_DeviceID (cl_record c)
         \<or> rc_PayloadFingerprint r \<noteq> rv_PayloadFingerprint (cl_record c)
         then (Some (OtherError ''receipt does not describe the reserved capture''), g)
       else case next_res_io g of (i, g) \<Rightarrow> (case ri_lock i of Some e \<Rightarrow> (Some e, g)
         | None \<Rightarrow> (case write_reservation json_size i (cl_path c)
               ((cl_record c)\<lparr>rv_State := reservationSettled, rv_Receipt := Some r,
                  rv_Response := response\<rparr>) g of
             (Some e, g) \<Rightarrow> (Some e, g)
           | (None, g) \<Rightarrow> (None, settled (cl_path c) g))))"

definition Claim_Settle ::
  "(reservation \<Rightarrow> nat) \<Rightarrow> claim \<Rightarrow> receipt \<Rightarrow> string \<Rightarrow> res_store \<Rightarrow> go_error option \<times> res_store" where
  "Claim_Settle json_size c r response g =
     (case settle_claim json_size c r response g of (e, g) \<Rightarrow> (e, Claim_finish c g))"

definition Claim_Abandon :: "claim \<Rightarrow> res_store \<Rightarrow> res_store" where
  "Claim_Abandon c g = Claim_finish c g"

definition replay_checks :: "capture_identity \<Rightarrow> string \<Rightarrow> (string \<Rightarrow> receipt option) \<Rightarrow> go_error + receipt" where
  "replay_checks cid response decode = (case CaptureIdentity_validate cid of Some e \<Rightarrow> Inl e
     | None \<Rightarrow> if response = [] then Inl (OtherError ''no response bytes'')
       else case decode response of None \<Rightarrow> Inl (OtherError ''the replay bytes are not a receipt'')
     | Some rc \<Rightarrow> (case Receipt_Validate rc of Some e \<Rightarrow> Inl e
     | None \<Rightarrow> if rc_IdempotencyKey rc \<noteq> ci_Key cid \<or> rc_DeviceID rc \<noteq> ci_DeviceID cid
           \<or> rc_PayloadFingerprint rc \<noteq> ci_Fingerprint cid
         then Inl (OtherError ''those replay bytes do not describe this capture'') else Inr rc))"

definition SettleFromReplay ::
  "(reservation \<Rightarrow> nat) \<Rightarrow> (string \<Rightarrow> receipt option) \<Rightarrow> capture_identity \<Rightarrow> string \<Rightarrow> res_store
    \<Rightarrow> go_error option \<times> res_store" where
  "SettleFromReplay json_size decode cid response g = (case replay_checks cid response decode of
     Inl e \<Rightarrow> (Some e, g)
   | Inr rc \<Rightarrow> (case next_res_io g of (i, g) \<Rightarrow>
     case ri_ensure i of Some e \<Rightarrow> (Some e, g) | None \<Rightarrow> (case ri_lock i of Some e \<Rightarrow> (Some e, g)
   | None \<Rightarrow>
     (let p = reservation_path (ci_DeviceID cid) (ci_Key cid) in
      case readReservation (ri_read i) (map_of (rs_files g) p) of
        Inl e \<Rightarrow> if errors_is e ErrNotExist then (None, g) else (Some e, g)
      | Inr r \<Rightarrow>
          if rv_State r = reservationSettled \<or> rv_CaptureIdentity r \<noteq> ci_Identity cid then (None, g)
          else case write_reservation json_size i p
              (r\<lparr>rv_State := reservationSettled, rv_Receipt := Some rc, rv_Response := response\<rparr>) g of
            (Some e, g) \<Rightarrow> (Some e, g)
          | (None, g) \<Rightarrow> (None, settled p g)))))"

definition NewID :: "string \<Rightarrow> instant \<Rightarrow> res_store \<Rightarrow> (go_error + string) \<times> res_store" where
  "NewID prefix now g =
     (if length (rs_entropy g) < reservationIDEntropyBytes then (Inl (OtherError ''read entropy''), g)
      else (Inr (prefix @ format_compact now @ ''_'' @ hex_string (take reservationIDEntropyBytes (rs_entropy g))),
            g\<lparr>rs_entropy := drop reservationIDEntropyBytes (rs_entropy g)\<rparr>))"

end
