(* ===== verification/GoText.thy ===== *)
theory GoText
  imports GoTime "HOL-Library.Multiset"
begin

text \<open>
  What the code uses of Go's \<open>strings\<close>, \<open>unicode\<close>, \<open>unicode/utf8\<close> and \<open>sort\<close> packages. A Go
  string is its bytes; \<open>for range s\<close> reads it as the runes of \<open>runes s\<close>, a byte that begins no
  rune standing for U+FFFD. The tables of \<open>unicode\<close> above ASCII (lower case, simple folding,
  letters, digits) are the fields of a \<open>unicode\<close> record, which the routines take as an argument;
  below U+0080 they are written out.
\<close>

subsection \<open>UTF-8\<close>

definition rune_tail :: "nat \<Rightarrow> (nat \<times> nat \<times> nat) option" where
  \<comment> \<open>by first byte: how many bytes follow, and the bounds of the first of them\<close>
  "rune_tail a =
     (if a < 128 then Some (0, 128, 191)
      else if 194 \<le> a \<and> a \<le> 223 then Some (1, 128, 191)
      else if a = 224 then Some (2, 160, 191)
      else if a = 237 then Some (2, 128, 159)
      else if 225 \<le> a \<and> a \<le> 239 then Some (2, 128, 191)
      else if a = 240 then Some (3, 144, 191)
      else if 241 \<le> a \<and> a \<le> 243 then Some (3, 128, 191)
      else if a = 244 then Some (3, 128, 143)
      else None)"

definition rune_length :: "string \<Rightarrow> nat" where
  \<comment> \<open>the bytes of the first rune, 0 if none starts here\<close>
  "rune_length s = (case s of [] \<Rightarrow> 0 | c # r \<Rightarrow> (case rune_tail (byte c) of None \<Rightarrow> 0
     | Some (n, lo, hi) \<Rightarrow>
         if n \<le> length r \<and> (0 < n \<longrightarrow> lo \<le> byte (hd r) \<and> byte (hd r) \<le> hi)
           \<and> list_all (\<lambda>b. 128 \<le> byte b \<and> byte b \<le> 191) (drop 1 (take n r))
         then n + 1 else 0))"

function utf8_valid :: "string \<Rightarrow> bool" where
  "utf8_valid s = (if s = [] then True
     else if rune_length s = 0 then False else utf8_valid (drop (rune_length s) s))"
  by pat_completeness auto
termination by (relation "measure length") auto

declare utf8_valid.simps [simp del]

definition is_rune :: "string \<Rightarrow> bool" where
  "is_rune p \<longleftrightarrow> p \<noteq> [] \<and> rune_length p = length p"

lemma rune_length_append: "is_rune p \<Longrightarrow> rune_length (p @ x) = length p"
  by (cases p) (auto simp: is_rune_def rune_length_def hd_append split: option.splits if_splits)

lemma rune_length_le: "rune_length s \<le> length s"
  by (auto simp: rune_length_def split: list.splits option.splits)

lemma take_rune: "rune_length s \<noteq> 0 \<Longrightarrow> is_rune (take (rune_length s) s)"
  using rune_length_le [of s]
  by (cases s) (auto simp: is_rune_def rune_length_def hd_take min_def split: option.splits if_splits)

lemma rune_one: "is_rune p \<Longrightarrow> length p = 1 \<longleftrightarrow> byte (hd p) < 128"
  by (cases p) (auto simp: is_rune_def rune_length_def rune_tail_def split: option.splits if_splits)

lemma byte_inj: "byte c = byte d \<longleftrightarrow> c = d"
  by (simp add: byte_def)

subsection \<open>Runes\<close>

type_synonym rune = nat

definition RuneError :: rune where "RuneError = 0xFFFD"

function segments :: "string \<Rightarrow> string list" where
  \<comment> \<open>the pieces \<open>for range\<close> steps over: a rune's bytes, or one byte that begins no rune\<close>
  "segments s = (if s = [] then []
     else let n = max 1 (rune_length s) in take n s # segments (drop n s))"
  by pat_completeness auto
termination by (relation "measure length") auto

declare segments.simps [simp del]

definition rune_of :: "string \<Rightarrow> rune" where
  "rune_of p = (if rune_length p = 0 then RuneError else (case map byte p of
       [a] \<Rightarrow> a
     | [a, b] \<Rightarrow> (a - 192) * 64 + (b - 128)
     | [a, b, c] \<Rightarrow> ((a - 224) * 64 + (b - 128)) * 64 + (c - 128)
     | [a, b, c, d] \<Rightarrow> (((a - 240) * 64 + (b - 128)) * 64 + (c - 128)) * 64 + (d - 128)
     | _ \<Rightarrow> RuneError))"

definition runes :: "string \<Rightarrow> rune list" where "runes s = map rune_of (segments s)"

definition encode_rune :: "rune \<Rightarrow> string" where
  \<comment> \<open>\<open>utf8.AppendRune\<close>\<close>
  "encode_rune r = (let r = if 0x10FFFF < r \<or> (0xD800 \<le> r \<and> r \<le> 0xDFFF) then RuneError else r
     in map char_of (if r < 128 then [r]
          else if r < 2048 then [192 + r div 64, 128 + r mod 64]
          else if r < 65536 then [224 + r div 4096, 128 + r div 64 mod 64, 128 + r mod 64]
          else [240 + r div 262144, 128 + r div 4096 mod 64, 128 + r div 64 mod 64, 128 + r mod 64]))"

record unicode =
  wide_lower :: "rune \<Rightarrow> rune"
  wide_fold :: "rune \<Rightarrow> rune" \<comment> \<open>one rune for each orbit of \<open>unicode.SimpleFold\<close>\<close>
  wide_letter :: "rune \<Rightarrow> bool"
  wide_digit :: "rune \<Rightarrow> bool"

definition ascii_only :: unicode where
  \<comment> \<open>tables with nothing above ASCII\<close>
  "ascii_only = \<lparr>wide_lower = (\<lambda>r. r), wide_fold = (\<lambda>r. r), wide_letter = (\<lambda>_. False), wide_digit = (\<lambda>_. False)\<rparr>"

definition ascii_lower :: "rune \<Rightarrow> rune" where
  "ascii_lower r = (if 65 \<le> r \<and> r \<le> 90 then r + 32 else r)"

definition to_lower :: "unicode \<Rightarrow> rune \<Rightarrow> rune" where
  "to_lower u r = (if r < 128 then ascii_lower r else wide_lower u r)"

definition fold_rune :: "unicode \<Rightarrow> rune \<Rightarrow> rune" where
  "fold_rune u r = (if r < 128 then ascii_lower r else wide_fold u r)"

definition is_letter :: "unicode \<Rightarrow> rune \<Rightarrow> bool" where
  "is_letter u r = (if r < 128 then (65 \<le> r \<and> r \<le> 90) \<or> (97 \<le> r \<and> r \<le> 122) else wide_letter u r)"

definition is_digit_rune :: "unicode \<Rightarrow> rune \<Rightarrow> bool" where
  "is_digit_rune u r = (if r < 128 then 48 \<le> r \<and> r \<le> 57 else wide_digit u r)"

definition is_space :: "rune \<Rightarrow> bool" where
  "is_space r \<longleftrightarrow> (9 \<le> r \<and> r \<le> 13) \<or> r = 32 \<or> r = 0x85 \<or> r = 0xA0 \<or> r = 0x1680
     \<or> (0x2000 \<le> r \<and> r \<le> 0x200A) \<or> r = 0x2028 \<or> r = 0x2029 \<or> r = 0x202F \<or> r = 0x205F \<or> r = 0x3000"

subsection \<open>The strings package, on runes\<close>

definition ToLower :: "unicode \<Rightarrow> string \<Rightarrow> string" where
  "ToLower u s = concat (map (\<lambda>r. encode_rune (to_lower u r)) (runes s))"

definition EqualFold :: "unicode \<Rightarrow> string \<Rightarrow> string \<Rightarrow> bool" where
  "EqualFold u s t \<longleftrightarrow> map (fold_rune u) (runes s) = map (fold_rune u) (runes t)"

definition trim_ends :: "('a \<Rightarrow> bool) \<Rightarrow> 'a list \<Rightarrow> 'a list" where
  "trim_ends P xs = rev (dropWhile P (rev (dropWhile P xs)))"

definition space_piece :: "string \<Rightarrow> bool" where "space_piece p = is_space (rune_of p)"

definition TrimSpace :: "string \<Rightarrow> string" where
  "TrimSpace s = concat (trim_ends space_piece (segments s))"

fun fields_by :: "('a \<Rightarrow> bool) \<Rightarrow> 'a list \<Rightarrow> 'a list \<Rightarrow> 'a list list" where
  \<comment> \<open>the maximal runs of elements that are not separators; the run being read is \<open>acc\<close>, reversed\<close>
  "fields_by P acc [] = (if acc = [] then [] else [rev acc])"
| "fields_by P acc (x # xs) =
     (if P x then (if acc = [] then [] else [rev acc]) @ fields_by P [] xs
      else fields_by P (x # acc) xs)"

definition FieldsFunc :: "(rune \<Rightarrow> bool) \<Rightarrow> string \<Rightarrow> string list" where
  "FieldsFunc f s = map concat (fields_by (\<lambda>p. f (rune_of p)) [] (segments s))"

definition Fields :: "string \<Rightarrow> string list" where "Fields s = FieldsFunc is_space s"

fun contains :: "string \<Rightarrow> string \<Rightarrow> bool" where
  "contains [] p = (p = [])"
| "contains (c # s) p = (has_prefix (c # s) p \<or> contains s p)"

fun join :: "string \<Rightarrow> string list \<Rightarrow> string" where
  "join sep [] = []"
| "join sep [s] = s"
| "join sep (s # t # ss) = s @ sep @ join sep (t # ss)"

fun index_byte :: "char \<Rightarrow> string \<Rightarrow> nat option" where
  "index_byte c [] = None"
| "index_byte c (d # s) = (if d = c then Some 0 else map_option Suc (index_byte c s))"

definition last_index_byte :: "char \<Rightarrow> string \<Rightarrow> nat option" where
  "last_index_byte c s = map_option (\<lambda>i. length s - 1 - i) (index_byte c (rev s))"

fun split_byte :: "char \<Rightarrow> string \<Rightarrow> string list" where
  \<comment> \<open>\<open>strings.Split\<close> at a one-byte separator\<close>
  "split_byte c [] = [[]]"
| "split_byte c (d # s) = (if d = c then [] # split_byte c s
     else case split_byte c s of [] \<Rightarrow> [[d]] | f # fs \<Rightarrow> (d # f) # fs)"

subsection \<open>ASCII\<close>

definition ascii :: "string \<Rightarrow> bool" where "ascii s \<longleftrightarrow> list_all (\<lambda>c. byte c < 128) s"

lemma segments_ascii: "ascii s \<Longrightarrow> segments s = map (\<lambda>c. [c]) s"
proof (induction s)
  case (Cons c s)
  then have "rune_length (c # s) = 1" by (simp add: ascii_def rune_length_def rune_tail_def)
  with Cons show ?case by (simp add: segments.simps [of "c # s"] ascii_def)
qed (simp add: segments.simps)

lemma runes_ascii: "ascii s \<Longrightarrow> runes s = map byte s"
proof -
  assume a: "ascii s"
  have "rune_of [c] = byte c" if "byte c < 128" for c
    using that by (simp add: rune_of_def rune_length_def rune_tail_def)
  then show ?thesis using a by (simp add: runes_def segments_ascii list_all_iff ascii_def)
qed

lemma ToLower_ascii: "ascii s \<Longrightarrow> ToLower u s = map (\<lambda>c. char_of (ascii_lower (byte c))) s"
proof -
  assume a: "ascii s"
  have "encode_rune (to_lower u (byte c)) = [char_of (ascii_lower (byte c))]" if "byte c < 128" for c
    using that by (simp add: encode_rune_def to_lower_def ascii_lower_def)
  then have "concat (map (\<lambda>c. encode_rune (to_lower u (byte c))) s) = map (\<lambda>c. char_of (ascii_lower (byte c))) s"
    using a by (induction s) (auto simp: ascii_def)
  then show ?thesis using a by (simp add: ToLower_def runes_ascii comp_def)
qed

lemma ToLower_lower:
  assumes "list_all (\<lambda>c. byte c < 65 \<or> 90 < byte c \<and> byte c < 128) s"
  shows "ToLower u s = s"
proof -
  have "ascii s" using assms by (auto simp: ascii_def list_all_iff)
  moreover have "map (\<lambda>c. char_of (ascii_lower (byte c))) s = s"
    using assms by (induction s) (auto simp: ascii_lower_def byte_def)
  ultimately show ?thesis by (simp add: ToLower_ascii)
qed

lemma trim_ends_none: "list_all (\<lambda>x. \<not> P x) xs \<Longrightarrow> trim_ends P xs = xs"
proof -
  assume "list_all (\<lambda>x. \<not> P x) xs"
  then have "dropWhile P xs = xs" "dropWhile P (rev xs) = rev xs"
    by (auto simp: list_all_iff dropWhile_eq_self_iff hd_rev)
  then show ?thesis by (simp add: trim_ends_def)
qed

lemma TrimSpace_plain:
  assumes "list_all (\<lambda>c. 32 < byte c \<and> byte c < 128) s"
  shows "TrimSpace s = s"
proof -
  have a: "ascii s" using assms by (auto simp: ascii_def list_all_iff)
  have "\<not> space_piece [c]" if "32 < byte c" "byte c < 128" for c
    using that by (simp add: space_piece_def rune_of_def rune_length_def rune_tail_def is_space_def)
  then have "list_all (\<lambda>p. \<not> space_piece p) (map (\<lambda>c. [c]) s)" using assms by (auto simp: list_all_iff)
  then show ?thesis by (simp add: TrimSpace_def segments_ascii [OF a] trim_ends_none)
qed

subsection \<open>Sorting\<close>

definition sorted_by :: "('a \<Rightarrow> 'a \<Rightarrow> bool) \<Rightarrow> 'a list \<Rightarrow> bool" where
  "sorted_by lt xs \<longleftrightarrow> sorted_wrt (\<lambda>a b. \<not> lt b a) xs"

definition sorts :: "('a \<Rightarrow> 'a \<Rightarrow> bool) \<Rightarrow> ('a list \<Rightarrow> 'a list) \<Rightarrow> bool" where
  \<comment> \<open>what \<open>sort.Slice\<close> promises: a sorted permutation, equal elements in any order\<close>
  "sorts lt f \<longleftrightarrow> (\<forall>xs. mset (f xs) = mset xs \<and> sorted_by lt (f xs))"

fun insert_by :: "('a \<Rightarrow> 'a \<Rightarrow> bool) \<Rightarrow> 'a \<Rightarrow> 'a list \<Rightarrow> 'a list" where
  "insert_by lt x [] = [x]"
| "insert_by lt x (y # ys) = (if lt y x then y # insert_by lt x ys else x # y # ys)"

definition sort_by :: "('a \<Rightarrow> 'a \<Rightarrow> bool) \<Rightarrow> 'a list \<Rightarrow> 'a list" where
  \<comment> \<open>\<open>sort.SliceStable\<close>\<close>
  "sort_by lt xs = foldr (insert_by lt) xs []"

definition weak_order :: "('a \<Rightarrow> 'a \<Rightarrow> bool) \<Rightarrow> bool" where
  "weak_order lt \<longleftrightarrow> (\<forall>a b c. (\<not> lt a b \<longrightarrow> \<not> lt b c \<longrightarrow> \<not> lt a c) \<and> (lt a b \<longrightarrow> \<not> lt b a))"

lemma mset_insert_by [simp]: "mset (insert_by lt x xs) = add_mset x (mset xs)"
  by (induction xs) auto

lemma mset_sort_by [simp]: "mset (sort_by lt xs) = mset xs"
  by (induction xs) (auto simp: sort_by_def)

lemma set_sort_by [simp]: "set (sort_by lt xs) = set xs"
  by (metis mset_sort_by set_mset_mset)

lemma length_sort_by [simp]: "length (sort_by lt xs) = length xs"
  by (metis mset_sort_by size_mset)

lemma set_insert_by [simp]: "set (insert_by lt x xs) = insert x (set xs)"
  by (induction xs) auto

lemma sorted_insert_by:
  "weak_order lt \<Longrightarrow> sorted_by lt xs \<Longrightarrow> sorted_by lt (insert_by lt x xs)"
proof (induction xs)
  case (Cons y ys)
  have t: "\<not> lt a c" if "\<not> lt a b" "\<not> lt b c" for a b c
    using Cons.prems(1) that unfolding weak_order_def by blast
  have as: "lt y x \<Longrightarrow> \<not> lt x y"
    using Cons.prems(1) unfolding weak_order_def by blast
  show ?case
    using Cons t [of _ y x] as by (cases "lt y x") (auto simp: sorted_by_def)
qed (simp add: sorted_by_def)

lemma sorted_sort_by [simp]: "weak_order lt \<Longrightarrow> sorted_by lt (sort_by lt xs)"
  by (induction xs) (simp_all add: sort_by_def sorted_insert_by, simp add: sorted_by_def)

lemma sorts_sort_by: "weak_order lt \<Longrightarrow> sorts lt (sort_by lt)"
  by (simp add: sorts_def)

lemma sorted_unique:
  assumes "mset xs = mset ys" "sorted_by lt xs" "sorted_by lt ys"
    "\<And>a b. a \<in> set xs \<Longrightarrow> b \<in> set xs \<Longrightarrow> \<not> lt a b \<Longrightarrow> \<not> lt b a \<Longrightarrow> a = b"
  shows "xs = ys"
  using assms
proof (induction xs arbitrary: ys)
  case (Cons x xs)
  then obtain y zs where y: "ys = y # zs" by (cases ys) auto
  have "x \<in> set ys" "y \<in> set (x # xs)"
    using Cons.prems(1) y by (metis list.set_intros(1) set_mset_mset)+
  then have "x = y"
    using Cons.prems(2-4) y unfolding sorted_by_def by auto
  then show ?case
    using Cons y by (auto simp: sorted_by_def)
qed simp

end
