(* ===== verification/CaptureIdentity.thy ===== *)
theory CaptureIdentity
  imports Reservations GoText
begin

text \<open>
  The identity of a capture and the memory it names, internal/companion/capture.go, with what they
  use of \<open>encoding/json\<close>: how a struct of strings is encoded. A string is its bytes; the
  encoder reads them as UTF-8, keeps the safe characters, escapes the others, and replaces
  each byte that is not part of a rune.
\<close>

subsection \<open>Strings in JSON\<close>

abbreviation backslash :: char where "backslash \<equiv> CHR 0x5C"
abbreviation dquote :: char where "dquote \<equiv> CHR 0x22"

definition json_ascii :: "char \<Rightarrow> string" where
  "json_ascii c =
     (if c = backslash \<or> c = dquote then [backslash, c]
      else if byte c = 8 then [backslash, CHR ''b'']
      else if byte c = 12 then [backslash, CHR ''f'']
      else if byte c = 10 then [backslash, CHR ''n'']
      else if byte c = 13 then [backslash, CHR ''r'']
      else if byte c = 9 then [backslash, CHR ''t'']
      else if byte c < 32 \<or> c = CHR ''<'' \<or> c = CHR ''>'' \<or> c = CHR ''&'' then
        [backslash, CHR ''u'', CHR ''0'', CHR ''0'', hex_digit (byte c div 16), hex_digit (byte c mod 16)]
      else [c])"

definition json_rune :: "string \<Rightarrow> string" where
  \<comment> \<open>the line separators U+2028 and U+2029 are escaped too\<close>
  "json_rune p =
     (if length p = 1 then json_ascii (hd p)
      else if map byte p = [226, 128, 168] then backslash # ''u2028''
      else if map byte p = [226, 128, 169] then backslash # ''u2029''
      else p)"

function json_chars :: "string \<Rightarrow> string" where
  "json_chars s = (if s = [] then []
     else let n = rune_length s in
       if n = 0 then (backslash # ''ufffd'') @ json_chars (drop 1 s)
       else json_rune (take n s) @ json_chars (drop n s))"
  by pat_completeness auto
termination by (relation "measure length") auto

declare json_chars.simps [simp del]

definition json_string :: "string \<Rightarrow> string" where
  "json_string s = dquote # json_chars s @ [dquote]"

subsection \<open>The identity of a capture\<close>

definition canonical_capture :: "capture \<Rightarrow> string" where
  \<comment> \<open>\<open>json.Marshal\<close> of the anonymous struct in \<open>captureIdentity\<close>\<close>
  "canonical_capture c =
     ''{'' @ json_string ''schema'' @ '':'' @ json_string ''mora.companion.capture''
     @ '','' @ json_string ''schema_version'' @ '':'' @ show_nat (nat SchemaVersion)
     @ '','' @ json_string ''device_id'' @ '':'' @ json_string (ca_DeviceID c)
     @ '','' @ json_string ''captured_at'' @ '':'' @ json_string (ca_CapturedAt c)
     @ '','' @ json_string ''requested_lane'' @ '':'' @ json_string (ca_RequestedLane c)
     @ '','' @ json_string ''intent'' @ '':'' @ json_string (ca_Intent c)
     @ '','' @ json_string ''scope'' @ '':'' @ json_string (ca_Scope c)
     @ '','' @ json_string ''text'' @ '':'' @ json_string (ca_Text c) @ ''}''"

definition captureIdentity :: "capture \<Rightarrow> string" where
  "captureIdentity c = ''sha256:'' @ hex_string (sha256 (canonical_capture c))"

definition captureMemoryID :: "capture \<Rightarrow> string \<Rightarrow> string" where
  "captureMemoryID c identity =
     (let sum = sha256 (ca_DeviceID c @ [CHR 0x00] @ ca_IdempotencyKey c @ [CHR 0x00] @ identity);
          stamp = (case parse_rfc3339 (ca_CapturedAt c) of None \<Rightarrow> ''00000000_000000''
            | Some t \<Rightarrow> format_compact t)
      in PrefixMemory @ stamp @ ''_'' @ hex_string (take 4 sum))"

subsection \<open>Reading it back\<close>

lemma hex_digit_inj: "m < 16 \<Longrightarrow> n < 16 \<Longrightarrow> hex_digit m = hex_digit n \<Longrightarrow> m = n"
proof -
  assume *: "m < 16" "n < 16" "hex_digit m = hex_digit n"
  then have "byte (hex_digit m) = byte (hex_digit n)" by simp
  with * show ?thesis by (auto simp: hex_digit_def byte_def split: if_splits)
qed

lemma hex_pair_inj:
  assumes "hex_digit (m div 16) = hex_digit (n div 16)" "hex_digit (m mod 16) = hex_digit (n mod 16)"
    "m < 128" "n < 128"
  shows "m = n"
proof -
  have "m div 16 < 16" "n div 16 < 16" using assms(3,4) by auto
  then have "m div 16 = n div 16" "m mod 16 = n mod 16"
    using hex_digit_inj assms(1,2) by auto
  then show ?thesis by (metis div_mult_mod_eq)
qed

definition unescape_short :: "char \<Rightarrow> char" where
  "unescape_short e = (if e = CHR ''b'' then CHR 0x08 else if e = CHR ''f'' then CHR 0x0C
     else if e = CHR ''n'' then CHR 0x0A else if e = CHR ''r'' then CHR 0x0D
     else if e = CHR ''t'' then CHR 0x09 else e)"

lemma json_ascii_cases:
  obtains (plain) "json_ascii c = [c]" "c \<noteq> backslash" "c \<noteq> dquote"
    | (short) e where "json_ascii c = [backslash, e]" "e \<noteq> CHR ''u''" "c = unescape_short e"
    | (hex) "json_ascii c = [backslash, CHR ''u'', CHR ''0'', CHR ''0'', hex_digit (byte c div 16), hex_digit (byte c mod 16)]"
proof -
  have b: "byte c = 8 \<longleftrightarrow> c = CHR 0x08" "byte c = 12 \<longleftrightarrow> c = CHR 0x0C" "byte c = 10 \<longleftrightarrow> c = CHR 0x0A"
    "byte c = 13 \<longleftrightarrow> c = CHR 0x0D" "byte c = 9 \<longleftrightarrow> c = CHR 0x09"
    using byte_inj [of c "CHR 0x08"] byte_inj [of c "CHR 0x0C"] byte_inj [of c "CHR 0x0A"]
      byte_inj [of c "CHR 0x0D"] byte_inj [of c "CHR 0x09"] by (simp_all add: byte_def)
  note d = json_ascii_def [of c, unfolded b]
  show thesis
  proof (cases "c = backslash \<or> c = dquote")
    case True
    then show thesis by (intro short [of c]) (auto simp: json_ascii_def unescape_short_def)
  next
    case special: False
    show thesis
    proof (cases "c \<in> {CHR 0x08, CHR 0x0C, CHR 0x0A, CHR 0x0D, CHR 0x09}")
      case True
      then consider "c = CHR 0x08" | "c = CHR 0x0C" | "c = CHR 0x0A" | "c = CHR 0x0D" | "c = CHR 0x09" by blast
      then show thesis
      proof cases
        case 1 show thesis by (rule short [of "CHR ''b''"]) (simp_all add: 1 unescape_short_def json_ascii_def byte_def)
      next
        case 2 show thesis by (rule short [of "CHR ''f''"]) (simp_all add: 2 unescape_short_def json_ascii_def byte_def)
      next
        case 3 show thesis by (rule short [of "CHR ''n''"]) (simp_all add: 3 unescape_short_def json_ascii_def byte_def)
      next
        case 4 show thesis by (rule short [of "CHR ''r''"]) (simp_all add: 4 unescape_short_def json_ascii_def byte_def)
      next
        case 5 show thesis by (rule short [of "CHR ''t''"]) (simp_all add: 5 unescape_short_def json_ascii_def byte_def)
      qed
    next
      case False
      with special d have "json_ascii c = (if byte c < 32 \<or> c = CHR ''<'' \<or> c = CHR ''>'' \<or> c = CHR ''&''
          then [backslash, CHR ''u'', CHR ''0'', CHR ''0'', hex_digit (byte c div 16), hex_digit (byte c mod 16)]
          else [c])" by simp
      then show thesis using plain hex special by (metis (full_types))
    qed
  qed
qed

lemma json_ascii_inj:
  assumes "json_ascii c @ x = json_ascii d @ y" "byte c < 128" "byte d < 128"
  shows "c = d \<and> x = y"
  using assms hex_pair_inj [of "byte c" "byte d"]
  by (cases c rule: json_ascii_cases; cases d rule: json_ascii_cases) (auto simp: byte_inj)

lemma json_rune_cases:
  assumes "is_rune p"
  obtains (ascii) c where "p = [c]" "byte c < 128" "json_rune p = json_ascii c"
    | (separator) n where "map byte p = [226, 128, 168 + n]" "n < 2" "length p \<noteq> 1"
        "json_rune p = backslash # ''u202'' @ [if n = 0 then CHR ''8'' else CHR ''9'']"
    | (raw) "128 \<le> byte (hd p)" "json_rune p = p"
proof (cases "length p = 1")
  case True
  then obtain c where "p = [c]" by (cases p) auto
  then show thesis using ascii rune_one [OF assms] True by (simp add: json_rune_def)
next
  case False
  then have "128 \<le> byte (hd p)" using rune_one [OF assms] by simp
  note large = this
  show thesis
  proof (cases "map byte p = [226, 128, 168]")
    case True
    then show thesis by (intro separator [of 0]) (use False in \<open>simp_all add: json_rune_def\<close>)
  next
    case not_first: False
    show thesis
    proof (cases "map byte p = [226, 128, 169]")
      case True
      then show thesis by (intro separator [of 1]) (use False in \<open>simp_all add: json_rune_def\<close>)
    next
      case False
      then show thesis using raw large not_first \<open>length p \<noteq> 1\<close> by (simp add: json_rune_def)
    qed
  qed
qed

lemma json_ascii_head: "byte c < 128 \<Longrightarrow> json_ascii c @ x = r @ y \<Longrightarrow> r \<noteq> [] \<Longrightarrow> byte (hd r) < 128"
  by (cases c rule: json_ascii_cases; cases r) (auto simp: byte_def)

lemma json_rune_apart:
  assumes "is_rune p" "is_rune q" "json_rune p @ x = json_rune q @ y" "128 \<le> byte (hd p)" "json_rune p = p"
  shows "json_rune q = q"
  using assms(2)
proof (cases rule: json_rune_cases)
  case (ascii c)
  then show ?thesis using json_ascii_head [of c y p x] assms by (auto simp: is_rune_def)
next
  case (separator n)
  then show ?thesis using assms by (cases p) (auto simp: is_rune_def byte_def)
qed

lemma raw_rune_inj: "is_rune p \<Longrightarrow> is_rune q \<Longrightarrow> p @ x = q @ y \<Longrightarrow> p = q \<and> x = y"
  using rune_length_append [of p x] rune_length_append [of q y] append_eq_append_conv by fastforce

lemma json_rune_inj:
  assumes "json_rune p @ x = json_rune q @ y" "is_rune p" "is_rune q"
  shows "p = q \<and> x = y"
  using assms(2)
proof (cases rule: json_rune_cases)
  case raw
  then show ?thesis using json_rune_apart [OF assms(2,3,1)] raw_rune_inj [OF assms(2,3)] assms(1) by simp
next
  case p: (ascii c)
  show ?thesis using assms(3)
  proof (cases rule: json_rune_cases)
    case (ascii d)
    then show ?thesis using p json_ascii_inj assms(1) by simp
  next
    case (separator n)
    then show ?thesis using p assms(1) by (cases c rule: json_ascii_cases) auto
  next
    case raw
    then show ?thesis using json_ascii_head [of c x q y] p assms by (auto simp: is_rune_def)
  qed
next
  case p: (separator n)
  show ?thesis using assms(3)
  proof (cases rule: json_rune_cases)
    case (ascii d)
    then show ?thesis using p assms(1) by (cases d rule: json_ascii_cases) auto
  next
    case q: (separator m)
    then have "n = m" using p assms(1) by (auto split: if_splits)
    then have "map byte p = map byte q" using p q by simp
    then have "p = q" by (rule map_injective) (simp add: inj_def byte_inj)
    then show ?thesis using assms(1) by simp
  next
    case raw
    then show ?thesis using p assms by (cases q) (auto simp: is_rune_def byte_def)
  qed
qed

lemma json_rune_starts:
  assumes "is_rune p" shows "json_rune p \<noteq> [] \<and> hd (json_rune p) \<noteq> dquote"
  using assms
proof (cases rule: json_rune_cases)
  case (ascii c)
  then show ?thesis by (cases c rule: json_ascii_cases) auto
qed (use assms in \<open>auto simp: is_rune_def byte_def\<close>)

lemma json_chars_Nil [simp]: "json_chars [] = []"
  by (simp add: json_chars.simps [of "[]"])

lemma utf8_valid_Nil [simp]: "utf8_valid []"
  by (simp add: utf8_valid.simps [of "[]"])

lemma utf8_valid_rune: "s \<noteq> [] \<Longrightarrow> utf8_valid s \<Longrightarrow>
    0 < rune_length s \<and> is_rune (take (rune_length s) s) \<and> utf8_valid (drop (rune_length s) s)"
  using take_rune [of s] utf8_valid.simps [of s] by (auto split: if_splits)

lemma json_chars_rune: "s \<noteq> [] \<Longrightarrow> utf8_valid s \<Longrightarrow>
    json_chars s = json_rune (take (rune_length s) s) @ json_chars (drop (rune_length s) s)"
  using utf8_valid_rune [of s] by (subst json_chars.simps) (simp add: Let_def)

lemma json_chars_stop: "u \<noteq> [] \<Longrightarrow> utf8_valid u \<Longrightarrow> json_chars u @ w \<noteq> dquote # v"
  using json_chars_rune [of u] json_rune_starts [of "take (rune_length u) u"] utf8_valid_rune [of u]
  by (cases "json_rune (take (rune_length u) u)") auto

lemma json_chars_inj:
  "utf8_valid s \<Longrightarrow> utf8_valid t \<Longrightarrow> json_chars s @ dquote # x = json_chars t @ dquote # y \<Longrightarrow> s = t \<and> x = y"
proof (induction "length s" arbitrary: s t rule: less_induct)
  case less
  consider "s = []" "t = []" | "s = []" "t \<noteq> []" | "s \<noteq> []" "t = []" | "s \<noteq> []" "t \<noteq> []" by blast
  then show ?case
  proof cases
    case 1
    then show ?thesis using less.prems by simp
  next
    case 2
    then show ?thesis using less.prems(3) json_chars_stop [OF 2(2) less.prems(2), of "dquote # y" x] by simp
  next
    case 3
    then show ?thesis using less.prems(3) json_chars_stop [OF 3(1) less.prems(1), of "dquote # x" y] by simp
  next
    case 4
    note v = utf8_valid_rune [OF 4(1) less.prems(1)] utf8_valid_rune [OF 4(2) less.prems(2)]
    let ?m = "rune_length s" and ?n = "rune_length t"
    have r: "take ?m s = take ?n t" "json_chars (drop ?m s) @ dquote # x = json_chars (drop ?n t) @ dquote # y"
      using json_rune_inj [of "take ?m s" _ "take ?n t"] v less.prems(3)
      unfolding json_chars_rune [OF 4(1) less.prems(1)] json_chars_rune [OF 4(2) less.prems(2)] append_assoc
      by blast+
    have shorter: "length (drop ?m s) < length s" using v(1) 4(1) by simp
    have "drop ?m s = drop ?n t \<and> x = y"
      by (rule less.hyps [OF shorter _ _ r(2)]) (simp_all only: v)
    then show ?thesis using r(1) by (metis append_take_drop_id)
  qed
qed

lemma json_string_inj:
  "utf8_valid s \<Longrightarrow> utf8_valid t \<Longrightarrow> json_string s @ x = json_string t @ y \<longleftrightarrow> s = t \<and> x = y"
  unfolding json_string_def append_Cons append_assoc list.inject append_Nil
  using json_chars_inj [of s t x y] by blast

lemma json_string_eq: "utf8_valid s \<Longrightarrow> utf8_valid t \<Longrightarrow> json_string s = json_string t \<longleftrightarrow> s = t"
  using json_string_inj [of s t "[]" "[]"] by simp

lemma hex_string_inj:
  "list_all (\<lambda>b. b < 256) bs \<Longrightarrow> list_all (\<lambda>b. b < 256) cs \<Longrightarrow> hex_string bs = hex_string cs \<Longrightarrow> bs = cs"
proof (induction bs arbitrary: cs)
  case (Cons b bs)
  then obtain c ds where c: "cs = c # ds" by (cases cs) (auto simp: hex_string_def)
  have "b div 16 < 16" "c div 16 < 16" using Cons.prems c by auto
  then have "b div 16 = c div 16" "b mod 16 = c mod 16"
    using Cons.prems c hex_digit_inj by (auto simp: hex_string_def)
  then have "b = c" by (metis div_mult_mod_eq)
  then show ?case using Cons c by (auto simp: hex_string_def)
qed (auto simp: hex_string_def)

lemma sha256_bytes: "list_all (\<lambda>b. b < 256) (sha256 s)"
  by (auto simp: sha256_def list_all_iff be_bytes_def)

text \<open>C21: The identity of a capture binds everything that decides what is written. Two captures of
  well-formed UTF-8 have the same canonical document exactly when device, stamp, lane, intent,
  scope and text agree; so captures that differ in any of these get the same identity only if
  their documents are a collision of SHA-256, and the idempotency key plays no part.\<close>

theorem identity_binds_the_capture:
  assumes "list_all utf8_valid [ca_DeviceID c, ca_CapturedAt c, ca_RequestedLane c, ca_Intent c, ca_Scope c, ca_Text c]"
    and "list_all utf8_valid [ca_DeviceID d, ca_CapturedAt d, ca_RequestedLane d, ca_Intent d, ca_Scope d, ca_Text d]"
  shows "(canonical_capture c = canonical_capture d \<longleftrightarrow>
      ca_DeviceID c = ca_DeviceID d \<and> ca_CapturedAt c = ca_CapturedAt d \<and> ca_RequestedLane c = ca_RequestedLane d
      \<and> ca_Intent c = ca_Intent d \<and> ca_Scope c = ca_Scope d \<and> ca_Text c = ca_Text d)
    \<and> (captureIdentity c = captureIdentity d \<longleftrightarrow> sha256 (canonical_capture c) = sha256 (canonical_capture d))"
  using assms hex_string_inj [OF sha256_bytes sha256_bytes]
  by (auto simp: canonical_capture_def captureIdentity_def json_string_inj json_string_eq)

definition note_capture :: "string \<Rightarrow> capture" where
  "note_capture text = \<lparr>hd_Schema = ''mora.companion.capture'', hd_SchemaVersion = SchemaVersion,
     ca_IdempotencyKey = ''key-1'', ca_DeviceID = ''dev_a'', ca_CapturedAt = ''1970-01-01T00:00:00Z'',
     ca_RequestedLane = LaneMemory, ca_Intent = IntentRemember, ca_Scope = ''personal'', ca_Text = text,
     ca_PayloadFingerprint = Fingerprint text\<rparr>"

theorem identity_binds_the_capture_witness:
  "canonical_capture (note_capture ''say <hi>'') \<noteq> canonical_capture (note_capture ''say hi'')"
proof -
  have u: "utf8_valid ''dev_a''" "utf8_valid ''1970-01-01T00:00:00Z''" "utf8_valid ''memory''" "utf8_valid ''remember''"
    "utf8_valid ''personal''" "utf8_valid ''say <hi>''" "utf8_valid ''say hi''" by code_simp+
  from identity_binds_the_capture [of "note_capture ''say <hi>''" "note_capture ''say hi''"] u show ?thesis
    by (simp add: note_capture_def)
qed

end
