(* ===== verification/Http.thy ===== *)
theory Http
  imports RegistryOps
begin

text \<open>
  What the listener of internal/companion/server.go uses of \<open>net\<close> and \<open>net/http\<close>, its
  response writers, and the checks on addresses and hosts: splitting host and port, parsing an
  IP address, the Host guard's comparisons and the grammar of the one extra Host an operator may
  allow. A response is its status, the headers set on it in order, and its body; the messages of
  startup errors are left out.
\<close>

record response =
  rp_Status :: nat
  rp_Headers :: "(string \<times> string) list"
  rp_Body :: string

record request =
  rq_Method :: string
  rq_EscapedPath :: string \<comment> \<open>\<open>r.URL.EscapedPath()\<close>\<close>
  rq_Host :: string
  rq_RemoteAddr :: string
  rq_Header :: "(string \<times> string) list" \<comment> \<open>one entry per value, keys canonical\<close>
  rq_Body :: "string option" \<comment> \<open>\<open>None\<close>: reading it fails\<close>

definition MaxHeaderBytes :: nat where "MaxHeaderBytes = 8192"
definition RetryAfterSeconds :: nat where "RetryAfterSeconds = 2"

abbreviation LoopbackHost :: string where "LoopbackHost \<equiv> ''127.0.0.1''"

subsection \<open>Responses\<close>

definition json_headers :: "(string \<times> string) list" where
  "json_headers = [(''Content-Type'', ''application/json; charset=utf-8''), (''Cache-Control'', ''no-store'')]"

definition newline :: string where "newline = [CHR 0x0A]"

definition quoted :: "string \<Rightarrow> string" where
  \<comment> \<open>\<open>%q\<close> of text without quotes, backslashes or control characters: the codes and field
     paths of this package\<close>
  "quoted s = CHR 0x22 # s @ [CHR 0x22]"

definition writeOpaque :: "(string \<times> string) list \<Rightarrow> nat \<Rightarrow> string \<Rightarrow> response" where
  \<comment> \<open>the headers the caller has set come first\<close>
  "writeOpaque hs status code = \<lparr>rp_Status = status, rp_Headers = hs @ json_headers,
     rp_Body = ''{'' @ newline @ ''  '' @ quoted ''error'' @ '': '' @ quoted code @ newline @ ''}'' @ newline\<rparr>"

definition unauthorizedBody :: string where
  "unauthorizedBody = ''{'' @ newline @ ''  '' @ quoted ''error'' @ '': '' @ quoted ''unauthorized'' @ newline
     @ ''}'' @ newline"

definition writeUnauthorized :: response where
  "writeUnauthorized = \<lparr>rp_Status = 401, rp_Headers = json_headers, rp_Body = unauthorizedBody\<rparr>"

definition writeRejection :: "nat \<Rightarrow> string \<Rightarrow> string \<Rightarrow> response" where
  \<comment> \<open>the arguments are the code and the field of the schema error\<close>
  "writeRejection status code fld =
     (if fld = [] then writeOpaque [] status code
      else \<lparr>rp_Status = status, rp_Headers = json_headers,
        rp_Body = ''{'' @ newline @ ''  '' @ quoted ''error'' @ '': '' @ quoted code @ '','' @ newline
          @ ''  '' @ quoted ''field'' @ '': '' @ quoted fld @ newline @ ''}'' @ newline\<rparr>)"

definition writePayload :: "go_error + string \<Rightarrow> response \<times> bool" where
  \<comment> \<open>the argument is what \<open>Marshal\<close> made of the payload; the flag is whether it was served\<close>
  "writePayload marshalled = (case marshalled of
     Inl e \<Rightarrow> (writeOpaque [] 500 ''internal'', False)
   | Inr body \<Rightarrow> (\<lparr>rp_Status = 200, rp_Headers = json_headers, rp_Body = body\<rparr>, True))"

definition writeKernelFailure :: "go_error \<Rightarrow> response" where
  "writeKernelFailure e =
     (let hs = [(''Retry-After'', show_nat RetryAfterSeconds)] in
      if errors_is e DeadlineExceeded then writeOpaque hs 503 ''timeout''
      else if errors_is e ErrCaptureInFlight then writeOpaque hs 503 ''in_flight''
      else if errors_is e ErrTooManyPending then writeOpaque hs 503 ''too_many_pending''
      else writeOpaque hs 503 ''unavailable'')"

definition busy :: response where
  \<comment> \<open>a taken slot\<close>
  "busy = writeOpaque [(''Retry-After'', show_nat RetryAfterSeconds)] 503 ''busy''"

subsection \<open>Requests\<close>

definition header_get :: "string \<Rightarrow> request \<Rightarrow> string" where
  "header_get k r = (case map_of (rq_Header r) k of None \<Rightarrow> [] | Some v \<Rightarrow> v)"

definition headerBytes :: "(string \<times> string) list \<Rightarrow> nat" where
  "headerBytes h = sum_list (map (\<lambda>(k, v). length k + length v + 4) h)"

definition fold_case :: "char \<Rightarrow> char" where
  "fold_case c = (if 65 \<le> byte c \<and> byte c \<le> 90 then char_of (byte c + 32) else c)"

definition equalFoldASCII :: "string \<Rightarrow> string \<Rightarrow> bool" where
  "equalFoldASCII a b \<longleftrightarrow> length a = length b \<and> list_all2 (\<lambda>x y. fold_case x = fold_case y) a b"

definition bearerToken :: "string \<Rightarrow> string" where
  \<comment> \<open>Unicode folding reaches no letter of the scheme from outside ASCII\<close>
  "bearerToken h = (if 7 \<le> length h \<and> equalFoldASCII (take 7 h) ''bearer '' then drop 7 h else [])"

subsection \<open>Addresses\<close>

definition split_last :: "char \<Rightarrow> string \<Rightarrow> (string \<times> string) option" where
  \<comment> \<open>before and after the last occurrence\<close>
  "split_last c s = (if c \<in> set s
     then Some (rev (drop 1 (dropWhile (\<lambda>x. x \<noteq> c) (rev s))), rev (takeWhile (\<lambda>x. x \<noteq> c) (rev s)))
     else None)"

definition SplitHostPort :: "string \<Rightarrow> (string \<times> string) option" where
  "SplitHostPort s = (case split_last CHR '':'' s of
     None \<Rightarrow> None
   | Some (pre, port) \<Rightarrow>
      if hd s = CHR ''['' then
        (case cut_char s CHR '']'' of (inner, rest, found) \<Rightarrow>
          if \<not> found \<or> pre \<noteq> inner @ '']'' then None
          else if CHR ''['' \<in> set (tl s) \<or> CHR '']'' \<in> set rest then None
          else Some (tl inner, port))
      else if CHR '':'' \<in> set pre then None
      else if CHR ''['' \<in> set s \<or> CHR '']'' \<in> set s then None
      else Some (pre, port))"

fun split_all :: "char \<Rightarrow> string \<Rightarrow> string list" where
  \<comment> \<open>\<open>strings.Split\<close> for a one-byte separator\<close>
  "split_all c [] = [[]]"
| "split_all c (x # xs) = (case split_all c xs of [] \<Rightarrow> [[x]]
     | f # fs \<Rightarrow> if x = c then [] # f # fs else (x # f) # fs)"

definition decimal :: "string \<Rightarrow> nat" where
  "decimal s = foldl (\<lambda>a c. 10 * a + digit_val c) 0 s"

definition octet :: "string \<Rightarrow> nat option" where
  "octet f = (if f \<noteq> [] \<and> list_all is_digit f \<and> (hd f = CHR ''0'' \<longrightarrow> length f = 1) \<and> decimal f \<le> 255
     then Some (decimal f) else None)"

definition ipv4_fields :: "string \<Rightarrow> nat list option" where
  "ipv4_fields s = (let fs = map octet (split_all CHR ''.'' s) in
     if length fs = 4 \<and> list_all (\<lambda>f. f \<noteq> None) fs then Some (map the fs) else None)"

definition hex_val :: "char \<Rightarrow> nat option" where
  "hex_val c = (if is_digit c then Some (digit_val c)
     else if 97 \<le> byte c \<and> byte c \<le> 102 then Some (byte c - 87)
     else if 65 \<le> byte c \<and> byte c \<le> 70 then Some (byte c - 55) else None)"

fun ipv6_groups :: "nat \<Rightarrow> nat list \<Rightarrow> nat option \<Rightarrow> string \<Rightarrow> (nat list \<times> nat option \<times> string) option" where
  \<comment> \<open>the loop of \<open>netip\<close>'s parser: groups left, bytes so far, where the ellipsis stands, the rest\<close>
  "ipv6_groups 0 ip ell s = Some (ip, ell, s)"
| "ipv6_groups (Suc k) ip ell s =
     (let hex = takeWhile (\<lambda>c. hex_val c \<noteq> None) s; rest = drop (length hex) s;
          acc = foldl (\<lambda>a c. 16 * a + the (hex_val c)) 0 hex;
          ip' = ip @ [acc div 256, acc mod 256]
      in if hex = [] \<or> 4 < length hex then None
         else if rest \<noteq> [] \<and> hd rest = CHR ''.'' then
           (if (ell = None \<and> length ip \<noteq> 12) \<or> 16 < length ip + 4 then None
            else case ipv4_fields s of None \<Rightarrow> None | Some q \<Rightarrow> Some (ip @ q, ell, []))
         else case rest of
           [] \<Rightarrow> Some (ip', ell, [])
         | c # r \<Rightarrow>
             if c \<noteq> CHR '':'' \<or> r = [] then None
             else if hd r = CHR '':'' then
               (if ell \<noteq> None then None
                else if tl r = [] then Some (ip', Some (length ip'), [])
                else ipv6_groups k ip' (Some (length ip')) (tl r))
             else ipv6_groups k ip' ell r)"

definition parse_ipv6 :: "string \<Rightarrow> nat list option" where
  "parse_ipv6 s =
     (if s = ''::'' then Some (replicate 16 0)
      else let lead = has_prefix s ''::'' in
        case ipv6_groups 8 [] (if lead then Some 0 else None) (if lead then drop 2 s else s) of
          None \<Rightarrow> None
        | Some (ip, ell, rest) \<Rightarrow>
            if rest \<noteq> [] then None
            else if length ip < 16 then (case ell of None \<Rightarrow> None
              | Some n \<Rightarrow> Some (take n ip @ replicate (16 - length ip) 0 @ drop n ip))
            else if ell \<noteq> None then None else Some ip)"

definition ParseIP :: "string \<Rightarrow> nat list option" where
  \<comment> \<open>sixteen bytes; an address with a zone is refused\<close>
  "ParseIP s = (case find (\<lambda>c. c \<in> {CHR ''.'', CHR '':'', CHR ''%''}) s of
     None \<Rightarrow> None
   | Some c \<Rightarrow>
      if c = CHR ''.'' then
        (case ipv4_fields s of None \<Rightarrow> None | Some q \<Rightarrow> Some (replicate 10 0 @ [255, 255] @ q))
      else if c = CHR '':'' \<and> CHR ''%'' \<notin> set s then parse_ipv6 s
      else None)"

definition is_ipv4 :: "nat list \<Rightarrow> bool" where
  \<comment> \<open>\<open>ip.To4() != nil\<close>\<close>
  "is_ipv4 ip \<longleftrightarrow> take 12 ip = replicate 10 0 @ [255, 255]"

definition IsLoopback :: "nat list \<Rightarrow> bool" where
  "IsLoopback ip \<longleftrightarrow> (if is_ipv4 ip then ip ! 12 = 127 else ip = replicate 15 0 @ [1])"

definition peerIsLoopback :: "string \<Rightarrow> bool" where
  "peerIsLoopback remote =
     (let host = (case SplitHostPort remote of None \<Rightarrow> remote | Some (h, _) \<Rightarrow> h)
      in case ParseIP host of None \<Rightarrow> False | Some ip \<Rightarrow> IsLoopback ip)"

definition hostAllowed :: "string \<Rightarrow> request \<Rightarrow> bool" where
  "hostAllowed allowHost r =
     (let host = (case SplitHostPort (rq_Host r) of None \<Rightarrow> rq_Host r | Some (h, _) \<Rightarrow> h) in
      if host = LoopbackHost then True
      else if allowHost = [] then False
      else if \<not> equalFoldASCII (rq_Host r) allowHost then False
      else peerIsLoopback (rq_RemoteAddr r))"

definition checkLoopbackAddr :: "string \<Rightarrow> bool" where
  \<comment> \<open>true when the error is nil\<close>
  "checkLoopbackAddr addr \<longleftrightarrow> addr \<noteq> [] \<and> (case SplitHostPort addr of None \<Rightarrow> False
     | Some (host, port) \<Rightarrow> host = LoopbackHost \<and> port \<noteq> [])"

subsection \<open>The extra Host\<close>

definition checkAllowPortSuffix :: "string \<Rightarrow> bool" where
  \<comment> \<open>\<open>strconv.Atoi\<close> fails above the range of \<open>int\<close>, far above 65535\<close>
  "checkAllowPortSuffix suffix \<longleftrightarrow> suffix = [] \<or>
     (hd suffix = CHR '':'' \<and> tl suffix \<noteq> [] \<and> list_all is_digit (tl suffix)
      \<and> 1 \<le> decimal (tl suffix) \<and> decimal (tl suffix) \<le> 65535)"

definition host_char :: "char \<Rightarrow> bool" where
  "host_char c \<longleftrightarrow> (97 \<le> byte c \<and> byte c \<le> 122) \<or> (65 \<le> byte c \<and> byte c \<le> 90) \<or> is_digit c \<or> c = CHR ''-''"

definition checkDNSName :: "string \<Rightarrow> bool" where
  "checkDNSName host \<longleftrightarrow> host \<noteq> [] \<and> length host \<le> 253 \<and>
     list_all (\<lambda>label. label \<noteq> [] \<and> length label \<le> 63 \<and> hd label \<noteq> CHR ''-'' \<and> last label \<noteq> CHR ''-''
        \<and> list_all host_char label) (split_all CHR ''.'' host)"

definition splitAllowHost :: "string \<Rightarrow> string option" where
  "splitAllowHost s =
     (if has_prefix s ''['' then
        (case cut_char s CHR '']'' of (inner, rest, found) \<Rightarrow>
          if \<not> found then None
          else case ParseIP (tl inner) of None \<Rightarrow> None
          | Some ip \<Rightarrow> if is_ipv4 ip then None
              else if checkAllowPortSuffix rest then Some (tl inner) else None)
      else case split_last CHR '':'' s of
        Some (host, port) \<Rightarrow>
          if checkAllowPortSuffix (CHR '':'' # port) \<and> checkDNSName host then Some host else None
      | None \<Rightarrow> if checkDNSName s then Some s else None)"

definition CheckAllowHost :: "string \<Rightarrow> string option" where
  \<comment> \<open>\<open>None\<close> is \<open>ErrBadAllowHost\<close>\<close>
  "CheckAllowHost s = (if s = [] then Some []
     else case splitAllowHost s of None \<Rightarrow> None
       | Some host \<Rightarrow> if equalFoldASCII host LoopbackHost then None else Some s)"

end
