(* ===== verification/ServerCore.thy ===== *)
theory ServerCore
  imports Http Reservations
begin

text \<open>
  The listener of internal/companion/server.go: its state, its seams and the steps its handlers
  share. The credential seams \<open>Authenticator\<close> and \<open>Confirmer\<close> are records of operations on
  a state \<open>'s\<close>; in production both are the device registry over one directory. The two slots
  are booleans, the in-memory maps a list and a set. A clock reading is an argument. What
  \<open>encoding/json\<close> does is a record of functions, as is the kernel's read side: what
  each of its methods returns for this request.
\<close>

record 's authenticator =
  au_Authenticate :: "string \<Rightarrow> 's \<Rightarrow> (go_error + device) \<times> 's"
  au_MarkSeen :: "string \<Rightarrow> 's \<Rightarrow> go_error option \<times> 's"

record 's confirmer =
  cf_PairingBudget :: "string \<Rightarrow> 's \<Rightarrow> (go_error + pairing_state) \<times> 's"
  cf_RecordPairingFailure :: "string \<Rightarrow> 's \<Rightarrow> (int \<times> go_error option) \<times> 's"
  cf_MarkPairingFailureUnrecorded :: "string \<Rightarrow> 's \<Rightarrow> go_error option \<times> 's"
  cf_ClearPairingFailureUnrecorded :: "string \<Rightarrow> 's \<Rightarrow> go_error option \<times> 's"
  cf_Confirm :: "pairing_confirmation \<Rightarrow> 's \<Rightarrow> (string \<times> device option \<times> go_error option) \<times> 's"
  cf_Revoke :: "string \<Rightarrow> 's \<Rightarrow> (device option \<times> bool \<times> go_error option) \<times> 's"

record codec =
  enc_today :: "today_projection \<Rightarrow> string"
  enc_context :: "context_bundle \<Rightarrow> string"
  enc_health :: "health_projection \<Rightarrow> string"
  enc_receipt :: "receipt \<Rightarrow> string"
  enc_grant :: "pairing_grant \<Rightarrow> string"
  dec_context :: "string \<Rightarrow> context_request decoded"
  dec_capture :: "string \<Rightarrow> capture decoded"
  dec_confirmation :: "string \<Rightarrow> pairing_confirmation decoded"
  dec_receipt :: "receipt \<Rightarrow> string \<Rightarrow> receipt option" \<comment> \<open>\<open>json.Unmarshal\<close> into a receipt: an absent field keeps its value\<close>
  txt_error :: "go_error \<Rightarrow> string" \<comment> \<open>\<open>err.Error()\<close>, where a line is logged with it\<close>

record reader =
  rd_Today :: "go_error + today_projection"
  rd_Context :: "context_request \<Rightarrow> go_error + context_bundle"
  rd_Health :: "go_error + health_projection"

record 's server =
  sv_allowHost :: string
  sv_world :: 's
  sv_latched :: "string set"
  sv_seen :: "(string \<times> instant) list"
  sv_kernel :: bool
  sv_pairing :: bool
  sv_captures :: res_store
  sv_log :: "string list"

definition markSeenInterval :: duration where "markSeenInterval = 5 * minute"

subsection \<open>Credentials\<close>

definition authorize :: "'s authenticator \<Rightarrow> request \<Rightarrow> 's \<Rightarrow> device option \<times> 's" where
  "authorize au r w =
     (case au_Authenticate au (bearerToken (header_get ''Authorization'' r)) w of
        (Inl e, w) \<Rightarrow> (None, w) | (Inr d, w) \<Rightarrow> (Some d, w))"

definition requireDevice :: "'s authenticator \<Rightarrow> request \<Rightarrow> 's server \<Rightarrow> (response + device) \<times> 's server" where
  "requireDevice au r sv = (case authorize au r (sv_world sv) of
     (None, w) \<Rightarrow> (Inl writeUnauthorized, sv\<lparr>sv_world := w\<rparr>)
   | (Some d, w) \<Rightarrow> (Inr d, sv\<lparr>sv_world := w\<rparr>))"

definition admit ::
  "'s authenticator \<Rightarrow> string \<Rightarrow> request \<Rightarrow> 's server \<Rightarrow> (response + device) \<times> 's server" where
  "admit au meth r sv =
     (if rq_Method r \<noteq> meth then (Inl (writeOpaque [(''Allow'', meth)] 405 ''method_not_allowed''), sv)
      else requireDevice au r sv)"

definition markSeen :: "'s authenticator \<Rightarrow> instant \<Rightarrow> string \<Rightarrow> 's server \<Rightarrow> 's server" where
  "markSeen au now did sv =
     (if (case map_of (sv_seen sv) did of None \<Rightarrow> False | Some lst \<Rightarrow> time_sub now lst < markSeenInterval)
      then sv
      else sv\<lparr>sv_seen := AList.update did now (sv_seen sv),
              sv_world := snd (au_MarkSeen au did (sv_world sv))\<rparr>)"

definition served :: "'s authenticator \<Rightarrow> instant \<Rightarrow> device \<Rightarrow> response \<times> bool \<Rightarrow> 's server \<Rightarrow> response \<times> 's server" where
  \<comment> \<open>how a handler ends: stamp the device if the payload was served\<close>
  "served au now d rb sv = (fst rb, if snd rb then markSeen au now (dv_DeviceID d) sv else sv)"

subsection \<open>The work budget\<close>

definition acquire :: "'s server \<Rightarrow> 's server option" where
  "acquire sv = (if sv_kernel sv then None else Some (sv\<lparr>sv_kernel := True\<rparr>))"

definition release :: "'s server \<Rightarrow> 's server" where
  "release sv = sv\<lparr>sv_kernel := False\<rparr>"

definition budgeted ::
  "('s server \<Rightarrow> (go_error + 'x) \<times> 's server) \<Rightarrow> 's server \<Rightarrow> (response + 'x) \<times> 's server" where
  "budgeted call sv = (case acquire sv of None \<Rightarrow> (Inl busy, sv)
     | Some sv \<Rightarrow> (case call sv of
         (Inl e, sv) \<Rightarrow> (Inl (writeKernelFailure e), release sv)
       | (Inr x, sv) \<Rightarrow> (Inr x, release sv)))"

subsection \<open>Reading a body\<close>

definition read_body :: "nat \<Rightarrow> request \<Rightarrow> response + string" where
  \<comment> \<open>\<open>io.ReadAll(io.LimitReader(r.Body, limit+1))\<close> and the check that follows\<close>
  "read_body limit r = (case rq_Body r of
     None \<Rightarrow> Inl (writeOpaque [] 413 CodeTooLarge)
   | Some b \<Rightarrow> if limit < length b then Inl (writeOpaque [] 413 CodeTooLarge) else Inr b)"

definition rejected :: "go_error \<Rightarrow> response" where
  \<comment> \<open>the answer to a body that does not decode\<close>
  "rejected e = (case e of SchemaError code fld \<Rightarrow> writeRejection 400 code fld
     | _ \<Rightarrow> writeOpaque [] 400 CodeMalformed)"

subsection \<open>The read routes\<close>

definition handleToday ::
  "'s authenticator \<Rightarrow> codec \<Rightarrow> reader \<Rightarrow> instant \<Rightarrow> request \<Rightarrow> 's server \<Rightarrow> response \<times> 's server" where
  "handleToday au cd rd now r sv = (case admit au ''GET'' r sv of (Inl resp, sv) \<Rightarrow> (resp, sv)
   | (Inr d, sv) \<Rightarrow> (case budgeted (\<lambda>sv. (rd_Today rd, sv)) sv of (Inl resp, sv) \<Rightarrow> (resp, sv)
   | (Inr p, sv) \<Rightarrow>
       served au now d (writePayload (Marshal MaxProjectionBytes (enc_today cd) TodayProjection_Validate p)) sv))"

definition kernelErrorCode :: "go_error \<Rightarrow> string" where
  "kernelErrorCode e = (if errors_is e DeadlineExceeded then ''source_unavailable'' else ''internal'')"

definition degradedHealth :: "instant \<Rightarrow> go_error \<Rightarrow> health_projection" where
  "degradedHealth now e = \<lparr>hd_Schema = ''mora.companion.health'', hd_SchemaVersion = SchemaVersion,
     hp_GeneratedAt = format_rfc3339 (truncate_second now), hp_State = HealthUnhealthy,
     hp_Policy = PolicyReadonly,
     hp_Index = \<lparr>ih_State = HealthUnhealthy, ih_Memories = 0, ih_BuiltAt = []\<rparr>,
     hp_Sources = Some [\<lparr>sf_Key = ''mora.kernel'', sf_State = FreshnessFailed, sf_AgeSeconds = -1,
       sf_LastSuccessAt = [], sf_ErrorCode = kernelErrorCode e\<rparr>]\<rparr>"

definition handleHealth ::
  "'s authenticator \<Rightarrow> codec \<Rightarrow> reader \<Rightarrow> instant \<Rightarrow> instant \<Rightarrow> request \<Rightarrow> 's server \<Rightarrow> response \<times> 's server" where
  \<comment> \<open>\<open>wall\<close> is the reading of the system clock in \<open>degradedHealth\<close>\<close>
  "handleHealth au cd rd wall now r sv = (case admit au ''GET'' r sv of (Inl resp, sv) \<Rightarrow> (resp, sv)
   | (Inr d, sv) \<Rightarrow>
       let p = (case rd_Health rd of Inl e \<Rightarrow> degradedHealth wall e | Inr p \<Rightarrow> p)
       in served au now d (writePayload (Marshal MaxProjectionBytes (enc_health cd) HealthProjection_Validate p)) sv)"

definition handleContext ::
  "'s authenticator \<Rightarrow> codec \<Rightarrow> reader \<Rightarrow> instant \<Rightarrow> request \<Rightarrow> 's server \<Rightarrow> response \<times> 's server" where
  "handleContext au cd rd now r sv = (case admit au ''POST'' r sv of (Inl resp, sv) \<Rightarrow> (resp, sv)
   | (Inr d, sv) \<Rightarrow> (case read_body MaxRequestBytes r of Inl resp \<Rightarrow> (resp, sv)
   | Inr b \<Rightarrow> (case Unmarshal MaxRequestBytes (dec_context cd) ContextRequest_Validate b of
       Inl e \<Rightarrow> (rejected e, sv)
   | Inr q \<Rightarrow> (case budgeted (\<lambda>sv. (rd_Context rd q, sv)) sv of (Inl resp, sv) \<Rightarrow> (resp, sv)
   | (Inr p, sv) \<Rightarrow>
       served au now d (writePayload (Marshal MaxProjectionBytes (enc_context cd) ContextBundle_Validate p)) sv))))"

subsection \<open>Pairing\<close>

definition MaxPairingAttempts :: int where "MaxPairingAttempts = 5"
definition PairingFloor :: duration where "PairingFloor = 250000000"

definition padToBucket :: "duration \<Rightarrow> duration \<Rightarrow> duration" where
  "padToBucket elapsed width = (if width \<le> 0 then elapsed
     else let buckets = go_quot elapsed width;
              buckets = (if go_rem elapsed width \<noteq> 0 \<or> buckets = 0 then buckets + 1 else buckets)
          in buckets * width)"

definition pairingRefused :: "go_error option \<Rightarrow> bool" where
  "pairingRefused e \<longleftrightarrow> err_is e ErrPairingCode \<or> err_is e ErrPairingExpired \<or> err_is e ErrNotPending
     \<or> err_is e ErrNoSuchDevice"

definition grantIssued :: "string \<Rightarrow> go_error option \<Rightarrow> bool" where
  "grantIssued token e \<longleftrightarrow> token \<noteq> [] \<and> \<not> pairingRefused e"

definition pairingSlot :: "'s server \<Rightarrow> 's server option" where
  "pairingSlot sv = (if sv_pairing sv then None else Some (sv\<lparr>sv_pairing := True\<rparr>))"

definition latch :: "string \<Rightarrow> 's server \<Rightarrow> 's server" where
  "latch did sv = sv\<lparr>sv_latched := insert did (sv_latched sv)\<rparr>"

definition unlatch :: "string \<Rightarrow> 's server \<Rightarrow> 's server" where
  \<comment> \<open>\<open>unrecordedFailures.release\<close>\<close>
  "unlatch did sv = sv\<lparr>sv_latched := sv_latched sv - {did}\<rparr>"

definition revoke_ignoring :: "'s confirmer \<Rightarrow> string \<Rightarrow> 's server \<Rightarrow> 's server" where
  \<comment> \<open>\<open>_, _, _ = s.confirms.Revoke(deviceID)\<close>\<close>
  "revoke_ignoring cf did sv = sv\<lparr>sv_world := snd (cf_Revoke cf did (sv_world sv))\<rparr>"

definition retryOwedFailure :: "'s confirmer \<Rightarrow> string \<Rightarrow> 's server \<Rightarrow> 's server" where
  "retryOwedFailure cf did sv =
     (case cf_RecordPairingFailure cf did (sv_world sv) of ((spent, err), w) \<Rightarrow>
        let sv = sv\<lparr>sv_world := w\<rparr> in
        if err \<noteq> None then sv
        else case cf_ClearPairingFailureUnrecorded cf did (sv_world sv) of (err, w) \<Rightarrow>
          let sv = sv\<lparr>sv_world := w\<rparr> in
          if err \<noteq> None then sv
          else let sv = unlatch did sv in
            if MaxPairingAttempts \<le> spent then revoke_ignoring cf did sv else sv)"

definition count_failure :: "'s confirmer \<Rightarrow> string \<Rightarrow> 's server \<Rightarrow> 's server" where
  \<comment> \<open>what follows a wrong code\<close>
  "count_failure cf did sv =
     (case cf_RecordPairingFailure cf did (sv_world sv) of ((spent, err), w) \<Rightarrow>
        let sv = sv\<lparr>sv_world := w\<rparr> in
        if err \<noteq> None then
          latch did (sv\<lparr>sv_world := snd (cf_MarkPairingFailureUnrecorded cf did (sv_world sv))\<rparr>)
        else if MaxPairingAttempts \<le> spent then revoke_ignoring cf did sv
        else sv)"

definition grant_of :: "instant \<Rightarrow> string \<Rightarrow> device \<Rightarrow> pairing_grant" where
  "grant_of now token d = \<lparr>hd_Schema = ''mora.companion.pairing.grant'', hd_SchemaVersion = SchemaVersion,
     pg_DeviceID = dv_DeviceID d, pg_Token = token, pg_TokenFingerprint = dv_TokenFingerprint d,
     pg_IssuedAt = format_rfc3339 (truncate_second now)\<rparr>"

definition try_confirm ::
  "'s authenticator \<Rightarrow> 's confirmer \<Rightarrow> codec \<Rightarrow> instant \<Rightarrow> instant \<Rightarrow> pairing_confirmation \<Rightarrow> 's server
    \<Rightarrow> response \<times> 's server" where
  \<comment> \<open>\<open>handleConfirm\<close> from the call of \<open>Confirm\<close> on; a device of None is the zero \<open>Device\<close>,
     which no grant is built from\<close>
  "try_confirm au cf cd issued now c sv =
     (case cf_Confirm cf c (sv_world sv) of ((token, dev, err), w) \<Rightarrow>
        let sv = sv\<lparr>sv_world := w\<rparr>;
            unaudited = grantIssued token err \<and> err_is err ErrReceiptNotWritten
        in if err \<noteq> None \<and> \<not> unaudited then
             (writeUnauthorized,
              if err_is err ErrPairingCode then count_failure cf (pc_DeviceID c) sv else sv)
           else case dev of None \<Rightarrow> (writeOpaque [] 500 ''internal'', sv)
             | Some d \<Rightarrow> served au now d (writePayload (Marshal MaxOperationBytes (enc_grant cd)
                 PairingGrant_Validate (grant_of issued token d))) sv)"

definition answer_confirmation ::
  "'s authenticator \<Rightarrow> 's confirmer \<Rightarrow> codec \<Rightarrow> instant \<Rightarrow> instant \<Rightarrow> pairing_confirmation \<Rightarrow> 's server
    \<Rightarrow> response \<times> 's server" where
  \<comment> \<open>\<open>handleConfirm\<close> from the reading of the budget on\<close>
  "answer_confirmation au cf cd issued now c sv =
     (case cf_PairingBudget cf (pc_DeviceID c) (sv_world sv) of
        (Inl e, w) \<Rightarrow> (writeUnauthorized, sv\<lparr>sv_world := w\<rparr>)
      | (Inr st, w) \<Rightarrow>
        let sv = sv\<lparr>sv_world := w\<rparr> in
        if ps_Unrecorded st \<or> pc_DeviceID c \<in> sv_latched sv then
          (writeUnauthorized, retryOwedFailure cf (pc_DeviceID c) sv)
        else if MaxPairingAttempts \<le> ps_Attempts st then
          (writeUnauthorized, if ps_Pending st then revoke_ignoring cf (pc_DeviceID c) sv else sv)
        else try_confirm au cf cd issued now c sv)"

definition handleConfirm ::
  "'s authenticator \<Rightarrow> 's confirmer \<Rightarrow> codec \<Rightarrow> instant \<Rightarrow> instant \<Rightarrow> request \<Rightarrow> 's server \<Rightarrow> response \<times> 's server"
where
  "handleConfirm au cf cd issued now r sv =
     (if rq_Method r \<noteq> ''POST'' then (writeOpaque [(''Allow'', ''POST'')] 405 ''method_not_allowed'', sv)
      else case pairingSlot sv of None \<Rightarrow> (busy, sv)
      | Some sv \<Rightarrow>
          (case (case read_body MaxRequestBytes r of Inl resp \<Rightarrow> (resp, sv)
             | Inr b \<Rightarrow> (case Unmarshal MaxRequestBytes (dec_confirmation cd) PairingConfirmation_Validate b of
                 Inl e \<Rightarrow> (rejected e, sv)
               | Inr c \<Rightarrow> answer_confirmation au cf cd issued now c sv))
           of (resp, sv) \<Rightarrow> (resp, sv\<lparr>sv_pairing := False\<rparr>)))"

end
