(* ===== verification/CaptureRoute.thy ===== *)
theory CaptureRoute
  imports CaptureIdentity ServerCore
begin

text \<open>
  Governed capture, internal/companion/capture.go: the one route that writes. The kernel's write
  seam \<open>Writer\<close> is a record of operations on the state the listener shares with the rest of
  the machine, so what other programs do between two calls (a revocation, another process's
  publication) is part of what an operation may do. Readings of the clock are in
  \<open>capture_clock\<close>; \<open>waits\<close> is what the others do while \<open>Reserve\<close> waits for a holder.
\<close>

record write_outcome =
  wo_Policy :: string
  wo_State :: string
  wo_Reason :: string
  wo_MemoryID :: string
  wo_IntegrityDetail :: string

record 's writer =
  wr_Policy :: "'s \<Rightarrow> (go_error + string) \<times> 's"
  wr_PublishedForKey :: "string \<Rightarrow> string \<Rightarrow> 's \<Rightarrow> (go_error + string \<times> bool \<times> string) \<times> 's"
  wr_RecordReceipt :: "capture_identity \<Rightarrow> string \<Rightarrow> 's \<Rightarrow> (go_error + string) \<times> 's"
  wr_Published :: "capture \<Rightarrow> capture_identity \<Rightarrow> 's \<Rightarrow> (go_error + write_outcome \<times> bool) \<times> 's"
  wr_Publish :: "capture \<Rightarrow> capture_identity \<Rightarrow> 's \<Rightarrow> (go_error + write_outcome) \<times> 's"

record capture_clock =
  cc_received :: instant
  cc_reserve :: instant
  cc_receipt_id :: instant
  cc_request_id :: instant
  cc_settled :: instant
  cc_seen :: instant

definition ask :: "('s \<Rightarrow> 'r \<times> 's) \<Rightarrow> 's server \<Rightarrow> 'r \<times> 's server" where
  \<comment> \<open>a call on a seam\<close>
  "ask f sv = (case f (sv_world sv) of (x, w) \<Rightarrow> (x, sv\<lparr>sv_world := w\<rparr>))"

definition on_store :: "(res_store \<Rightarrow> 'r \<times> res_store) \<Rightarrow> 's server \<Rightarrow> 'r \<times> 's server" where
  \<comment> \<open>a call on \<open>s.captures\<close>\<close>
  "on_store f sv = (case f (sv_captures sv) of (x, g) \<Rightarrow> (x, sv\<lparr>sv_captures := g\<rparr>))"

definition logIntegrityEvent :: "string \<Rightarrow> 's server \<Rightarrow> 's server" where
  "logIntegrityEvent detail sv = (if detail = [] then sv
     else sv\<lparr>sv_log := sv_log sv @ [''companion capture: refusing to claim a memory '' @ map char_of [226, 128, 148 :: nat]
       @ '' '' @ detail @ ''; inspect it before re-pairing, and see docs/companion-contract.md'']\<rparr>)"

definition writeCaptureBody :: "string \<Rightarrow> response \<times> bool" where
  "writeCaptureBody body = (if body = [] then (writeOpaque [] 500 ''internal'', False)
     else (\<lparr>rp_Status = 200, rp_Headers = json_headers, rp_Body = body\<rparr>, True))"

subsection \<open>Receipts\<close>

definition receipt_of :: "string \<Rightarrow> string \<Rightarrow> capture_clock \<Rightarrow> device \<Rightarrow> capture \<Rightarrow> write_outcome \<Rightarrow> receipt" where
  "receipt_of rid qid t dev c oc = NewReceipt\<lparr>
     rc_ReceiptID := rid, rc_RequestID := qid, rc_IdempotencyKey := ca_IdempotencyKey c,
     rc_DeviceID := dv_DeviceID dev, rc_State := wo_State oc, rc_Reason := wo_Reason oc,
     rc_MemoryID := wo_MemoryID oc, rc_PayloadFingerprint := ca_PayloadFingerprint c,
     rc_Policy := wo_Policy oc, rc_ReceivedAt := reservationStamp (cc_received t),
     rc_SettledAt := (if wo_State oc \<noteq> ReceiptAccepted then reservationStamp (cc_settled t) else [])\<rparr>"

definition build_receipt ::
  "capture_clock \<Rightarrow> device \<Rightarrow> capture \<Rightarrow> write_outcome \<Rightarrow> 's server \<Rightarrow> (go_error + receipt) \<times> 's server" where
  \<comment> \<open>\<open>Server.receipt\<close>\<close>
  "build_receipt t dev c oc sv =
     (case on_store (NewID PrefixReceipt (cc_receipt_id t)) sv of (Inl e, sv) \<Rightarrow> (Inl e, sv)
    | (Inr rid, sv) \<Rightarrow>
     (case on_store (NewID PrefixRequest (cc_request_id t)) sv of (Inl e, sv) \<Rightarrow> (Inl e, sv)
    | (Inr qid, sv) \<Rightarrow>
      let out = receipt_of rid qid t dev c oc in
      (case Receipt_Validate out of Some e \<Rightarrow> Inl e | None \<Rightarrow> Inr out, sv)))"

definition marshal_receipt :: "codec \<Rightarrow> receipt \<Rightarrow> go_error + string" where
  "marshal_receipt cd = Marshal MaxProjectionBytes (enc_receipt cd) Receipt_Validate"

definition current_policy :: "'s writer \<Rightarrow> 's server \<Rightarrow> string \<times> 's server" where
  \<comment> \<open>a policy that cannot be read is readonly\<close>
  "current_policy wr sv = (case ask (wr_Policy wr) sv of (Inl e, sv) \<Rightarrow> (PolicyReadonly, sv) | (Inr p, sv) \<Rightarrow> (p, sv))"

definition rejection :: "string \<Rightarrow> string \<Rightarrow> write_outcome" where
  "rejection policy reason = \<lparr>wo_Policy = policy, wo_State = ReceiptRejected, wo_Reason = reason,
     wo_MemoryID = [], wo_IntegrityDetail = []\<rparr>"

definition answer_rejected ::
  "capture_clock \<Rightarrow> codec \<Rightarrow> device \<Rightarrow> capture \<Rightarrow> write_outcome \<Rightarrow> 's server \<Rightarrow> (go_error + string) \<times> 's server" where
  "answer_rejected t cd dev c oc sv = (case build_receipt t dev c oc sv of (Inl e, sv) \<Rightarrow> (Inl e, sv)
     | (Inr r, sv) \<Rightarrow> (marshal_receipt cd r, sv))"

definition refuse ::
  "capture_clock \<Rightarrow> codec \<Rightarrow> 's writer \<Rightarrow> device \<Rightarrow> capture \<Rightarrow> string \<Rightarrow> 's server \<Rightarrow> (go_error + string) \<times> 's server"
where
  "refuse t cd wr dev c reason sv = (case current_policy wr sv of (p, sv) \<Rightarrow>
     answer_rejected t cd dev c (rejection p reason) sv)"

definition refuseIntegrity ::
  "capture_clock \<Rightarrow> codec \<Rightarrow> 's writer \<Rightarrow> device \<Rightarrow> capture \<Rightarrow> string \<Rightarrow> 's server \<Rightarrow> (go_error + string) \<times> 's server"
where
  "refuseIntegrity t cd wr dev c detail sv = (case current_policy wr sv of (p, sv) \<Rightarrow>
     answer_rejected t cd dev c (rejection p ReasonInternal) (logIntegrityEvent detail sv))"

subsection \<open>The capture path\<close>

definition capture_cid :: "device \<Rightarrow> capture \<Rightarrow> capture_identity" where
  "capture_cid dev c = \<lparr>ci_DeviceID = dv_DeviceID dev, ci_Key = ca_IdempotencyKey c,
     ci_Identity = captureIdentity c, ci_Fingerprint = ca_PayloadFingerprint c,
     ci_MemoryID = captureMemoryID c (captureIdentity c)\<rparr>"

definition publish ::
  "'s authenticator \<Rightarrow> 's writer \<Rightarrow> request \<Rightarrow> capture \<Rightarrow> claim \<Rightarrow> 's server \<Rightarrow> (go_error + write_outcome) \<times> 's server"
where
  "publish au wr r c cl sv =
     (case (if cl_TakenOver cl then ask (wr_Published wr c (Claim_Identity cl)) sv
            else (Inr (rejection [] [], False), sv)) of
        (Inl e, sv) \<Rightarrow> (Inl e, sv)
      | (Inr (oc, published), sv) \<Rightarrow>
          if published then (Inr oc, sv)
          else (case ask (authorize au r) sv of
              (None, sv) \<Rightarrow> (case current_policy wr sv of (p, sv) \<Rightarrow> (Inr (rejection p ReasonUnknownDevice), sv))
            | (Some d, sv) \<Rightarrow> ask (wr_Publish wr c (Claim_Identity cl)) sv))"

definition record_receipt ::
  "codec \<Rightarrow> 's writer \<Rightarrow> claim \<Rightarrow> receipt \<Rightarrow> string \<Rightarrow> 's server \<Rightarrow> (go_error + receipt \<times> string) \<times> 's server" where
  \<comment> \<open>for an applied capture, the recorded bytes are the answer\<close>
  "record_receipt cd wr cl rc body sv =
     (case ask (wr_RecordReceipt wr (Claim_Identity cl) body) sv of (Inl e, sv) \<Rightarrow> (Inl e, sv)
      | (Inr recorded, sv) \<Rightarrow> (case dec_receipt cd rc recorded of
            None \<Rightarrow> (Inl (OtherError ''receipt bytes''), sv) | Some rc \<Rightarrow> (Inr (rc, recorded), sv)))"

definition settle_with ::
  "(reservation \<Rightarrow> nat) \<Rightarrow> capture_clock \<Rightarrow> codec \<Rightarrow> 's authenticator \<Rightarrow> 's writer \<Rightarrow> request \<Rightarrow> device \<Rightarrow> capture
    \<Rightarrow> claim \<Rightarrow> 's server \<Rightarrow> (go_error + string) \<times> 's server" where
  \<comment> \<open>\<open>capture\<close> with the claim in hand\<close>
  "settle_with json_size t cd au wr r dev c cl sv =
     (case publish au wr r c cl sv of (Inl e, sv) \<Rightarrow> (Inl e, sv)
    | (Inr oc, sv) \<Rightarrow>
     (case build_receipt t dev c oc (logIntegrityEvent (wo_IntegrityDetail oc) sv) of (Inl e, sv) \<Rightarrow> (Inl e, sv)
    | (Inr rc, sv) \<Rightarrow> (case marshal_receipt cd rc of Inl e \<Rightarrow> (Inl e, sv)
    | Inr body \<Rightarrow>
     (case (if wo_State oc = ReceiptApplied then record_receipt cd wr cl rc body sv else (Inr (rc, body), sv)) of
        (Inl e, sv) \<Rightarrow> (Inl e, sv)
      | (Inr (rc, body), sv) \<Rightarrow>
        (case on_store (Claim_Settle json_size cl rc body) sv of
           (Some e, sv) \<Rightarrow> (Inl e, sv) | (None, sv) \<Rightarrow> (Inr body, sv))))))"

definition run_claim ::
  "(reservation \<Rightarrow> nat) \<Rightarrow> capture_clock \<Rightarrow> codec \<Rightarrow> 's authenticator \<Rightarrow> 's writer \<Rightarrow> request \<Rightarrow> device \<Rightarrow> capture
    \<Rightarrow> claim \<Rightarrow> 's server \<Rightarrow> (go_error + string) \<times> 's server" where
  \<comment> \<open>the deferred \<open>Abandon\<close> of a claim that was not settled\<close>
  "run_claim json_size t cd au wr r dev c cl sv =
     (case settle_with json_size t cd au wr r dev c cl sv of
        (Inl e, sv) \<Rightarrow> (Inl e, sv\<lparr>sv_captures := Claim_Abandon cl (sv_captures sv)\<rparr>)
      | (Inr body, sv) \<Rightarrow> (Inr body, sv))"

definition replay_answer ::
  "'s writer \<Rightarrow> capture_identity \<Rightarrow> bool \<Rightarrow> string \<Rightarrow> 's server \<Rightarrow> (go_error + string) \<times> 's server" where
  \<comment> \<open>the first argument of type bool: a publication whose receipt bytes are missing\<close>
  "replay_answer wr cid missing replay sv =
     (if missing then (case ask (wr_RecordReceipt wr cid replay) sv of
          (Inl e, sv) \<Rightarrow> (Inl e, sv) | (Inr recorded, sv) \<Rightarrow> (Inr replay, sv))
      else (Inr replay, sv))"

definition reserve_capture ::
  "(reservation \<Rightarrow> nat) \<Rightarrow> capture_clock \<Rightarrow> (res_store \<Rightarrow> res_store) list \<Rightarrow> codec \<Rightarrow> 's authenticator \<Rightarrow> 's writer
    \<Rightarrow> request \<Rightarrow> device \<Rightarrow> capture \<Rightarrow> bool \<Rightarrow> 's server \<Rightarrow> (go_error + string) \<times> 's server" where
  \<comment> \<open>\<open>capture\<close> from the reservation on\<close>
  "reserve_capture json_size t waits cd au wr r dev c missing sv =
     (case on_store (Reserve json_size (capture_cid dev c) (cc_reserve t) waits) sv of
        (Inl e, sv) \<Rightarrow> if errors_is e ErrIdempotencyConflict
          then refuse t cd wr dev c ReasonIdempotencyConflict sv else (Inl e, sv)
      | (Inr (Replay replay), sv) \<Rightarrow> replay_answer wr (capture_cid dev c) missing replay sv
      | (Inr (Claimed cl), sv) \<Rightarrow> run_claim json_size t cd au wr r dev c cl sv)"

definition zero_receipt :: receipt where
  "zero_receipt = NewReceipt\<lparr>hd_Schema := [], hd_SchemaVersion := 0\<rparr>"

definition run_capture ::
  "(reservation \<Rightarrow> nat) \<Rightarrow> capture_clock \<Rightarrow> (res_store \<Rightarrow> res_store) list \<Rightarrow> codec \<Rightarrow> 's authenticator \<Rightarrow> 's writer
    \<Rightarrow> request \<Rightarrow> device \<Rightarrow> capture \<Rightarrow> 's server \<Rightarrow> (go_error + string) \<times> 's server" where
  \<comment> \<open>\<open>Server.capture\<close>\<close>
  "run_capture json_size t waits cd au wr r dev c sv =
     (if ca_DeviceID c \<noteq> dv_DeviceID dev then refuse t cd wr dev c ReasonUnknownDevice sv
      else if ca_Intent c \<noteq> IntentRemember then refuse t cd wr dev c ReasonUnsupportedLane sv
      else case ask (wr_PublishedForKey wr (dv_DeviceID dev) (ca_IdempotencyKey c)) sv of
        (Inl e, sv) \<Rightarrow> if errors_is e ErrPublishedIntegrity
          then refuseIntegrity t cd wr dev c (txt_error cd e) sv else (Inl e, sv)
      | (Inr (published, found, resp), sv) \<Rightarrow>
          if found \<and> published \<noteq> captureIdentity c then refuse t cd wr dev c ReasonIdempotencyConflict sv
          else if found \<and> resp \<noteq> [] then
            (case on_store (SettleFromReplay json_size (dec_receipt cd zero_receipt) (capture_cid dev c) resp) sv of
               (Some e, sv) \<Rightarrow> (Inl e, sv) | (None, sv) \<Rightarrow> (Inr resp, sv))
          else reserve_capture json_size t waits cd au wr r dev c found sv)"

definition handleCapture ::
  "(reservation \<Rightarrow> nat) \<Rightarrow> capture_clock \<Rightarrow> (res_store \<Rightarrow> res_store) list \<Rightarrow> codec \<Rightarrow> 's authenticator \<Rightarrow> 's writer
    \<Rightarrow> request \<Rightarrow> 's server \<Rightarrow> response \<times> 's server" where
  "handleCapture json_size t waits cd au wr r sv =
     (case admit au ''POST'' r sv of (Inl resp, sv) \<Rightarrow> (resp, sv)
    | (Inr dev, sv) \<Rightarrow> (case read_body MaxCaptureBytes r of Inl resp \<Rightarrow> (resp, sv)
    | Inr b \<Rightarrow> (case Unmarshal MaxCaptureBytes (dec_capture cd) Capture_Validate b of Inl e \<Rightarrow> (rejected e, sv)
    | Inr c \<Rightarrow> (case budgeted (run_capture json_size t waits cd au wr r dev c) sv of (Inl resp, sv) \<Rightarrow> (resp, sv)
    | (Inr body, sv) \<Rightarrow> served au (cc_seen t) dev (writeCaptureBody body) sv))))"

end
