(* ===== verification/Server.thy ===== *)
theory Server
  imports CaptureRoute
begin

text \<open>
  The assembled listener of internal/companion/server.go: the route table, the guards in front of
  it and the constructor. What \<open>http.ServeMux\<close> does with patterns that are plain paths is
  modelled: the escaped path is split at the slashes, each segment is unescaped and compared.
  What it answers when nothing matches (not found, or a redirect to the clean form of the path)
  is a parameter, as it never reaches a handler.
\<close>

abbreviation RouteToday :: string where "RouteToday \<equiv> ''/v1/companion/today''"
abbreviation RouteContext :: string where "RouteContext \<equiv> ''/v1/companion/context''"
abbreviation RouteHealth :: string where "RouteHealth \<equiv> ''/v1/companion/health''"
abbreviation RouteCapture :: string where "RouteCapture \<equiv> ''/v1/companion/captures''"
abbreviation RouteConfirm :: string where "RouteConfirm \<equiv> ''/v1/companion/pairing/confirm''"

record 's listener =
  ls_addr :: string
  ls_devices :: "'s authenticator"
  ls_reader :: reader
  ls_writer :: "'s writer"
  ls_confirms :: "'s confirmer"
  ls_kernelTimeout :: duration
  ls_pairingMinimum :: duration
  ls_codec :: codec
  ls_json_size :: "reservation \<Rightarrow> nat"

record moment = \<comment> \<open>what one request reads of the clocks, and what others do meanwhile\<close>
  mo_now :: instant
  mo_wall :: instant
  mo_issued :: instant
  mo_capture :: capture_clock
  mo_waits :: "(res_store \<Rightarrow> res_store) list"

subsection \<open>Paths\<close>

fun unescape :: "string \<Rightarrow> string option" where
  \<comment> \<open>percent-decoding; \<open>None\<close> is an invalid escape\<close>
  "unescape [] = Some []"
| "unescape (c # r) =
     (if c \<noteq> CHR ''%'' then map_option ((#) c) (unescape r)
      else case r of h # l # rest \<Rightarrow>
          (case (hex_val h, hex_val l) of
             (Some a, Some b) \<Rightarrow> map_option ((#) (char_of (16 * a + b))) (unescape rest)
           | _ \<Rightarrow> None)
        | _ \<Rightarrow> None)"

definition pathUnescape :: "string \<Rightarrow> string" where
  "pathUnescape s = (case unescape s of None \<Rightarrow> s | Some p \<Rightarrow> p)"

definition URL_Path :: "request \<Rightarrow> string" where
  \<comment> \<open>\<open>net/http\<close> refuses a request line whose path does not unescape\<close>
  "URL_Path r = pathUnescape (rq_EscapedPath r)"

definition mux_matches :: "string \<Rightarrow> string \<Rightarrow> bool" where
  "mux_matches pattern path \<longleftrightarrow> map pathUnescape (split_all CHR ''/'' path) = split_all CHR ''/'' pattern"

subsection \<open>The route table\<close>

record 's route =
  rt_Method :: string
  rt_Pattern :: string
  rt_Public :: bool
  rt_Handler :: "request \<Rightarrow> 's server \<Rightarrow> response \<times> 's server"

definition routeDefs :: "'s listener \<Rightarrow> moment \<Rightarrow> 's route list" where
  "routeDefs l m =
     [\<lparr>rt_Method = ''GET'', rt_Pattern = RouteToday, rt_Public = False,
        rt_Handler = handleToday (ls_devices l) (ls_codec l) (ls_reader l) (mo_now m)\<rparr>,
      \<lparr>rt_Method = ''POST'', rt_Pattern = RouteContext, rt_Public = False,
        rt_Handler = handleContext (ls_devices l) (ls_codec l) (ls_reader l) (mo_now m)\<rparr>,
      \<lparr>rt_Method = ''GET'', rt_Pattern = RouteHealth, rt_Public = False,
        rt_Handler = handleHealth (ls_devices l) (ls_codec l) (ls_reader l) (mo_wall m) (mo_now m)\<rparr>,
      \<lparr>rt_Method = ''POST'', rt_Pattern = RouteCapture, rt_Public = False,
        rt_Handler = handleCapture (ls_json_size l) (mo_capture m) (mo_waits m) (ls_codec l)
          (ls_devices l) (ls_writer l)\<rparr>,
      \<lparr>rt_Method = ''POST'', rt_Pattern = RouteConfirm, rt_Public = True,
        rt_Handler = handleConfirm (ls_devices l) (ls_confirms l) (ls_codec l) (mo_issued m) (mo_now m)\<rparr>]"

definition Routes :: "'s listener \<Rightarrow> moment \<Rightarrow> (string \<times> string \<times> bool) list" where
  "Routes l m = map (\<lambda>rt. (rt_Method rt, rt_Pattern rt, rt_Public rt)) (routeDefs l m)"

definition router ::
  "'s listener \<Rightarrow> moment \<Rightarrow> (request \<Rightarrow> response) \<Rightarrow> request \<Rightarrow> 's server \<Rightarrow> response \<times> 's server" where
  \<comment> \<open>\<open>unmatched\<close> is the answer of \<open>ServeMux\<close> to a path no pattern matches\<close>
  "router l m unmatched r sv =
     (case find (\<lambda>rt. mux_matches (rt_Pattern rt) (rq_EscapedPath r)) (routeDefs l m) of
        None \<Rightarrow> (unmatched r, sv)
      | Some rt \<Rightarrow> rt_Handler rt r sv)"

subsection \<open>The guards\<close>

definition authGuard ::
  "'s listener \<Rightarrow> moment \<Rightarrow> (request \<Rightarrow> 's server \<Rightarrow> response \<times> 's server) \<Rightarrow> request \<Rightarrow> 's server \<Rightarrow> response \<times> 's server"
where
  "authGuard l m handler r sv =
     (if URL_Path r \<in> rt_Pattern ` {rt \<in> set (routeDefs l m). rt_Public rt} then handler r sv
      else case ask (authorize (ls_devices l) r) sv of
          (None, sv) \<Rightarrow> (writeUnauthorized, sv)
        | (Some d, sv) \<Rightarrow> handler r sv)"

definition MaxBytesReader :: "nat \<Rightarrow> request \<Rightarrow> request" where
  \<comment> \<open>reading past the limit fails\<close>
  "MaxBytesReader limit r = r\<lparr>rq_Body := (case rq_Body r of None \<Rightarrow> None
     | Some b \<Rightarrow> if limit < length b then None else Some b)\<rparr>"

definition sizeGuard ::
  "(request \<Rightarrow> 's server \<Rightarrow> response \<times> 's server) \<Rightarrow> request \<Rightarrow> 's server \<Rightarrow> response \<times> 's server" where
  "sizeGuard handler r sv =
     (if MaxHeaderBytes < headerBytes (rq_Header r) + length ''Host: '' + length (rq_Host r) + 2
      then (writeOpaque [] 431 ''headers_too_large'', sv)
      else handler (MaxBytesReader MaxRequestBytes r) sv)"

definition hostGuard ::
  "(request \<Rightarrow> 's server \<Rightarrow> response \<times> 's server) \<Rightarrow> request \<Rightarrow> 's server \<Rightarrow> response \<times> 's server" where
  "hostGuard handler r sv =
     (if \<not> hostAllowed (sv_allowHost sv) r then (writeOpaque [] 403 ''forbidden_host'', sv) else handler r sv)"

definition Handler ::
  "'s listener \<Rightarrow> moment \<Rightarrow> (request \<Rightarrow> response) \<Rightarrow> request \<Rightarrow> 's server \<Rightarrow> response \<times> 's server" where
  "Handler l m unmatched = hostGuard (sizeGuard (authGuard l m (router l m unmatched)))"

subsection \<open>The constructor\<close>

record 's server_options =
  so_Addr :: string
  so_Devices :: "'s authenticator option"
  so_Reader :: "reader option"
  so_Writer :: "'s writer option"
  so_Captures :: "res_store option"
  so_Pairings :: "'s confirmer option"
  so_AllowHost :: string
  so_PairingFloor :: duration
  so_KernelTimeout :: duration

definition NewServer ::
  "codec \<Rightarrow> (reservation \<Rightarrow> nat) \<Rightarrow> 's \<Rightarrow> 's server_options \<Rightarrow> ('s listener \<times> 's server) option" where
  \<comment> \<open>\<open>None\<close> is an error; the clock and the log sink have no part in the state\<close>
  "NewServer cd json_size w opts =
     (if \<not> checkLoopbackAddr (so_Addr opts) then None
      else case so_Devices opts of None \<Rightarrow> None | Some devices \<Rightarrow>
      case so_Reader opts of None \<Rightarrow> None | Some rd \<Rightarrow>
      case so_Writer opts of None \<Rightarrow> None | Some wr \<Rightarrow>
      case so_Captures opts of None \<Rightarrow> None | Some captures \<Rightarrow>
      case so_Pairings opts of None \<Rightarrow> None | Some confirms \<Rightarrow>
      case CheckAllowHost (so_AllowHost opts) of None \<Rightarrow> None | Some allowHost \<Rightarrow>
        Some (\<lparr>ls_addr = so_Addr opts, ls_devices = devices, ls_reader = rd, ls_writer = wr, ls_confirms = confirms,
             ls_kernelTimeout = (if so_KernelTimeout opts \<le> 0 then KernelTimeout else so_KernelTimeout opts),
             ls_pairingMinimum = (if so_PairingFloor opts = 0 then PairingFloor else so_PairingFloor opts),
             ls_codec = cd, ls_json_size = json_size\<rparr>,
           \<lparr>sv_allowHost = allowHost, sv_world = w, sv_latched = {}, sv_seen = [], sv_kernel = False,
             sv_pairing = False, sv_captures = captures, sv_log = []\<rparr>))"

end
