(* ===== verification/PairingLaw.thy ===== *)
theory PairingLaw
  imports ServerCore
begin

text \<open>
  What the pairing route relies on. The interface \<open>guess_counter\<close> is the contract between the
  route (internal/companion/pairing_route.go) and whoever implements its two seams: an attempt
  counter per live pairing that only a recorded failure raises and nothing lowers, marks that stay
  until they are cleared, and a \<open>Confirm\<close> that calls a code wrong only for a live pairing. From
  it follows the budget: the wrong codes that ever reach \<open>Confirm\<close> for one device are at
  most \<open>MaxPairingAttempts\<close>. To state that, the seams are instrumented: the state carries, beside
  the implementer's own, how many wrong codes were tried for each device.
\<close>

type_synonym tries = "string \<Rightarrow> nat"

definition along :: "('a \<Rightarrow> 's \<Rightarrow> 'r \<times> 's) \<Rightarrow> 'a \<Rightarrow> 's \<times> tries \<Rightarrow> 'r \<times> 's \<times> tries" where
  "along f a sk = (case f a (fst sk) of (r, s) \<Rightarrow> (r, s, snd sk))"

definition tallied ::
  "(pairing_confirmation \<Rightarrow> 's \<Rightarrow> (string \<times> device option \<times> go_error option) \<times> 's)
    \<Rightarrow> pairing_confirmation \<Rightarrow> 's \<times> tries \<Rightarrow> (string \<times> device option \<times> go_error option) \<times> 's \<times> tries" where
  "tallied f c sk = (case f c (fst sk) of ((token, dev, e), s) \<Rightarrow>
     ((token, dev, e), s,
      if err_is e ErrPairingCode then (snd sk)(pc_DeviceID c := snd sk (pc_DeviceID c) + 1) else snd sk))"

definition counting :: "'s confirmer \<Rightarrow> ('s \<times> tries) confirmer" where
  "counting cf = \<lparr>cf_PairingBudget = along (cf_PairingBudget cf),
     cf_RecordPairingFailure = along (cf_RecordPairingFailure cf),
     cf_MarkPairingFailureUnrecorded = along (cf_MarkPairingFailureUnrecorded cf),
     cf_ClearPairingFailureUnrecorded = along (cf_ClearPairingFailureUnrecorded cf),
     cf_Confirm = tallied (cf_Confirm cf), cf_Revoke = along (cf_Revoke cf)\<rparr>"

definition watched :: "'s authenticator \<Rightarrow> ('s \<times> tries) authenticator" where
  "watched au = \<lparr>au_Authenticate = along (au_Authenticate au), au_MarkSeen = along (au_MarkSeen au)\<rparr>"

text \<open>
  The life of a listener, as far as pairing goes: it serves confirmations, the rest of the system
  changes the implementer's state, and the process restarts. A restart forgets the latches, so
  the bound needs every latched failure to have left its mark by then.
\<close>

inductive pairing_step ::
  "('t \<Rightarrow> bool) \<Rightarrow> ('t \<Rightarrow> 's confirmer) \<Rightarrow> ('t \<Rightarrow> 's authenticator) \<Rightarrow> codec \<Rightarrow> ('s \<Rightarrow> 's \<Rightarrow> bool) \<Rightarrow> ('s \<Rightarrow> string \<Rightarrow> bool)
    \<Rightarrow> ('s \<times> tries) server \<Rightarrow> ('s \<times> tries) server \<Rightarrow> bool"
  for usable cf au cd elsewhere marked where
  confirm: "usable t \<Longrightarrow> handleConfirm (watched (au t)) (counting (cf t)) cd issued now r sv = (resp, sv') \<Longrightarrow>
     pairing_step usable cf au cd elsewhere marked sv sv'"
| elsewhere: "elsewhere (fst (sv_world sv)) s \<Longrightarrow>
     pairing_step usable cf au cd elsewhere marked sv (sv\<lparr>sv_world := (s, snd (sv_world sv))\<rparr>)"
| restart: "(\<And>d. d \<in> sv_latched sv \<Longrightarrow> marked (fst (sv_world sv)) d) \<Longrightarrow>
     pairing_step usable cf au cd elsewhere marked sv
       (sv\<lparr>sv_latched := {}, sv_seen := [], sv_kernel := False, sv_pairing := False\<rparr>)"

locale guess_counter =
  fixes usable :: "'t \<Rightarrow> bool" and cf :: "'t \<Rightarrow> 's confirmer" and au :: "'t \<Rightarrow> 's authenticator"
    and elsewhere :: "'s \<Rightarrow> 's \<Rightarrow> bool"
    and ok :: "'s \<Rightarrow> bool" and grows :: "'s \<Rightarrow> 's \<Rightarrow> bool"
    and known :: "'s \<Rightarrow> string \<Rightarrow> bool" and guesses :: "'s \<Rightarrow> string \<Rightarrow> int option"
    and marked :: "'s \<Rightarrow> string \<Rightarrow> bool"
  assumes guesses_known: "guesses s d = Some n \<Longrightarrow> known s d"
    and guesses_natural: "ok s \<Longrightarrow> guesses s d = Some n \<Longrightarrow> 0 \<le> n"
    and grows_known: "grows s s' \<Longrightarrow> known s d \<Longrightarrow> known s' d"
    and grows_guesses: "ok s \<Longrightarrow> ok s' \<Longrightarrow> grows s s' \<Longrightarrow> known s d \<Longrightarrow> guesses s' d = Some m \<Longrightarrow>
          \<exists>n \<le> m. guesses s d = Some n"
    and budget: "ok s \<Longrightarrow> cf_PairingBudget (cf t) d s = (x, s') \<Longrightarrow>
          ok s' \<and> grows s s' \<and> marked s' = marked s \<and> guesses s' = guesses s"
    and budget_reads: "ok s \<Longrightarrow> cf_PairingBudget (cf t) d s = (Inr st, s') \<Longrightarrow> guesses s d = Some n \<Longrightarrow>
          ps_Attempts st = n \<and> (marked s d \<longrightarrow> ps_Unrecorded st)"
    and recorded: "ok s \<Longrightarrow> cf_RecordPairingFailure (cf t) d s = ((k, e), s') \<Longrightarrow> ok s' \<and> grows s s' \<and> marked s' = marked s"
    and record_counts: "ok s \<Longrightarrow> cf_RecordPairingFailure (cf t) d s = ((k, None), s') \<Longrightarrow>
          guesses s' d = Some m \<Longrightarrow> guesses s d = Some (m - 1)"
    and mark: "ok s \<Longrightarrow> cf_MarkPairingFailureUnrecorded (cf t) d s = (e, s') \<Longrightarrow>
          ok s' \<and> grows s s' \<and> (\<forall>d. marked s d \<longrightarrow> marked s' d)"
    and clear: "ok s \<Longrightarrow> cf_ClearPairingFailureUnrecorded (cf t) d s = (e, s') \<Longrightarrow>
          ok s' \<and> grows s s' \<and> (\<forall>d'. d' \<noteq> d \<longrightarrow> marked s' d' = marked s d')"
    and confirm: "ok s \<Longrightarrow> cf_Confirm (cf t) c s = (z, s') \<Longrightarrow> ok s' \<and> grows s s' \<and> marked s' = marked s"
    and confirm_wrong: "ok s \<Longrightarrow> cf_Confirm (cf t) c s = ((token, dev, e), s') \<Longrightarrow> err_is e ErrPairingCode \<Longrightarrow>
          guesses s (pc_DeviceID c) \<noteq> None"
    and revoke: "ok s \<Longrightarrow> cf_Revoke (cf t) d s = (y, s') \<Longrightarrow> ok s' \<and> grows s s' \<and> marked s' = marked s"
    and seen: "usable t \<Longrightarrow> ok s \<Longrightarrow> au_MarkSeen (au t) d s = (e, s') \<Longrightarrow> ok s' \<and> grows s s' \<and> marked s' = marked s"
    and others: "ok s \<Longrightarrow> elsewhere s s' \<Longrightarrow> ok s' \<and> grows s s' \<and> marked s' = marked s"
begin

definition within :: "'s \<Rightarrow> tries \<Rightarrow> (string \<Rightarrow> bool) \<Rightarrow> string \<Rightarrow> bool" where
  \<comment> \<open>what was tried for a device is covered by its counter and by what is owed\<close>
  "within s k owed d \<longleftrightarrow> k d \<le> 5 \<and> (0 < k d \<longrightarrow> known s d \<and>
     (\<forall>n. guesses s d = Some n \<longrightarrow> int (k d) \<le> n + (if owed d then 1 else 0)))"

definition covers :: "'s \<times> tries \<Rightarrow> (string \<Rightarrow> bool) \<Rightarrow> bool" where
  "covers w owed \<longleftrightarrow> ok (fst w) \<and> (\<forall>d. within (fst w) (snd w) owed d)"

definition held :: "('s \<times> tries) server \<Rightarrow> bool" where
  "held sv \<longleftrightarrow> covers (sv_world sv) (\<lambda>d. d \<in> sv_latched sv \<or> marked (fst (sv_world sv)) d)"

lemma within_grows:
  assumes "within s k owed d" "ok s" "grows s s'" "owed d \<Longrightarrow> owed' d" "ok s'"
  shows "within s' k owed' d"
proof -
  have "int (k d) \<le> m + (if owed' d then 1 else 0)" if pos: "0 < k d" and m: "guesses s' d = Some m" for m
  proof -
    obtain n where "n \<le> m" "guesses s d = Some n"
      using grows_guesses [OF assms(2,5,3) _ m] assms(1) pos by (auto simp: within_def)
    then have "int (k d) \<le> n + (if owed d then 1 else 0)" using assms(1) pos by (simp add: within_def)
    also have "n + (if owed d then 1 else 0) \<le> m + (if owed' d then 1 else 0)"
      using \<open>n \<le> m\<close> assms(4) by auto
    finally show ?thesis .
  qed
  then show ?thesis using assms(1) grows_known [OF assms(3)] by (simp add: within_def)
qed

lemma covers_grows:
  assumes "covers (s, k) owed" "ok s'" "grows s s'" "\<And>d. owed d \<Longrightarrow> owed' d"
  shows "covers (s', k) owed'"
proof -
  have "within s' k owed' d" for d
    using assms(1,2,4) by (intro within_grows [of s k owed, OF _ _ assms(3)]) (simp_all add: covers_def)
  then show ?thesis using assms(2) by (simp add: covers_def)
qed

lemma covers_record:
  \<comment> \<open>a recorded failure pays for the guess the device owes\<close>
  assumes "covers (s, k) owed" "cf_RecordPairingFailure (cf t) d s = ((spent, None), s')"
  shows "covers (s', k) (owed(d := False))"
proof -
  have ok: "ok s" using assms(1) by (simp add: covers_def)
  note r = recorded [OF ok assms(2)]
  have "within s' k (owed(d := False)) d'" for d'
  proof (cases "d' = d")
    case True
    have w: "within s k owed d" using assms(1) by (simp add: covers_def)
    have "int (k d) \<le> m" if "0 < k d" "guesses s' d = Some m" for m
      using record_counts [OF ok assms(2) that(2)] w that(1) by (auto simp: within_def split: if_splits)
    then show ?thesis using w grows_known r True by (auto simp: within_def)
  next
    case False
    then show ?thesis using within_grows [of s k owed d' s' "owed(d := False)"] assms(1) r
      by (simp add: covers_def)
  qed
  then show ?thesis using r by (simp add: covers_def)
qed

lemma covers_try:
  assumes "covers (s, k) owed" "cf_Confirm (cf t) c s = ((token, dev, e), s')" "err_is e ErrPairingCode"
    and "\<And>n. guesses s (pc_DeviceID c) = Some n \<Longrightarrow> n < 5 \<and> \<not> owed (pc_DeviceID c)"
  shows "covers (s', k(pc_DeviceID c := k (pc_DeviceID c) + 1)) (owed(pc_DeviceID c := True))"
proof -
  let ?d = "pc_DeviceID c"
  have ok: "ok s" and w: "\<And>d. within s k owed d" using assms(1) by (simp_all add: covers_def)
  obtain n where n: "guesses s ?d = Some n" using confirm_wrong [OF ok assms(2,3)] by auto
  have k: "int (k ?d) \<le> n"
    using w [of ?d] n assms(4) [OF n] guesses_natural [OF ok n] by (cases "0 < k ?d") (auto simp: within_def)
  note c = confirm [OF ok assms(2)] and kn = guesses_known [OF n]
  have "within s' (k(?d := k ?d + 1)) (owed(?d := True)) d" for d
  proof (cases "d = ?d")
    case True
    have "n \<le> m" if "guesses s' ?d = Some m" for m
      using grows_guesses [OF ok _ _ kn that] c n by auto
    then show ?thesis using k assms(4) [OF n] c grows_known kn True by (force simp: within_def)
  next
    case False
    have "within s' k (owed(?d := True)) d"
      by (rule within_grows [OF w ok]) (use c in auto)
    then show ?thesis using False by (simp add: within_def)
  qed
  then show ?thesis using c by (simp add: covers_def)
qed

lemma held_world:
  assumes "covers (sv_world sv) owed" "\<And>d. owed d \<Longrightarrow> d \<in> sv_latched sv \<or> marked (fst (sv_world sv)) d"
  shows "held sv"
proof -
  have "owed d \<longrightarrow> d \<in> sv_latched sv \<or> marked (fst (sv_world sv)) d" for d using assms(2) by blast
  then have "within s k owed d \<Longrightarrow> within s k (\<lambda>d. d \<in> sv_latched sv \<or> marked (fst (sv_world sv)) d) d" for s k d
    by (auto simp: within_def split: if_splits)
  then show ?thesis using assms(1) by (simp add: held_def covers_def)
qed

lemma held_covers: "held sv \<Longrightarrow> sv_world sv = (s, k) \<Longrightarrow> covers (s, k) (\<lambda>d. d \<in> sv_latched sv \<or> marked s d)"
  by (simp add: held_def)

lemma held_step:
  \<comment> \<open>an operation that leaves counts alone and forgets no mark\<close>
  assumes "held sv" "sv_world sv = (s, k)" "ok s'" "grows s s'" "\<And>d. marked s d \<Longrightarrow> marked s' d"
    and "sv_latched sv \<subseteq> sv_latched sv'" "sv_world sv' = (s', k)"
  shows "held sv'"
proof -
  have "covers (s', k) (\<lambda>d. d \<in> sv_latched sv' \<or> marked s' d)"
    by (rule covers_grows [OF held_covers [OF assms(1,2)] assms(3,4)]) (use assms(5,6) in blast)
  then show ?thesis using assms(7) by (simp add: held_def)
qed

lemma held_ok: "held sv \<Longrightarrow> sv_world sv = (s, k) \<Longrightarrow> ok s"
  by (simp add: held_def covers_def)

lemma held_revoke:
  assumes "held sv" shows "held (revoke_ignoring (counting (cf t)) d sv)"
proof -
  obtain s k where w: "sv_world sv = (s, k)" by (meson surj_pair)
  obtain y s' where r: "cf_Revoke (cf t) d s = (y, s')" by (meson surj_pair)
  show ?thesis
    by (rule held_step [OF assms w, of s']) (use revoke [OF held_ok [OF assms w] r] w r in
      \<open>simp_all add: revoke_ignoring_def counting_def along_def\<close>)
qed

lemma held_markSeen:
  assumes "held sv" "usable t" shows "held (markSeen (watched (au t)) now d sv)"
proof -
  obtain s k where w: "sv_world sv = (s, k)" by (meson surj_pair)
  obtain e s' where r: "au_MarkSeen (au t) d s = (e, s')" by (meson surj_pair)
  note q = seen [OF assms(2) held_ok [OF assms(1) w] r]
  show ?thesis
  proof (cases "markSeen (watched (au t)) now d sv = sv")
    case False
    then have m: "markSeen (watched (au t)) now d sv
        = sv\<lparr>sv_seen := AList.update d now (sv_seen sv), sv_world := (s', k)\<rparr>"
      using w r by (auto simp: markSeen_def watched_def along_def split: if_splits)
    show ?thesis unfolding m by (rule held_step [OF assms(1) w, of s']) (use q in simp_all)
  qed (use assms in simp)
qed

lemma held_retry:
  assumes "held sv" "sv_world sv = (s, k)" shows "held (retryOwedFailure (counting (cf t)) d sv)"
proof -
  obtain spent e s1 where r: "cf_RecordPairingFailure (cf t) d s = ((spent, e), s1)" by (metis surj_pair)
  obtain e2 s2 where c: "cf_ClearPairingFailureUnrecorded (cf t) d s1 = (e2, s2)" by (meson surj_pair)
  note ok = held_ok [OF assms]
  note q = recorded [OF ok r]
  note q2 = clear [OF conjunct1 [OF q] c]
  show ?thesis
  proof (cases e)
    case (Some x)
    then have "retryOwedFailure (counting (cf t)) d sv = sv\<lparr>sv_world := (s1, k)\<rparr>"
      using r assms(2) by (simp add: retryOwedFailure_def counting_def along_def)
    moreover have "held (sv\<lparr>sv_world := (s1, k)\<rparr>)"
      by (rule held_step [OF assms, of s1]) (use q in simp_all)
    ultimately show ?thesis by simp
  next
    case None
    let ?owed = "(\<lambda>d. d \<in> sv_latched sv \<or> marked s d)(d := False)"
    note cov = covers_grows [OF covers_record [OF held_covers [OF assms] r [unfolded None]]
        conjunct1 [OF q2] conjunct1 [OF conjunct2 [OF q2]], of ?owed]
    have o: "d' \<in> sv_latched sv \<or> marked s2 d'" "d' \<in> sv_latched sv - {d} \<or> marked s2 d'" if "?owed d'" for d'
      using that q q2 by (auto split: if_splits)
    have h: "held (sv\<lparr>sv_world := (s2, k)\<rparr>)" "held (unlatch d (sv\<lparr>sv_world := (s2, k)\<rparr>))"
      by (rule held_world [of _ ?owed]; use cov o in \<open>simp add: unlatch_def\<close>)+
    have "retryOwedFailure (counting (cf t)) d sv = (if e2 \<noteq> None then sv\<lparr>sv_world := (s2, k)\<rparr>
        else let sv' = unlatch d (sv\<lparr>sv_world := (s2, k)\<rparr>) in
          if MaxPairingAttempts \<le> spent then revoke_ignoring (counting (cf t)) d sv' else sv')"
      using r c assms(2) None by (simp add: retryOwedFailure_def counting_def along_def Let_def)
    then show ?thesis using h held_revoke by (simp add: Let_def)
  qed
qed

lemma held_count:
  assumes "sv_world sv = (s, k)" "covers (s, k) ((\<lambda>d. d \<in> sv_latched sv \<or> marked s d)(d := True))"
  shows "held (count_failure (counting (cf t)) d sv)"
proof -
  let ?owed = "\<lambda>d. d \<in> sv_latched sv \<or> marked s d"
  obtain spent e s1 where r: "cf_RecordPairingFailure (cf t) d s = ((spent, e), s1)" by (metis surj_pair)
  have ok: "ok s" using assms(2) by (simp add: covers_def)
  note q = recorded [OF ok r]
  show ?thesis
  proof (cases e)
    case (Some x)
    obtain e2 s2 where m: "cf_MarkPairingFailureUnrecorded (cf t) d s1 = (e2, s2)" by (meson surj_pair)
    note q2 = mark [OF conjunct1 [OF q] m]
    have "covers (s2, k) (?owed(d := True))"
      using covers_grows [OF covers_grows [OF assms(2), of s1 "?owed(d := True)"], of s2] q q2 by simp
    moreover have "count_failure (counting (cf t)) d sv = latch d (sv\<lparr>sv_world := (s2, k)\<rparr>)"
      using r m assms(1) Some by (simp add: count_failure_def counting_def along_def)
    ultimately show ?thesis using q q2
      by (simp add: held_world [of _ "?owed(d := True)"] latch_def split: if_splits)
        (intro held_world [of _ "?owed(d := True)"], auto split: if_splits)
  next
    case None
    have "held (sv\<lparr>sv_world := (s1, k)\<rparr>)"
      using covers_record [OF assms(2) r [unfolded None]] q
      by (intro held_world [of _ "(?owed(d := True))(d := False)"]) (auto split: if_splits)
    moreover have "count_failure (counting (cf t)) d sv = (if MaxPairingAttempts \<le> spent
        then revoke_ignoring (counting (cf t)) d (sv\<lparr>sv_world := (s1, k)\<rparr>) else sv\<lparr>sv_world := (s1, k)\<rparr>)"
      using r assms(1) None by (simp add: count_failure_def counting_def along_def)
    ultimately show ?thesis using held_revoke by simp
  qed
qed

lemma held_served: "held sv \<Longrightarrow> usable t \<Longrightarrow> held (snd (served (watched (au t)) now d rb sv))"
  by (simp add: served_def held_markSeen)

lemma held_try:
  assumes "held sv" "sv_world sv = (s, k)" and us: "usable t"
    and "\<And>n. guesses s (pc_DeviceID c) = Some n \<Longrightarrow> n < 5 \<and> pc_DeviceID c \<notin> sv_latched sv \<and> \<not> marked s (pc_DeviceID c)"
  shows "held (snd (try_confirm (watched (au t)) (counting (cf t)) cd issued now c sv))"
proof -
  obtain token dev e s1 where f: "cf_Confirm (cf t) c s = ((token, dev, e), s1)" by (metis surj_pair)
  note ok = held_ok [OF assms(1,2)]
  note q = confirm [OF ok f]
  let ?owed = "\<lambda>d. d \<in> sv_latched sv \<or> marked s d"
  show ?thesis
  proof (cases "err_is e ErrPairingCode")
    case True
    then have bad: "\<not> grantIssued token e" by (simp add: grantIssued_def pairingRefused_def)
    have some: "e \<noteq> None" using True by (cases e) simp_all
    let ?k = "k(pc_DeviceID c := k (pc_DeviceID c) + 1)"
    have "covers (s1, ?k) (?owed(pc_DeviceID c := True))"
      using assms(4) by (intro covers_try [OF held_covers [OF assms(1,2)] f True]) auto
    moreover have "?owed = (\<lambda>d. d \<in> sv_latched sv \<or> marked s1 d)" using q by metis
    ultimately have "held (count_failure (counting (cf t)) (pc_DeviceID c) (sv\<lparr>sv_world := (s1, ?k)\<rparr>))"
      by (intro held_count [of _ s1 ?k]) simp_all
    moreover have "cf_Confirm (counting (cf t)) c (sv_world sv) = ((token, dev, e), (s1, ?k))"
      using f True assms(2) by (simp add: counting_def tallied_def)
    ultimately show ?thesis using True bad some by (simp add: try_confirm_def)
  next
    case False
    have h: "held (sv\<lparr>sv_world := (s1, k)\<rparr>)" by (rule held_step [OF assms(1,2), of s1]) (use q in simp_all)
    have "cf_Confirm (counting (cf t)) c (sv_world sv) = ((token, dev, e), (s1, k))"
      using f False assms(2) by (simp add: counting_def tallied_def)
    then show ?thesis using h False held_served [OF _ us] by (simp add: try_confirm_def Let_def split: option.split)
  qed
qed

lemma held_answer:
  assumes hs: "held sv" and us: "usable t"
  shows "held (snd (answer_confirmation (watched (au t)) (counting (cf t)) cd issued now c sv))"
proof -
  obtain s k where w: "sv_world sv = (s, k)" by (meson surj_pair)
  obtain x s1 where b: "cf_PairingBudget (cf t) (pc_DeviceID c) s = (x, s1)" by (meson surj_pair)
  note q = budget [OF held_ok [OF hs w] b]
  let ?sv = "sv\<lparr>sv_world := (s1, k)\<rparr>"
  have h: "held ?sv" by (rule held_step [OF hs w, of s1]) (use q in simp_all)
  have bb: "cf_PairingBudget (counting (cf t)) (pc_DeviceID c) (sv_world sv) = (x, (s1, k))"
    using b w by (simp add: counting_def along_def)
  show ?thesis
  proof (cases x)
    case (Inl e)
    then show ?thesis using bb h by (simp add: answer_confirmation_def)
  next
    case (Inr st)
    show ?thesis
    proof (cases "ps_Unrecorded st \<or> pc_DeviceID c \<in> sv_latched sv \<or> MaxPairingAttempts \<le> ps_Attempts st")
      case True
      then show ?thesis using bb Inr h held_retry [OF h] held_revoke [OF h]
        by (auto simp: answer_confirmation_def Let_def)
    next
      case False
      have "n < 5 \<and> pc_DeviceID c \<notin> sv_latched ?sv \<and> \<not> marked s1 (pc_DeviceID c)"
        if "guesses s1 (pc_DeviceID c) = Some n" for n
        using False budget_reads [OF held_ok [OF hs w] b [unfolded Inr], of n] that q
        by (auto simp: MaxPairingAttempts_def)
      then show ?thesis using held_try [OF h _ us, of s1 k c] bb Inr False
        by (simp add: answer_confirmation_def Let_def)
    qed
  qed
qed

lemma held_slot: "held (sv\<lparr>sv_pairing := b\<rparr>) = held sv"
  by (simp add: held_def)

lemma held_confirm:
  assumes "held sv" "usable t" "handleConfirm (watched (au t)) (counting (cf t)) cd issued now r sv = (resp, sv')"
  shows "held sv'"
proof -
  have "held (snd (answer_confirmation (watched (au t)) (counting (cf t)) cd issued now c (sv\<lparr>sv_pairing := True\<rparr>)))" for c
    using assms(1,2) by (simp add: held_answer held_slot)
  then show ?thesis using assms
    by (auto simp: handleConfirm_def pairingSlot_def held_slot split: if_splits sum.splits prod.splits)
      (metis held_slot snd_conv)+
qed

lemma held_restart:
  assumes "held sv" "\<And>d. d \<in> sv_latched sv \<Longrightarrow> marked (fst (sv_world sv)) d"
  shows "held (sv\<lparr>sv_latched := {}, sv_seen := [], sv_kernel := False, sv_pairing := False\<rparr>)"
proof -
  have "(\<lambda>d. d \<in> sv_latched sv \<or> marked (fst (sv_world sv)) d) = marked (fst (sv_world sv))"
    using assms(2) by auto
  then show ?thesis using assms(1) by (simp add: held_def)
qed

lemma held_pairing_step:
  assumes "pairing_step usable cf au cd elsewhere marked sv sv'" "held sv" shows "held sv'"
  using assms
proof (cases rule: pairing_step.cases)
  case (confirm t issued now r resp)
  then show ?thesis using held_confirm assms(2) by blast
next
  case (elsewhere s)
  obtain s0 k where w: "sv_world sv = (s0, k)" by (meson surj_pair)
  note q = others [OF held_ok [OF assms(2) w], of s]
  show ?thesis unfolding elsewhere(1)
    by (rule held_step [OF assms(2) w, of s]) (use q elsewhere(2) w in simp_all)
next
  case restart
  then show ?thesis using held_restart assms(2) by blast
qed

lemma tries_bounded:
  assumes "(pairing_step usable cf au cd elsewhere marked)\<^sup>*\<^sup>* sv sv'"
    and "ok (fst (sv_world sv))" "snd (sv_world sv) = (\<lambda>_. 0)"
  shows "snd (sv_world sv') d \<le> 5"
proof -
  have "held sv" using assms(2,3) by (simp add: held_def covers_def within_def)
  with assms(1) have "held sv'"
    by (induction rule: rtranclp_induct) (auto intro: held_pairing_step)
  then show ?thesis by (simp add: held_def covers_def within_def)
qed

end
end
