(* ===== verification/PairingClaims.thy ===== *)
theory PairingClaims
  imports PairingLaw ConfirmClaims
begin

text \<open>
  The device registry as the implementer of the pairing route's seams: \<open>guess_counter\<close> is
  interpreted on the registry's operations, and the route's budget, lockout and refusals follow.
\<close>

record clock =
  ck_confirm :: instant
  ck_expiry :: instant
  ck_revoke :: instant
  ck_seen :: instant

definition registry_confirmer :: "(registry_file \<Rightarrow> nat) \<Rightarrow> clock \<Rightarrow> registry confirmer" where
  "registry_confirmer json_size t = \<lparr>cf_PairingBudget = PairingBudget,
     cf_RecordPairingFailure = RecordPairingFailure json_size,
     cf_MarkPairingFailureUnrecorded = MarkPairingFailureUnrecorded,
     cf_ClearPairingFailureUnrecorded = ClearPairingFailureUnrecorded,
     cf_Confirm = (\<lambda>c. Confirm json_size c (ck_confirm t) (ck_expiry t)),
     cf_Revoke = (\<lambda>d. Revoke json_size d (ck_revoke t))\<rparr>"

definition registry_authenticator :: "(registry_file \<Rightarrow> nat) \<Rightarrow> clock \<Rightarrow> registry authenticator" where
  "registry_authenticator json_size t = \<lparr>au_Authenticate = Authenticate,
     au_MarkSeen = (\<lambda>d. MarkSeen json_size d (ck_seen t))\<rparr>"

text \<open>
  The filesystem's errors are its own: none of them is the sentinel with which \<open>Confirm\<close> says
  that a code was wrong.
\<close>

definition genuine_io :: "io \<Rightarrow> bool" where
  "genuine_io i \<longleftrightarrow> list_all (\<lambda>e. \<not> err_is e ErrPairingCode)
     [io_ensure i, io_lock i, io_load i, write_error (io_write i)]"

definition genuine_tape :: "registry \<Rightarrow> bool" where
  "genuine_tape g \<longleftrightarrow> list_all genuine_io (rg_tape g)"

definition open_guesses :: "registry \<Rightarrow> string \<Rightarrow> int option" where
  "open_guesses g d = (case device_of g d of None \<Rightarrow> None
     | Some r \<Rightarrow> if live_pending r then Some (dr_PairingAttempts r) else None)"

subsection \<open>Tapes\<close>

definition shortens :: "registry \<Rightarrow> registry \<Rightarrow> bool" where
  "shortens g g' \<longleftrightarrow> (\<exists>n. rg_tape g' = drop n (rg_tape g)) \<and> rg_marks g' = rg_marks g"

lemma shortens_refl [simp]: "shortens g g"
  by (auto simp: shortens_def intro: exI [of _ 0])

lemma shortens_trans: "shortens a b \<Longrightarrow> shortens b c \<Longrightarrow> shortens a c"
  by (auto simp: shortens_def drop_drop)

lemma genuine_drop: "rg_tape g' = drop n (rg_tape g) \<Longrightarrow> genuine_tape g \<Longrightarrow> genuine_tape g'"
  using set_drop_subset [of n "rg_tape g"] by (auto simp: genuine_tape_def list_all_iff)

lemma shortens_genuine: "shortens g g' \<Longrightarrow> genuine_tape g \<Longrightarrow> genuine_tape g'"
  using genuine_drop by (auto simp: shortens_def)

lemma next_io_shortens: "next_io g = (i, g') \<Longrightarrow> shortens g g'"
  by (auto simp: next_io_def shortens_def drop_Suc split: list.splits intro: exI [of _ 0] exI [of _ 1])

lemma next_io_genuine: "next_io g = (i, g') \<Longrightarrow> genuine_tape g \<Longrightarrow> genuine_io i"
  by (auto simp: next_io_def genuine_tape_def genuine_io_def io_ok_def split: list.splits)

lemma commit_shortens: "commit_file json_size i f row g = (e, g') \<Longrightarrow> shortens g g'"
  by (simp add: shortens_def commit_file_def Let_def split: option.splits if_splits)
    (auto intro: exI [of _ 0])

lemma mutate_shortens:
  assumes "mutate json_size fn g = (e, out, g')" shows "shortens g g'"
proof -
  obtain i g1 where n: "next_io g = (i, g1)" by force
  note s = next_io_shortens [OF n]
  have "shortens g g2" if "commit_file json_size i f row g1 = (x, g2)" for f row x g2
    using commit_shortens [OF that] s shortens_trans by blast
  then show ?thesis using assms s unfolding mutate_def n prod.case
    by (auto split: option.splits sum.splits verdict.splits prod.splits)
qed

lemma newSecret_shortens: "newSecret n g = (x, g') \<Longrightarrow> shortens g g'"
  using newSecret_disk by (auto simp: shortens_def intro: exI [of _ 0])

lemma ops_shorten:
  "PairingBudget d g = (a, g1) \<Longrightarrow> shortens g g1"
  "RecordPairingFailure json_size d g = (b, g2) \<Longrightarrow> shortens g g2"
  "Confirm json_size c t1 t2 g = (r, g3) \<Longrightarrow> shortens g g3"
  "Revoke json_size d t g = (y, g4) \<Longrightarrow> shortens g g4"
  "MarkSeen json_size d t g = (z, g5) \<Longrightarrow> shortens g g5"
proof -
  show "PairingBudget d g = (a, g1) \<Longrightarrow> shortens g g1"
    by (auto simp: PairingBudget_def split: prod.splits sum.splits option.splits dest!: next_io_shortens)
  show "RecordPairingFailure json_size d g = (b, g2) \<Longrightarrow> shortens g g2"
    by (auto simp: RecordPairingFailure_def split: prod.splits if_splits dest!: mutate_shortens)
  show "Confirm json_size c t1 t2 g = (r, g3) \<Longrightarrow> shortens g g3"
    by (auto simp: Confirm_def Let_def split: prod.splits sum.splits option.splits if_splits
        dest!: mutate_shortens newSecret_shortens intro: shortens_trans)
  show "Revoke json_size d t g = (y, g4) \<Longrightarrow> shortens g g4"
    by (auto simp: Revoke_def split: prod.splits option.splits if_splits dest!: mutate_shortens)
  show "MarkSeen json_size d t g = (z, g5) \<Longrightarrow> shortens g g5"
    by (auto simp: MarkSeen_def split: prod.splits dest!: mutate_shortens)
qed

lemma marks_shorten:
  assumes "MarkPairingFailureUnrecorded d g = (e, g')"
  shows "(genuine_tape g \<longrightarrow> genuine_tape g') \<and> rg_marks g \<subseteq> rg_marks g'"
proof -
  have "genuine_tape (g\<lparr>rg_marks := m\<rparr>) = genuine_tape g" for g m by (simp add: genuine_tape_def)
  then show ?thesis using assms genuine_drop [of _ _ g]
    by (auto simp: MarkPairingFailureUnrecorded_def shortens_def split: sum.splits prod.splits option.splits if_splits
        dest!: next_io_shortens)
qed

lemma clears_shorten:
  assumes "ClearPairingFailureUnrecorded d g = (e, g')"
  shows "(genuine_tape g \<longrightarrow> genuine_tape g') \<and> (\<forall>d'. d' \<noteq> d \<longrightarrow> (d' \<in> rg_marks g' \<longleftrightarrow> d' \<in> rg_marks g))"
proof -
  have "genuine_tape (g\<lparr>rg_marks := m\<rparr>) = genuine_tape g" for g m by (simp add: genuine_tape_def)
  then show ?thesis using assms genuine_drop [of _ _ g]
    by (auto simp: ClearPairingFailureUnrecorded_def shortens_def markerPath_def
        split: sum.splits prod.splits option.splits if_splits dest!: next_io_shortens)
qed

subsection \<open>The laws, on the registry\<close>

lemma wrong_from_verdict:
  assumes "mutate json_size fn g = (Some x, out, g')" "genuine_tape g" "errors_is x ErrPairingCode"
  shows "fn (contents g) = Refuse x"
proof -
  obtain i g1 where n: "next_io g = (i, g1)" by force
  have c: "contents g1 = contents g" using next_io_disk [OF n] by (auto simp: same_disk_def intro: contents_cong)
  have i: "genuine_io i" by (rule next_io_genuine [OF n assms(2)])
  have l: "\<not> errors_is e ErrPairingCode" if "load (io_load i) g1 = Inl e" for e
    using that i by (auto simp: load_def genuine_io_def split: option.splits prod.splits if_splits)
  have cm: "\<not> err_is e ErrPairingCode" if "commit_file json_size i f row g1 = (e, h)" for f row e h
    using that i by (cases "io_write i") (auto simp: commit_file_def Let_def genuine_io_def split: if_splits option.splits)
  show ?thesis
  proof (cases "io_ensure i")
    case (Some e)
    then show ?thesis using assms n i by (auto simp: mutate_def genuine_io_def)
  next
    case ensure: None
    show ?thesis
    proof (cases "io_lock i")
      case (Some e)
      then show ?thesis using assms n i ensure by (auto simp: mutate_def genuine_io_def)
    next
      case lock: None
      show ?thesis
      proof (cases "load (io_load i) g1")
        case (Inl e)
        then show ?thesis using assms n l ensure lock by (auto simp: mutate_def)
      next
        case (Inr f)
        then have f: "f = contents g" using load_contents c by simp
        show ?thesis
        proof (cases "fn f")
          case (Change f' row a)
          obtain e h where ch: "commit_file json_size i f' row g1 = (e, h)" by force
          then have "e = Some x" using assms(1) n Inr ensure lock Change by (simp add: mutate_def)
          then show ?thesis using cm [OF ch] assms(3) by simp
        qed (use assms n Inr ensure lock f in \<open>auto simp: mutate_def\<close>)
      qed
    qed
  qed
qed

definition schema_only :: "go_error option \<Rightarrow> bool" where
  "schema_only v \<longleftrightarrow> v = None \<or> (\<exists>a b. v = Some (SchemaError a b))"

lemma schema_only_simps [simp]: "schema_only None" "schema_only (errf a b)"
  by (simp_all add: schema_only_def errf_def)

lemma schema_only_first: "list_all schema_only es \<Longrightarrow> schema_only (first_err es)"
  by (induction es rule: first_err.induct) auto

lemma schema_only_fields [simp]: "schema_only (header_validate h n)" "schema_only (validateID f p s)"
  "schema_only (validateText f t m req)" "schema_only (inVocabulary f v n)" "schema_only (validateTimestamp f s)"
  by (simp_all add: header_validate_def validateID_def validateText_def inVocabulary_def
      validateTimestamp_def split: option.split)

lemma schema_only_key [simp]: "schema_only (validatePublicKey f k)"
proof -
  have "schema_only (case validateText f k n True of None \<Rightarrow> v | Some e \<Rightarrow> Some e) \<longleftrightarrow>
      (validateText f k n True = None \<longrightarrow> schema_only v)" for n v
    using schema_only_fields(3) [of f k n True] by (cases "validateText f k n True") simp_all
  then show ?thesis by (simp add: validatePublicKey_def split: prod.split option.split)
qed

lemma PairingConfirmation_error: "\<not> err_is (PairingConfirmation_Validate c) ErrPairingCode"
proof -
  have "schema_only (PairingConfirmation_Validate c)"
    unfolding PairingConfirmation_Validate_def by (rule schema_only_first) simp
  then show ?thesis by (auto simp: schema_only_def)
qed

lemma confirm_wrong_live:
  assumes "Confirm json_size c t1 t2 g = ((token, dev, e), g')" "genuine_tape g" "err_is e ErrPairingCode"
  shows "\<exists>r. device_of g (pc_DeviceID c) = Some r \<and> live_pending r"
proof (cases "PairingConfirmation_Validate c")
  case (Some x)
  then have "e = Some x" using assms(1) by (simp add: Confirm_def)
  then show ?thesis using Some PairingConfirmation_error [of c] assms(3) by simp
next
  case None
  obtain x h where n: "newSecret tokenEntropyBytes g = (x, h)" by force
  have h: "contents h = contents g" using newSecret_disk [OF n] by (auto simp: same_disk_def intro: contents_cong)
  show ?thesis
  proof (cases x)
    case (Inl err)
    then have "err = OtherError ''read entropy''"
      using n by (auto simp: newSecret_def read_full_def split: if_splits)
    then have "e = Some err" using assms(1) None n Inl by (simp add: Confirm_def)
    then show ?thesis using \<open>err = _\<close> assms(3) by simp
  next
    case (Inr tok)
    obtain err out k where m: "mutate json_size (confirm_verdict tok c (stampAt t1) t2) h = (err, out, k)"
      by (metis prod_cases3)
    have "err_is err ErrPairingCode"
      using assms(1,3) None n Inr m by (auto simp: Confirm_def Let_def split: if_splits)
    then obtain y where y: "err = Some y" "errors_is y ErrPairingCode" by (cases err) auto
    have "genuine_tape h" using newSecret_shortens [OF n] assms(2) shortens_genuine by blast
    from wrong_from_verdict [OF m [unfolded y(1)] this y(2)]
    show ?thesis using y(2)
      by (auto simp: confirm_verdict_def live_pending_def device_of_def h Let_def split: option.splits if_splits)
  qed
qed

lemma record_counts_one:
  assumes "sound g" "RecordPairingFailure json_size d g = ((k, None), g')" "open_guesses g' d = Some m"
  shows "open_guesses g d = Some (m - 1)"
proof -
  obtain out where m: "mutate json_size (failure_verdict d) g = (None, out, g')"
    using assms(2) by (auto simp: RecordPairingFailure_def split: prod.splits if_splits)
  from m show ?thesis
  proof (cases rule: mutate_cases)
    case (unchanged a)
    then have "open_guesses g d = None"
      by (auto simp: failure_verdict_def open_guesses_def device_of_def split: option.splits if_splits)
    moreover have "open_guesses g' d = open_guesses g d"
      using same_disk_device [OF unchanged(4)] by (simp add: open_guesses_def)
    ultimately show ?thesis using assms(3) by simp
  next
    case (written f row a)
    from written(1) obtain r where r: "find_device d (rf_Devices (contents g)) = Some r" "live_pending r"
      and f: "f = (contents g)\<lparr>rf_Devices := update_device d (\<lambda>r. r\<lparr>dr_PairingAttempts := dr_PairingAttempts r + 1\<rparr>)
         (rf_Devices (contents g))\<rparr>"
      by (auto simp: failure_verdict_def split: option.splits if_splits)
    have "find_device d (rf_Devices f) = Some (r\<lparr>dr_PairingAttempts := dr_PairingAttempts r + 1\<rparr>)"
      using update_found [OF r(1), of "\<lambda>r. r\<lparr>dr_PairingAttempts := dr_PairingAttempts r + 1\<rparr>"]
        find_device_in [OF r(1)] f by simp
    then have "device_of g' d = Some (r\<lparr>dr_PairingAttempts := dr_PairingAttempts r + 1\<rparr>)"
      using written(3) by (simp add: device_of_def contents_def)
    then show ?thesis using assms(3) r by (auto simp: open_guesses_def live_pending_def device_of_def split: if_splits)
  qed simp_all
qed

definition still :: "registry \<Rightarrow> bool" where
  "still g \<longleftrightarrow> sound g \<and> genuine_tape g"

definition elsewhere :: "(registry_file \<Rightarrow> nat) \<Rightarrow> url_parser \<Rightarrow> registry \<Rightarrow> registry \<Rightarrow> bool" where
  \<comment> \<open>a step of the registry outside this listener, which leaves the marks alone\<close>
  "elsewhere json_size url_parse g g' \<longleftrightarrow>
     reg_step json_size url_parse g g' \<and> rg_marks g' = rg_marks g \<and> genuine_tape g'"

lemma forward_device:
  assumes "sound g" "sound g'" "forward g g'" "device_of g d = Some r"
  shows "\<exists>r'. device_of g' d = Some r' \<and> advances r r'"
proof -
  obtain r' where "r' \<in> set (rf_Devices (contents g'))" "advances r r'"
    using assms by (auto simp: device_of_iff forward_def dest: evolves_members)
  then show ?thesis using assms by (auto simp: device_of_iff advances_def)
qed

lemma forward_guesses:
  assumes "sound g" "sound g'" "forward g g'" "device_of g d \<noteq> None" "open_guesses g' d = Some m"
  shows "\<exists>n \<le> m. open_guesses g d = Some n"
proof -
  obtain r where r: "device_of g d = Some r" using assms(4) by auto
  then obtain r' where r': "device_of g' d = Some r'" "advances r r'" using forward_device assms by blast
  then have "live_pending r'" "m = dr_PairingAttempts r'"
    using assms(5) by (auto simp: open_guesses_def split: if_splits)
  then show ?thesis using r r'(2) live_pending_back by (auto simp: open_guesses_def advances_def)
qed

lemma budget_marks:
  assumes "PairingBudget d g = (Inr st, g')" "sound g" "open_guesses g d = Some n"
  shows "ps_Attempts st = n \<and> (d \<in> rg_marks g \<longrightarrow> ps_Unrecorded st)"
proof -
  obtain r where r: "device_of g d = Some r" "n = dr_PairingAttempts r"
    using assms(3) by (auto simp: open_guesses_def split: option.splits if_splits)
  have "validateID ''device_id'' PrefixDevice d = None"
    using device_of_ok [OF assms(2) r(1)] by (auto simp: record_ok_def Device_Validate_None)
  then have p: "markerPath d = Inr d" by (simp add: markerPath_def)
  obtain i h where n: "next_io g = (i, h)" by force
  have h: "contents h = contents g" "rg_marks h = rg_marks g"
    using next_io_disk [OF n] by (auto simp: same_disk_def intro: contents_cong)
  show ?thesis using assms(1) r p h
    by (auto simp: PairingBudget_def n pairingFailureUnrecorded_def device_of_def
        split: option.splits sum.splits if_splits dest!: load_contents)
qed

interpretation reg: guess_counter "\<lambda>t. in_years (ck_seen t)" "registry_confirmer json_size"
  "registry_authenticator json_size" "elsewhere json_size url_parse" still forward
  "\<lambda>g d. device_of g d \<noteq> None" open_guesses "\<lambda>g d. d \<in> rg_marks g"
  for json_size url_parse
proof
  fix g d n assume "open_guesses g d = Some n"
  then show "device_of g d \<noteq> None" by (auto simp: open_guesses_def split: option.splits)
next
  fix g d n assume "still g" "open_guesses g d = Some n"
  then show "0 \<le> n" using device_of_ok [of g d]
    by (auto simp: open_guesses_def still_def record_ok_def split: option.splits if_splits)
next
  fix g g' d assume "forward g g'" "device_of g d \<noteq> None"
  then show "device_of g' d \<noteq> None"
    by (auto simp: device_of_def find_device_None forward_def evolves_def advances_def image_iff) metis
next
  fix g g' d m assume "still g" "still g'" "forward g g'" "device_of g d \<noteq> None" "open_guesses g' d = Some m"
  then show "\<exists>n \<le> m. open_guesses g d = Some n" using forward_guesses unfolding still_def by blast
next
  fix g t d x g' assume ok: "still g" and "cf_PairingBudget (registry_confirmer json_size t) d g = (x, g')"
  then have b: "PairingBudget d g = (x, g')" by (simp add: registry_confirmer_def)
  note s = reads_same_disk(2) [OF b] and t = ops_shorten(1) [OF b]
  have "open_guesses g' = open_guesses g" using same_disk_device [OF s] by (simp add: open_guesses_def fun_eq_iff)
  then show "still g' \<and> forward g g' \<and> (\<lambda>d. d \<in> rg_marks g') = (\<lambda>d. d \<in> rg_marks g) \<and> open_guesses g' = open_guesses g"
    using ok same_disk_carried [OF s] t shortens_genuine [OF t] by (simp add: still_def shortens_def)
next
  fix g t d st g' n
  assume "still g" "cf_PairingBudget (registry_confirmer json_size t) d g = (Inr st, g')" "open_guesses g d = Some n"
  then show "ps_Attempts st = n \<and> (d \<in> rg_marks g \<longrightarrow> ps_Unrecorded st)"
    using budget_marks by (simp add: registry_confirmer_def still_def)
next
  fix g t d k e g' assume ok: "still g" and "cf_RecordPairingFailure (registry_confirmer json_size t) d g = ((k, e), g')"
  then have r: "RecordPairingFailure json_size d g = ((k, e), g')" by (simp add: registry_confirmer_def)
  note t = ops_shorten(2) [OF r]
  show "still g' \<and> forward g g' \<and> (\<lambda>d. d \<in> rg_marks g') = (\<lambda>d. d \<in> rg_marks g)"
    using ok RecordPairingFailure_carried [OF r] t shortens_genuine [OF t] by (simp add: still_def shortens_def)
next
  fix g t d k g' m
  assume "still g" "cf_RecordPairingFailure (registry_confirmer json_size t) d g = ((k, None), g')" "open_guesses g' d = Some m"
  then show "open_guesses g d = Some (m - 1)"
    using record_counts_one by (simp add: registry_confirmer_def still_def)
next
  fix g t d e g' assume ok: "still g" and "cf_MarkPairingFailureUnrecorded (registry_confirmer json_size t) d g = (e, g')"
  then have m: "MarkPairingFailureUnrecorded d g = (e, g')" by (simp add: registry_confirmer_def)
  show "still g' \<and> forward g g' \<and> (\<forall>d. d \<in> rg_marks g \<longrightarrow> d \<in> rg_marks g')"
    using ok same_disk_carried [OF reads_same_disk(6) [OF m]] marks_shorten [OF m] by (auto simp: still_def)
next
  fix g t d e g' assume ok: "still g" and "cf_ClearPairingFailureUnrecorded (registry_confirmer json_size t) d g = (e, g')"
  then have m: "ClearPairingFailureUnrecorded d g = (e, g')" by (simp add: registry_confirmer_def)
  show "still g' \<and> forward g g' \<and> (\<forall>d'. d' \<noteq> d \<longrightarrow> (d' \<in> rg_marks g') = (d' \<in> rg_marks g))"
    using ok same_disk_carried [OF reads_same_disk(7) [OF m]] clears_shorten [OF m] by (simp add: still_def)
next
  fix g t c z g' assume ok: "still g" and "cf_Confirm (registry_confirmer json_size t) c g = (z, g')"
  then have r: "Confirm json_size c (ck_confirm t) (ck_expiry t) g = (z, g')" by (simp add: registry_confirmer_def)
  note t = ops_shorten(3) [OF r]
  show "still g' \<and> forward g g' \<and> (\<lambda>d. d \<in> rg_marks g') = (\<lambda>d. d \<in> rg_marks g)"
    using ok Confirm_carried [OF r] t shortens_genuine [OF t] by (simp add: still_def shortens_def)
next
  fix g t c token dev e g'
  assume "still g" "cf_Confirm (registry_confirmer json_size t) c g = ((token, dev, e), g')" "err_is e ErrPairingCode"
  then show "open_guesses g (pc_DeviceID c) \<noteq> None"
    using confirm_wrong_live by (fastforce simp: registry_confirmer_def still_def open_guesses_def)
next
  fix g t d y g' assume ok: "still g" and "cf_Revoke (registry_confirmer json_size t) d g = (y, g')"
  then have r: "Revoke json_size d (ck_revoke t) g = (y, g')" by (simp add: registry_confirmer_def)
  note t = ops_shorten(4) [OF r]
  show "still g' \<and> forward g g' \<and> (\<lambda>d. d \<in> rg_marks g') = (\<lambda>d. d \<in> rg_marks g)"
    using ok Revoke_carried [OF r] t shortens_genuine [OF t] by (simp add: still_def shortens_def)
next
  fix t g d e g'
  assume y: "in_years (ck_seen t)" and ok: "still g" and "au_MarkSeen (registry_authenticator json_size t) d g = (e, g')"
  then have r: "MarkSeen json_size d (ck_seen t) g = (e, g')" by (simp add: registry_authenticator_def)
  note t = ops_shorten(5) [OF r]
  show "still g' \<and> forward g g' \<and> (\<lambda>d. d \<in> rg_marks g') = (\<lambda>d. d \<in> rg_marks g)"
    using ok MarkSeen_carried [OF r y] t shortens_genuine [OF t] by (simp add: still_def shortens_def)
next
  fix g g' assume "still g" "elsewhere json_size url_parse g g'"
  then show "still g' \<and> forward g g' \<and> (\<lambda>d. d \<in> rg_marks g') = (\<lambda>d. d \<in> rg_marks g)"
    using step_carried by (auto simp: still_def elsewhere_def)
qed

end
