(* ===== verification/PairingRoute.thy ===== *)
theory PairingRoute
  imports PairingClaims
begin

text \<open>
  What the pairing route promises over the device registry: a bounded number of guesses, a lockout
  that cannot reach a working device, one answer for every refusal, and the arithmetic of the
  timing buckets.
\<close>

text \<open>C3: The guess budget holds across restarts. A listener serves any confirmations over the
  device registry while other programs use it and the filesystem fails as it likes; the process
  restarts whenever each latched failure has left its mark. Then for every device at most
  \<open>MaxPairingAttempts\<close> (5) wrong codes are ever compared by \<open>Confirm\<close>.\<close>

theorem pairing_guesses_bounded:
  assumes "(pairing_step (\<lambda>t. in_years (ck_seen t)) (registry_confirmer json_size)
       (registry_authenticator json_size) cd (elsewhere json_size url_parse) (\<lambda>g d. d \<in> rg_marks g))\<^sup>*\<^sup>* sv sv'"
    and "sound (fst (sv_world sv))" "genuine_tape (fst (sv_world sv))" "snd (sv_world sv) = (\<lambda>_. 0)"
  shows "int (snd (sv_world sv') d) \<le> MaxPairingAttempts"
  using reg.tries_bounded [OF assms(1) _ assms(4)] assms(2,3) by (simp add: still_def MaxPairingAttempts_def)

definition example_clock :: clock where
  "example_clock = \<lparr>ck_confirm = 0, ck_expiry = 0, ck_revoke = 0, ck_seen = 0\<rparr>"

definition example_codec :: codec where
  "example_codec = \<lparr>enc_today = (\<lambda>_. ''today''), enc_context = (\<lambda>_. ''context''), enc_health = (\<lambda>_. ''health''),
     enc_receipt = (\<lambda>_. ''receipt''), enc_grant = (\<lambda>_. ''grant''), dec_context = (\<lambda>_. BadJSON),
     dec_capture = (\<lambda>_. BadJSON), dec_confirmation = (\<lambda>_. Decoded (confirm_example\<lparr>pc_PairingCode := ''guess''\<rparr>) False),
     dec_receipt = (\<lambda>_ _. None), txt_error = (\<lambda>_. [])\<rparr>"

definition example_server :: "'s \<Rightarrow> 's server" where
  "example_server w = \<lparr>sv_allowHost = [], sv_world = w, sv_latched = {}, sv_seen = [], sv_kernel = False,
     sv_pairing = False, sv_captures = NewReservationStore [] [] [] 0, sv_log = []\<rparr>"

definition example_request :: request where
  "example_request = \<lparr>rq_Method = ''POST'', rq_EscapedPath = ''/v1/companion/pairing/confirm'', rq_Host = ''127.0.0.1:80'',
     rq_RemoteAddr = ''127.0.0.1:5000'', rq_Header = [], rq_Body = Some ''{}''\<rparr>"

theorem pairing_guesses_bounded_witness:
  "int (snd (sv_world (snd (handleConfirm (watched (registry_authenticator (\<lambda>_. 100) example_clock))
     (counting (registry_confirmer (\<lambda>_. 100) example_clock)) example_codec 0 0 example_request
     (example_server (registry_example, \<lambda>_. 0))))) ''dev_p'') \<le> 5"
proof -
  let ?sv = "example_server (registry_example, \<lambda>_. 0 :: nat)"
  let ?step = "pairing_step (\<lambda>t. in_years (ck_seen t)) (registry_confirmer (\<lambda>_. 100))
       (registry_authenticator (\<lambda>_. 100)) example_codec (elsewhere (\<lambda>_. 100) (\<lambda>_. None)) (\<lambda>g d. d \<in> rg_marks g)"
  have "?step ?sv (snd (handleConfirm (watched (registry_authenticator (\<lambda>_. 100) example_clock))
     (counting (registry_confirmer (\<lambda>_. 100) example_clock)) example_codec 0 0 example_request ?sv))"
    by (rule pairing_step.confirm [where t = example_clock, OF _ prod.collapse [symmetric]])
      (simp add: example_clock_def)
  from pairing_guesses_bounded [OF r_into_rtranclp [where r = ?step, OF this], of "''dev_p''"] example_sound
  show ?thesis by (simp add: example_server_def genuine_tape_def registry_example_def MaxPairingAttempts_def)
qed

subsection \<open>The lockout\<close>

lemma update_other: "d \<noteq> k \<Longrightarrow> (\<And>r. dr_DeviceID r = k \<Longrightarrow> dr_DeviceID (u r) = k) \<Longrightarrow>
    find_device d (update_device k u rs) = find_device d rs"
  by (induction k u rs rule: update_device.induct) auto

lemma mutate_device:
  assumes "mutate json_size fn g = (e, out, g')"
    and "\<And>f row a. fn (contents g) = Change f row a \<Longrightarrow> find_device d (rf_Devices f) = device_of g d"
  shows "device_of g' d = device_of g d"
  using assms(1)
proof (cases rule: mutate_cases)
  case (written f row a)
  then show ?thesis using assms(2) [OF written(1)] by (simp add: device_of_def contents_def)
qed (use same_disk_device in simp_all)

lemma Record_device:
  assumes "RecordPairingFailure json_size k g = (x, g')" "device_of g d = Some r" "\<not> live_pending r"
  shows "device_of g' d = device_of g d"
proof -
  obtain e out where m: "mutate json_size (failure_verdict k) g = (e, out, g')"
    using assms(1) by (auto simp: RecordPairingFailure_def split: prod.splits if_splits)
  show ?thesis
  proof (rule mutate_device [OF m])
    fix f row a assume c: "failure_verdict k (contents g) = Change f row a"
    then have "d \<noteq> k" using assms(2,3) by (auto simp: failure_verdict_def device_of_def split: option.splits if_splits)
    then show "find_device d (rf_Devices f) = device_of g d"
      using c by (auto simp: failure_verdict_def device_of_def update_other split: option.splits if_splits)
  qed
qed

lemma Confirm_device:
  assumes "Confirm json_size c t1 t2 g = (x, g')" "device_of g d = Some r" "\<not> live_pending r"
  shows "device_of g' d = device_of g d"
  using assms(1)
proof (cases rule: Confirm_mutates)
  case checked
  then show ?thesis using same_disk_device by simp
next
  case (spent tok h err out)
  have h: "device_of h = device_of g" using same_disk_device [OF spent(2)] .
  have hc: "contents h = contents g" using spent(2) contents_cong [of h g] by (simp add: same_disk_def)
  have "device_of g' d = device_of h d"
  proof (rule mutate_device [OF spent(4)])
    fix f row a assume "confirm_verdict tok c (stampAt t1) t2 (contents h) = Change f row a"
    then show "find_device d (rf_Devices f) = device_of h d"
    proof (cases rule: confirm_Change)
      case (expired r')
      then have "d \<noteq> pc_DeviceID c" using assms(2,3) by (auto simp: device_of_def hc)
      then show ?thesis using expired by (simp add: device_of_def update_other)
    next
      case (granted r')
      then have "d \<noteq> pc_DeviceID c" using assms(2,3) by (auto simp: device_of_def hc)
      then show ?thesis using granted by (simp add: device_of_def update_other activate_def)
    qed
  qed
  then show ?thesis using h by simp
qed

lemma Revoke_device:
  assumes "Revoke json_size k t g = (x, g')" "d \<noteq> k" shows "device_of g' d = device_of g d"
proof (cases "validateID ''device_id'' PrefixDevice k")
  case None
  then obtain e out where m: "mutate json_size (revoke_verdict k (stampAt t)) g = (e, out, g')"
    using assms(1) by (auto simp: Revoke_def split: prod.splits if_splits option.splits)
  show ?thesis
    by (rule mutate_device [OF m])
      (use assms(2) in \<open>auto simp: revoke_verdict_def device_of_def update_other retire_def Let_def
        split: option.splits if_splits\<close>)
qed (use assms in \<open>auto simp: Revoke_def\<close>)

lemma MarkSeen_device:
  assumes "MarkSeen json_size k t g = (x, g')" "d \<noteq> k" shows "device_of g' d = device_of g d"
proof -
  obtain out where m: "mutate json_size (seen_verdict k (stampAt t)) g = (x, out, g')"
    using assms(1) by (auto simp: MarkSeen_def split: prod.splits)
  show ?thesis
    by (rule mutate_device [OF m])
      (use assms(2) in \<open>auto simp: seen_verdict_def device_of_def update_other split: option.splits if_splits\<close>)
qed

lemma Record_spent_live:
  assumes "RecordPairingFailure json_size k g = ((spent, None), g')" "MaxPairingAttempts \<le> spent"
  shows "\<exists>r. device_of g k = Some r \<and> live_pending r"
proof -
  obtain out where m: "mutate json_size (failure_verdict k) g = (None, out, g')"
    and s: "spent = (case out of Some n \<Rightarrow> n | None \<Rightarrow> 0)"
    using assms(1) by (auto simp: RecordPairingFailure_def split: prod.splits if_splits)
  from m show ?thesis
  proof (cases rule: mutate_cases)
    case (unchanged a)
    then show ?thesis using s assms(2)
      by (auto simp: failure_verdict_def MaxPairingAttempts_def device_of_def split: option.splits if_splits)
  next
    case (written f row a)
    then show ?thesis by (auto simp: failure_verdict_def device_of_def split: option.splits if_splits)
  qed simp_all
qed

lemma Confirm_device_id:
  assumes "Confirm json_size c t1 t2 g = ((token, Some dev, e), g')"
  shows "dv_DeviceID dev = pc_DeviceID c \<and> (\<exists>r. device_of g (pc_DeviceID c) = Some r \<and> live_pending r)"
  using assms
proof (cases rule: Confirm_mutates)
  case (spent tok h err out)
  have "out = Some (Some dev, False)" using spent(5) by (auto split: if_splits option.splits bool.splits)
  moreover obtain a where "confirm_verdict tok c (stampAt t1) t2 (contents h) = NoChange a \<and> out = Some a
      \<or> (\<exists>f row. confirm_verdict tok c (stampAt t1) t2 (contents h) = Change f row a \<and> out = Some a)"
    using spent(4) calculation by (cases rule: mutate_cases) auto
  ultimately have "\<exists>f row. confirm_verdict tok c (stampAt t1) t2 (contents h) = Change f row (Some dev, False)"
    by (auto simp: confirm_verdict_def Let_def split: option.splits if_splits)
  then obtain f row where "confirm_verdict tok c (stampAt t1) t2 (contents h) = Change f row (Some dev, False)"
    by blast
  then show ?thesis
  proof (cases rule: confirm_Change)
    case (granted r)
    then show ?thesis using find_device_in [OF granted(1)] spent(2) contents_cong [of h g]
      by (auto simp: device_of_def same_disk_def record_device_def activate_def)
  qed simp
qed simp

lemma budget_pending_live:
  assumes "PairingBudget k g = (Inr st, g')" "ps_Pending st"
  shows "\<exists>r. device_of g k = Some r \<and> live_pending r"
proof -
  obtain i h where n: "next_io g = (i, h)" by force
  have h: "contents h = contents g"
    using next_io_disk [OF n] by (auto simp: same_disk_def intro: contents_cong)
  have "\<exists>r. find_device k (rf_Devices (contents h)) = Some r \<and> live_pending r" using assms
    by (auto simp: PairingBudget_def n split: option.splits sum.splits if_splits dest!: load_contents)
  then show ?thesis by (simp add: device_of_def h)
qed

lemma revoke_ignoring_device:
  "d \<noteq> k \<Longrightarrow> device_of (sv_world (revoke_ignoring (registry_confirmer json_size t) k sv)) d = device_of (sv_world sv) d"
proof -
  assume d: "d \<noteq> k"
  obtain x g' where r: "Revoke json_size k (ck_revoke t) (sv_world sv) = (x, g')" by (meson surj_pair)
  show ?thesis using Revoke_device [OF r d] by (simp add: revoke_ignoring_def registry_confirmer_def r)
qed

text \<open>Counting a failure, now or one that was owed, leaves a device that is not mid-pairing alone.\<close>

lemma counted_failure_device:
  assumes "device_of (sv_world sv) d = Some r" "\<not> live_pending r"
  shows "device_of (sv_world (count_failure (registry_confirmer json_size t) k sv)) d = Some r"
    and "device_of (sv_world (retryOwedFailure (registry_confirmer json_size t) k sv)) d = Some r"
proof -
  let ?cf = "registry_confirmer json_size t" and ?g = "sv_world sv"
  obtain spent e g1 where f: "RecordPairingFailure json_size k ?g = ((spent, e), g1)" by (metis surj_pair)
  have d1: "device_of g1 d = Some r" using Record_device [OF f assms] assms(1) by simp
  have k: "d \<noteq> k" if "e = None" "MaxPairingAttempts \<le> spent"
    using Record_spent_live [of json_size k ?g spent g1] f that assms by auto
  obtain e2 g2 where m: "MarkPairingFailureUnrecorded k g1 = (e2, g2)" by (meson surj_pair)
  obtain e3 g3 where c: "ClearPairingFailureUnrecorded k g1 = (e3, g3)" by (meson surj_pair)
  have d23: "device_of g2 d = Some r" "device_of g3 d = Some r"
    using same_disk_device [OF reads_same_disk(6) [OF m]] same_disk_device [OF reads_same_disk(7) [OF c]] d1 by simp_all
  have rec: "cf_RecordPairingFailure ?cf k ?g = ((spent, e), g1)" using f by (simp add: registry_confirmer_def)
  have mk: "cf_MarkPairingFailureUnrecorded ?cf k g1 = (e2, g2)" using m by (simp add: registry_confirmer_def)
  have cl: "cf_ClearPairingFailureUnrecorded ?cf k g1 = (e3, g3)" using c by (simp add: registry_confirmer_def)
  show "device_of (sv_world (count_failure ?cf k sv)) d = Some r"
    using d1 d23 k revoke_ignoring_device [of d k json_size t "sv\<lparr>sv_world := g1\<rparr>"]
    by (cases e) (auto simp: count_failure_def rec mk Let_def latch_def)
  show "device_of (sv_world (retryOwedFailure ?cf k sv)) d = Some r"
    using d1 d23 k revoke_ignoring_device [of d k json_size t "unlatch k (sv\<lparr>sv_world := g3\<rparr>)"]
    by (cases e; cases e3) (auto simp: retryOwedFailure_def rec cl Let_def unlatch_def)
qed

lemma markSeen_device:
  "d \<noteq> k \<Longrightarrow> device_of (sv_world (markSeen (registry_authenticator json_size t) now k sv)) d = device_of (sv_world sv) d"
proof -
  assume d: "d \<noteq> k"
  obtain x g' where r: "MarkSeen json_size k (ck_seen t) (sv_world sv) = (x, g')" by (meson surj_pair)
  show ?thesis using MarkSeen_device [OF r d] by (simp add: markSeen_def registry_authenticator_def r)
qed

lemma try_confirm_device:
  assumes "device_of (sv_world sv) d = Some r" "\<not> live_pending r"
  shows "device_of (sv_world (snd (try_confirm (registry_authenticator json_size t') (registry_confirmer json_size t)
           cd issued now c sv))) d = Some r"
proof -
  obtain token dev e g1 where f: "Confirm json_size c (ck_confirm t) (ck_expiry t) (sv_world sv) = ((token, dev, e), g1)"
    by (metis surj_pair)
  have cf: "cf_Confirm (registry_confirmer json_size t) c (sv_world sv) = ((token, dev, e), g1)"
    using f by (simp add: registry_confirmer_def)
  have d1: "device_of (sv_world (sv\<lparr>sv_world := g1\<rparr>)) d = Some r" using Confirm_device [OF f assms] assms(1) by simp
  have k: "d \<noteq> dv_DeviceID x" if "dev = Some x" for x
    using Confirm_device_id [OF f [unfolded that]] assms by auto
  show ?thesis
    using counted_failure_device(1) [OF d1 assms(2), of json_size t "pc_DeviceID c"] d1
      markSeen_device [OF k, of _ json_size t' now "sv\<lparr>sv_world := g1\<rparr>"]
    by (auto simp: try_confirm_def cf Let_def served_def split: option.split)
qed

text \<open>C16: A lockout can only end a pairing in progress. Serving a confirmation, for whatever device
  it names, with whatever the registry had counted, latched or marked, and whatever the filesystem
  answers, leaves the record of every active (or revoked) device exactly as it was.\<close>

theorem lockout_spares_active:
  assumes "device_of (sv_world sv) d = Some r" "dr_State r \<noteq> DevicePending"
    and "handleConfirm (registry_authenticator json_size t') (registry_confirmer json_size t) cd issued now req sv
           = (resp, sv')"
  shows "device_of (sv_world sv') d = Some r"
proof -
  have live: "\<not> live_pending r" using assms(2) by (simp add: live_pending_def)
  let ?au = "registry_authenticator json_size t'" and ?cf = "registry_confirmer json_size t"
  have answer: "device_of (sv_world (snd (answer_confirmation ?au ?cf cd issued now c s))) d = Some r"
    if s: "sv_world s = sv_world sv" for c s
  proof -
    obtain x g1 where b: "PairingBudget (pc_DeviceID c) (sv_world s) = (x, g1)" by (meson surj_pair)
    have cf: "cf_PairingBudget ?cf (pc_DeviceID c) (sv_world s) = (x, g1)" using b by (simp add: registry_confirmer_def)
    have d1: "device_of (sv_world (s\<lparr>sv_world := g1\<rparr>)) d = Some r"
      using same_disk_device [OF reads_same_disk(2) [OF b]] assms(1) s by simp
    have k: "d \<noteq> pc_DeviceID c" if "x = Inr st" "ps_Pending st" for st
      using budget_pending_live [of "pc_DeviceID c" "sv_world s" st g1] b that assms(1) s live by auto
    show ?thesis
      using counted_failure_device(2) [OF d1 live, of json_size t "pc_DeviceID c"] d1
        revoke_ignoring_device [of d "pc_DeviceID c" json_size t "s\<lparr>sv_world := g1\<rparr>"] k
        try_confirm_device [OF d1 live, of json_size t' t cd issued now c]
      by (cases x) (auto simp: answer_confirmation_def cf Let_def)
  qed
  show ?thesis
    using assms(1,3) answer [of "sv\<lparr>sv_pairing := True\<rparr>"]
    by (auto simp: handleConfirm_def pairingSlot_def split: if_splits sum.splits prod.splits) (metis snd_conv)+
qed

theorem lockout_spares_active_witness:
  "\<exists>resp sv'. handleConfirm (registry_authenticator (\<lambda>_. 100) example_clock) (registry_confirmer (\<lambda>_. 100) example_clock)
      example_codec 0 0 example_request (example_server registry_example) = (resp, sv')
    \<and> device_of (sv_world sv') ''dev_a'' = Some active_example"
proof -
  obtain resp sv' where h: "handleConfirm (registry_authenticator (\<lambda>_. 100) example_clock)
      (registry_confirmer (\<lambda>_. 100) example_clock) example_codec 0 0 example_request
      (example_server registry_example) = (resp, sv')" by (meson surj_pair)
  have "device_of (sv_world (example_server registry_example)) ''dev_a'' = Some active_example"
    by (simp add: example_server_def device_of_def)
  from lockout_spares_active [OF this _ h] h show ?thesis by (auto simp: active_example_def)
qed

subsection \<open>The answers\<close>

lemma Device_error: "Device_Validate d = Some x \<Longrightarrow> \<not> errors_is x ErrReceiptNotWritten"
proof -
  have "schema_only (validateOptionalFingerprint f y)" "schema_only (validateOptionalTimestamp f y)" for f y
    by (simp_all add: validateOptionalFingerprint_def validateFingerprint_def validateOptionalTimestamp_def
        split: prod.split)
  moreover have "schema_only (device_state_rules d)"
    unfolding device_state_rules_def by (auto intro!: schema_only_first)
  ultimately have "schema_only (Device_Validate d)" unfolding Device_Validate_def by (intro schema_only_first) simp
  then show "Device_Validate d = Some x \<Longrightarrow> \<not> errors_is x ErrReceiptNotWritten" by (auto simp: schema_only_def)
qed

lemma confirm_Refuse: "confirm_verdict tok c now t2 f = Refuse x \<Longrightarrow> \<not> errors_is x ErrReceiptNotWritten"
  by (auto simp: confirm_verdict_def Let_def dest: Device_error split: option.splits if_splits)

lemma Confirm_no_device:
  assumes "plain_tape g" "Confirm json_size c t1 t2 g = ((token, None, e), g')"
  shows "e \<noteq> None \<and> \<not> (grantIssued token e \<and> err_is e ErrReceiptNotWritten)"
proof (cases "PairingConfirmation_Validate c = None \<and> (\<exists>tok h. newSecret tokenEntropyBytes g = (Inr tok, h))")
  case False
  then show ?thesis using assms(2)
    by (cases "PairingConfirmation_Validate c"; cases e) (auto simp: Confirm_def grantIssued_def split: prod.splits sum.splits)
next
  case True
  then obtain tok h where s: "PairingConfirmation_Validate c = None" "newSecret tokenEntropyBytes g = (Inr tok, h)" by blast
  have h: "plain_tape h" using plain_newSecret [OF s(2)] assms(1) by simp
  obtain err out k where m: "mutate json_size (confirm_verdict tok c (stampAt t1) t2) h = (err, out, k)" by (metis surj_pair)
  note r = assms(2) [unfolded Confirm_def s option.case prod.case sum.case m Let_def]
  show ?thesis using m
  proof (cases rule: mutate_cases)
    case refused
    then have "\<not> err_is err ErrReceiptNotWritten" using h confirm_Refuse by fastforce
    then show ?thesis using refused r by (auto simp: grantIssued_def)
  next
    case (unchanged a)
    then show ?thesis by (auto simp: confirm_verdict_def Let_def split: option.splits if_splits)
  next
    case (unwritten f row a)
    then show ?thesis using r h by (auto simp: grantIssued_def)
  next
    case (written f row a)
    from written(1) show ?thesis
    proof (cases rule: confirm_Change)
      case (expired r')
      then show ?thesis using r written by (auto simp: grantIssued_def split: if_splits)
    next
      case (granted r')
      then show ?thesis using r written by (auto simp: grantIssued_def split: if_splits)
    qed
  qed
qed

lemma budget_plain: "PairingBudget k g = (x, g') \<Longrightarrow> plain_tape g \<Longrightarrow> plain_tape g'"
  by (auto simp: PairingBudget_def split: prod.splits sum.splits option.splits dest: plain_tape_next)

lemma budget_attempts:
  assumes "PairingBudget k g = (Inr st, g')" "device_of g k = Some r"
  shows "ps_Attempts st = dr_PairingAttempts r"
proof -
  obtain i h where n: "next_io g = (i, h)" by (meson surj_pair)
  have "contents h = contents g" using next_io_disk [OF n] by (auto simp: same_disk_def intro: contents_cong)
  then show ?thesis using assms
    by (auto simp: PairingBudget_def n device_of_def split: option.splits sum.splits dest!: load_contents)
qed


lemma example_budget: "PairingBudget ''dev_p'' registry_example
    = (Inr \<lparr>ps_Attempts = 0, ps_Pending = True, ps_Unrecorded = False\<rparr>, registry_example)"
proof -
  have io: "next_io registry_example = (io_ok, registry_example)" by (simp add: next_io_def registry_example_def)
  have "load None registry_example = Inr (contents registry_example)" using sound_load [OF example_sound] .
  moreover have "find_device ''dev_p'' (rf_Devices (contents registry_example)) = Some pending_example" by simp
  moreover have "pairingFailureUnrecorded ''dev_p'' io_ok registry_example = Inr False"
    by (simp add: pairingFailureUnrecorded_def io_ok_def registry_example_def split: sum.split)
  moreover have "dr_PairingAttempts pending_example = 0" "io_load io_ok = None"
    by (simp_all add: pending_example_def new_record_def io_ok_def)
  ultimately show ?thesis using pending_fields(4) by (simp add: PairingBudget_def io del: example_contents)
qed


end
