(* ===== verification/ServerClaims.thy ===== *)
theory ServerClaims
  imports Server PairingRoute
begin

text \<open>
  What the assembled listener promises: who is served without a credential, that a handler does
  not rely on the guards around it, that a request never keeps a slot, and that health always
  answers.
\<close>

subsection \<open>Paths and the exemption\<close>

fun join_all :: "char \<Rightarrow> string list \<Rightarrow> string" where
  "join_all c [] = []"
| "join_all c [s] = s"
| "join_all c (s # ss) = s @ c # join_all c ss"

lemma split_all_nonempty [simp]: "split_all c s \<noteq> []"
  by (induction c s rule: split_all.induct) (auto split: list.splits)

lemma join_split: "join_all c (split_all c s) = s"
proof (induction s)
  case (Cons x xs)
  obtain f fs where "split_all c xs = f # fs" by (cases "split_all c xs") auto
  then show ?case using Cons by (cases fs) auto
qed simp

lemma split_all_no_sep: "p \<in> set (split_all c s) \<Longrightarrow> c \<notin> set p"
  by (induction s arbitrary: p) (auto split: list.splits if_splits)

lemma unescape_append:
  "unescape s = Some p \<Longrightarrow> unescape t = Some q \<Longrightarrow> unescape (s @ t) = Some (p @ q)"
proof (induction s arbitrary: p rule: unescape.induct)
  case (2 c r)
  show ?case
  proof (cases "c = CHR ''%''")
    case True
    then obtain h l rest a b p' where "r = h # l # rest" "hex_val h = Some a" "hex_val l = Some b"
      "unescape rest = Some p'" "p = char_of (16 * a + b) # p'"
      using 2 by (auto split: list.splits option.splits)
    then show ?thesis using 2 True by simp
  next
    case False
    then show ?thesis using 2 by auto
  qed
qed simp

lemma unescape_join:
  "list_all2 (\<lambda>s p. unescape s = Some p) ss ps \<Longrightarrow> unescape (join_all CHR ''/'' ss) = Some (join_all CHR ''/'' ps)"
proof (induction ss ps rule: list_all2_induct)
  case (Cons s ss p ps)
  show ?case
  proof (cases ss)
    case (Cons t ts)
    then obtain u us where ps: "ps = u # us" using \<open>list_all2 _ ss ps\<close> by (cases ps) auto
    have "unescape (''/'' @ join_all CHR ''/'' ss) = Some (''/'' @ join_all CHR ''/'' ps)"
      using Cons.IH by (simp add: Cons)
    from unescape_append [OF \<open>unescape s = Some p\<close> this] show ?thesis by (simp add: Cons ps)
  qed (use Cons in simp)
qed simp

text \<open>A segment that is not an escape of anything keeps its percent sign.\<close>

lemma unescape_plain: "CHR ''%'' \<notin> set s \<Longrightarrow> unescape s = Some s"
  by (induction s) auto

lemma pathUnescape_clean: "CHR ''%'' \<notin> set p \<Longrightarrow> pathUnescape s = p \<Longrightarrow> unescape s = Some p"
  by (cases "unescape s") (auto simp: pathUnescape_def unescape_plain)

lemma split_all_set: "p \<in> set (split_all c s) \<Longrightarrow> set p \<subseteq> set s"
proof (induction s arbitrary: p)
  case (Cons x xs)
  obtain f fs where f: "split_all c xs = f # fs" by (cases "split_all c xs") auto
  have "set f \<subseteq> set xs" "\<And>q. q \<in> set fs \<Longrightarrow> set q \<subseteq> set xs" using Cons.IH by (simp_all add: f)
  then show ?case using Cons.prems by (fastforce simp: f split: if_splits)
qed simp

lemma mux_path:
  assumes "mux_matches pattern (rq_EscapedPath r)" "CHR ''%'' \<notin> set pattern"
  shows "URL_Path r = pattern"
proof -
  let ?ss = "split_all CHR ''/'' (rq_EscapedPath r)" and ?ps = "split_all CHR ''/'' pattern"
  have e: "map pathUnescape ?ss = ?ps" using assms(1) by (simp add: mux_matches_def)
  have "unescape (?ss ! i) = Some (?ps ! i)" if i: "i < length ?ps" for i
  proof -
    have "pathUnescape (?ss ! i) = ?ps ! i" using i e by (metis length_map nth_map)
    moreover have "CHR ''%'' \<notin> set (?ps ! i)" using split_all_set [OF nth_mem [OF i]] assms(2) by blast
    ultimately show ?thesis by (rule pathUnescape_clean [rotated])
  qed
  then have "list_all2 (\<lambda>s p. unescape s = Some p) ?ss ?ps"
    using arg_cong [OF e, of length] by (simp add: list_all2_conv_all_nth)
  from unescape_join [OF this] show ?thesis by (simp add: join_split URL_Path_def pathUnescape_def)
qed

lemma mux_only:
  assumes "URL_Path r = p" "mux_matches q (rq_EscapedPath r)" "CHR ''%'' \<notin> set q" shows "q = p"
  using mux_path [OF assms(2,3)] assms(1) by simp

lemma MaxBytesReader_simps [simp]:
  "rq_Method (MaxBytesReader n r) = rq_Method r" "rq_EscapedPath (MaxBytesReader n r) = rq_EscapedPath r"
  "rq_Header (MaxBytesReader n r) = rq_Header r" "rq_Host (MaxBytesReader n r) = rq_Host r"
  "URL_Path (MaxBytesReader n r) = URL_Path r"
  by (simp_all add: MaxBytesReader_def URL_Path_def)

lemma authorize_MaxBytes [simp]: "authorize au (MaxBytesReader n r) = authorize au r"
  by (simp add: fun_eq_iff authorize_def header_get_def)

definition header_fits :: "request \<Rightarrow> bool" where
  "header_fits r \<longleftrightarrow> headerBytes (rq_Header r) + length ''Host: '' + length (rq_Host r) + 2 \<le> MaxHeaderBytes"

lemma public_patterns: "rt_Pattern ` {rt \<in> set (routeDefs l m). rt_Public rt} = {RouteConfirm}"
proof -
  have "{rt \<in> set (routeDefs l m). rt_Public rt} = {last (routeDefs l m)}" by (auto simp: routeDefs_def)
  then show ?thesis by (simp add: routeDefs_def)
qed

lemma authGuard_public: "authGuard l m handler r sv = (if URL_Path r = RouteConfirm then handler r sv
     else case ask (authorize (ls_devices l) r) sv of
         (None, sv) \<Rightarrow> (writeUnauthorized, sv) | (Some d, sv) \<Rightarrow> handler r sv)"
  by (simp add: authGuard_def public_patterns)

text \<open>C6: Without a credential there is one answer. A request whose token no device owns, once it is
  past the Host and header checks, gets the same 401 for every method, path and body, and nothing
  but the registry was consulted; the only exception is the pairing path, where the request is
  served by \<open>handleConfirm\<close> or by no handler at all, however the path is spelled.\<close>

theorem no_credential_no_service:
  assumes "hostAllowed (sv_allowHost sv) r" "header_fits r"
    and "authorize (ls_devices l) r (sv_world sv) = (None, w)"
  shows "Handler l m unmatched r sv =
     (if URL_Path r \<noteq> RouteConfirm then (writeUnauthorized, sv\<lparr>sv_world := w\<rparr>)
      else if mux_matches RouteConfirm (rq_EscapedPath r) then
        handleConfirm (ls_devices l) (ls_confirms l) (ls_codec l) (mo_issued m) (mo_now m)
          (MaxBytesReader MaxRequestBytes r) sv
      else (unmatched (MaxBytesReader MaxRequestBytes r), sv))"
proof -
  have handler: "Handler l m unmatched r sv
      = authGuard l m (router l m unmatched) (MaxBytesReader MaxRequestBytes r) sv"
    using assms(1,2) by (simp add: Handler_def hostGuard_def sizeGuard_def header_fits_def)
  show ?thesis
  proof (cases "URL_Path r = RouteConfirm")
    case True
    have "\<not> mux_matches RouteToday (rq_EscapedPath r)" "\<not> mux_matches RouteContext (rq_EscapedPath r)"
      "\<not> mux_matches RouteHealth (rq_EscapedPath r)" "\<not> mux_matches RouteCapture (rq_EscapedPath r)"
      using mux_only [OF True] by fastforce+
    then show ?thesis using True
      by (simp add: handler authGuard_public router_def routeDefs_def)
  next
    case False
    then show ?thesis using assms(3) by (simp add: handler authGuard_public ask_def)
  qed
qed

text \<open>No handler relies on the guards around it. Called directly, every route of the table but
  the pairing one answers a method that is not its own with 405 and the method it allows,
  changing nothing, and a request without a device's token with the one 401, having done nothing
  but ask the registry.\<close>

lemma handlers_check_for_themselves:
  assumes "rt \<in> set (routeDefs l m)" "\<not> rt_Public rt"
    and "authorize (ls_devices l) r (sv_world sv) = (None, w)"
  shows "rt_Handler rt r sv =
     (if rq_Method r \<noteq> rt_Method rt then (writeOpaque [(''Allow'', rt_Method rt)] 405 ''method_not_allowed'', sv)
      else (writeUnauthorized, sv\<lparr>sv_world := w\<rparr>))"
  using assms
  by (auto simp: routeDefs_def handleToday_def handleContext_def handleHealth_def handleCapture_def
      admit_def requireDevice_def)

subsection \<open>The slots\<close>

definition slots :: "'s server \<Rightarrow> bool \<times> bool" where
  "slots sv = (sv_kernel sv, sv_pairing sv)"

named_theorems slot_frames \<open>what leaves the two slots as they are\<close>

lemma slots_update [simp]: "slots (sv\<lparr>sv_world := w\<rparr>) = slots sv" "slots (sv\<lparr>sv_captures := g\<rparr>) = slots sv"
  "slots (sv\<lparr>sv_log := ls\<rparr>) = slots sv" "slots (sv\<lparr>sv_latched := ds\<rparr>) = slots sv" "slots (sv\<lparr>sv_seen := ps\<rparr>) = slots sv"
  by (simp_all add: slots_def)

lemma slots_ask [slot_frames]: "ask f sv = (x, sv') \<Longrightarrow> slots sv' = slots sv"
  by (auto simp: ask_def split: prod.splits)

lemma slots_on_store [slot_frames]: "on_store f sv = (x, sv') \<Longrightarrow> slots sv' = slots sv"
  by (auto simp: on_store_def split: prod.splits)

lemma slots_log [simp]: "slots (logIntegrityEvent d sv) = slots sv"
  by (simp add: logIntegrityEvent_def)

lemma slots_markSeen [simp]: "slots (markSeen au now d sv) = slots sv"
  by (simp add: markSeen_def)

lemma slots_served [slot_frames]: "served au now d rb sv = (x, sv') \<Longrightarrow> slots sv' = slots sv"
  by (auto simp: served_def split: if_splits)

lemma slots_admit [slot_frames]: "admit au meth r sv = (x, sv') \<Longrightarrow> slots sv' = slots sv"
  by (auto simp: admit_def requireDevice_def split: prod.splits option.splits if_splits)

lemma slots_policy [slot_frames]: "current_policy wr sv = (x, sv') \<Longrightarrow> slots sv' = slots sv"
  by (auto simp: current_policy_def split: prod.splits sum.splits dest: slots_ask)

lemma slots_receipt [slot_frames]: "build_receipt t dev c oc sv = (x, sv') \<Longrightarrow> slots sv' = slots sv"
  by (auto simp: build_receipt_def Let_def split: prod.splits sum.splits dest!: slots_on_store)

lemma slots_answer [slot_frames]: "answer_rejected t cd dev c oc sv = (x, sv') \<Longrightarrow> slots sv' = slots sv"
  by (auto simp: answer_rejected_def split: prod.splits sum.splits dest!: slots_receipt)

lemma slots_refuse [slot_frames]: "refuse t cd wr dev c reason sv = (x, sv') \<Longrightarrow> slots sv' = slots sv"
  "refuseIntegrity t cd wr dev c detail sv = (x, sv') \<Longrightarrow> slots sv' = slots sv"
  by (auto simp: refuse_def refuseIntegrity_def split: prod.splits dest!: slots_policy slots_answer)

lemma slots_publish [slot_frames]: "publish au wr r c cl sv = (x, sv') \<Longrightarrow> slots sv' = slots sv"
  by (auto simp: publish_def split: prod.splits sum.splits option.splits if_splits dest!: slots_policy slots_ask)

lemma slots_record [slot_frames]: "record_receipt cd wr cl rc body sv = (x, sv') \<Longrightarrow> slots sv' = slots sv"
  by (auto simp: record_receipt_def split: prod.splits sum.splits option.splits dest!: slots_ask)

lemma slots_settle [slot_frames]:
  "settle_with json_size t cd au wr r dev c cl sv = (x, sv') \<Longrightarrow> slots sv' = slots sv"
  by (auto simp: settle_with_def split: prod.splits sum.splits option.splits if_splits dest!: slot_frames)

lemma slots_run_claim [slot_frames]:
  "run_claim json_size t cd au wr r dev c cl sv = (x, sv') \<Longrightarrow> slots sv' = slots sv"
  by (auto simp: run_claim_def split: prod.splits sum.splits dest!: slots_settle)

lemma slots_reserve_capture [slot_frames]:
  "reserve_capture json_size t waits cd au wr r dev c missing sv = (x, sv') \<Longrightarrow> slots sv' = slots sv"
  by (auto simp: reserve_capture_def replay_answer_def
      split: prod.splits sum.splits reserved.splits if_splits dest!: slot_frames)

lemma slots_run_capture [slot_frames]:
  "run_capture json_size t waits cd au wr r dev c sv = (x, sv') \<Longrightarrow> slots sv' = slots sv"
  by (auto simp: run_capture_def split: prod.splits sum.splits option.splits if_splits dest!: slot_frames)

lemma slots_budgeted:
  assumes "\<And>sv x sv'. call sv = (x, sv') \<Longrightarrow> slots sv' = slots sv" "budgeted call sv = (y, sv')"
  shows "slots sv' = slots sv"
proof (cases "sv_kernel sv")
  case False
  obtain x sv1 where c: "call (sv\<lparr>sv_kernel := True\<rparr>) = (x, sv1)" by (meson surj_pair)
  have "slots sv1 = slots (sv\<lparr>sv_kernel := True\<rparr>)" by (rule assms(1) [OF c])
  then show ?thesis using assms(2) False c
    by (auto simp: budgeted_def acquire_def release_def slots_def split: sum.splits)
qed (use assms(2) in \<open>simp add: budgeted_def acquire_def\<close>)

lemma slots_read [slot_frames]: "budgeted (\<lambda>sv. (f, sv)) sv = (x, sv') \<Longrightarrow> slots sv' = slots sv"
  by (erule slots_budgeted [rotated]) simp

lemma slots_pairing [simp]:
  "slots (unlatch d sv) = slots sv" "slots (latch d sv) = slots sv" "slots (revoke_ignoring cf d sv) = slots sv"
  "slots (count_failure cf d sv) = slots sv" "slots (retryOwedFailure cf d sv) = slots sv"
  by (simp_all add: unlatch_def latch_def revoke_ignoring_def count_failure_def retryOwedFailure_def Let_def
      split: prod.split)

lemma slots_try_confirm [slot_frames]: "try_confirm au cf cd issued now c sv = (x, sv') \<Longrightarrow> slots sv' = slots sv"
  by (auto simp: try_confirm_def Let_def split: prod.splits option.splits if_splits dest!: slots_served)

lemma slots_answer_confirmation [slot_frames]:
  "answer_confirmation au cf cd issued now c sv = (x, sv') \<Longrightarrow> slots sv' = slots sv"
  by (auto simp: answer_confirmation_def Let_def split: prod.splits sum.splits if_splits dest!: slots_try_confirm)

lemma slots_handleConfirm: "handleConfirm au cf cd issued now r sv = (x, sv') \<Longrightarrow> slots sv' = slots sv"
proof -
  assume h: "handleConfirm au cf cd issued now r sv = (x, sv')"
  have "slots s = slots (sv\<lparr>sv_pairing := True\<rparr>)"
    if "answer_confirmation au cf cd issued now c (sv\<lparr>sv_pairing := True\<rparr>) = (y, s)" for c y s
    using slots_answer_confirmation [OF that] .
  then show "slots sv' = slots sv" using h
    by (fastforce simp: handleConfirm_def pairingSlot_def slots_def split: prod.splits sum.splits if_splits)
qed

lemma slots_handlers:
  "handleToday au cd rd now r sv = (x, sv') \<Longrightarrow> slots sv' = slots sv"
  "handleHealth au cd rd wall now r sv = (x, sv') \<Longrightarrow> slots sv' = slots sv"
  "handleContext au cd rd now r sv = (x, sv') \<Longrightarrow> slots sv' = slots sv"
  "handleCapture json_size t waits cd au wr r sv = (x, sv') \<Longrightarrow> slots sv' = slots sv"
proof -
  have budget: "slots s' = slots s"
    if "budgeted (run_capture json_size t waits cd au wr r dev c) s = (y, s')" for dev c s s' y
    using that by (rule slots_budgeted [rotated]) (rule slots_run_capture)
  show "handleToday au cd rd now r sv = (x, sv') \<Longrightarrow> slots sv' = slots sv"
    by (auto simp: handleToday_def split: prod.splits sum.splits dest!: slot_frames)
  show "handleHealth au cd rd wall now r sv = (x, sv') \<Longrightarrow> slots sv' = slots sv"
    by (auto simp: handleHealth_def Let_def split: prod.splits sum.splits dest!: slot_frames)
  show "handleContext au cd rd now r sv = (x, sv') \<Longrightarrow> slots sv' = slots sv"
    by (auto simp: handleContext_def split: prod.splits sum.splits dest!: slot_frames)
  show "handleCapture json_size t waits cd au wr r sv = (x, sv') \<Longrightarrow> slots sv' = slots sv"
    by (auto simp: handleCapture_def split: prod.splits sum.splits dest!: slots_admit slots_served budget)
qed

text \<open>C20: A request never keeps a slot. Whatever a request is and whatever the kernel, the vault, the
  registry and the filesystem answer it, the work budget and the pairing slot are afterwards as
  they were before, so neither can be used up by requests that failed.\<close>

theorem slots_are_given_back:
  assumes "Handler l m unmatched r sv = (resp, sv')"
  shows "sv_kernel sv' = sv_kernel sv \<and> sv_pairing sv' = sv_pairing sv"
proof -
  have router: "slots s' = slots s" if "router l m unmatched q s = (x, s')" for q s x s'
    using that
    by (auto simp: router_def routeDefs_def split: if_splits dest: slots_handlers slots_handleConfirm)
  have "slots sv' = slots sv" using assms
    by (auto simp: Handler_def hostGuard_def sizeGuard_def authGuard_public
        split: if_splits prod.splits option.splits dest: router slots_ask) (metis router slots_ask)+
  then show ?thesis by (simp add: slots_def)
qed

subsection \<open>Health\<close>

text \<open>Health always answers. A kernel that fails, for whatever reason and whether or not the work
  budget is taken, still gets an authenticated device an answer of 200 that says unhealthy and
  readonly, at a clock within the years of four digits: the projection built for that case passes
  the contract's own validation.\<close>

lemma health_always_answers:
  assumes "rd_Health rd = Inl e" "rq_Method r = ''GET''"
    and "authorize au r (sv_world sv) = (Some d, w)" "in_years wall"
    and "length (enc_health cd (degradedHealth wall e)) < MaxProjectionBytes"
  shows "handleHealth au cd rd wall now r sv =
     (\<lparr>rp_Status = 200, rp_Headers = json_headers, rp_Body = enc_health cd (degradedHealth wall e) @ newline\<rparr>,
      markSeen au now (dv_DeviceID d) (sv\<lparr>sv_world := w\<rparr>))
     \<and> hp_State (degradedHealth wall e) = HealthUnhealthy \<and> hp_Policy (degradedHealth wall e) = PolicyReadonly"
proof -
  have t: "validateTimestamp fld (format_rfc3339 wall) = None" for fld
    using assms(4) by simp
  have "HealthProjection_Validate (degradedHealth wall e) = None"
    by (simp add: degradedHealth_def HealthProjection_Validate_def header_validate_def t SchemaVersion_def
        inVocabulary_def vocabulary_def validateOptionalTimestamp_def validateFreshness_def validateCount_def
        MaxFreshnessSources_def freshness_validate_def validateSourceKey_def MaxSourceKeyBytes_def
        opaqueRunes_def opaque_char_def kernelErrorCode_def)
  then show ?thesis using assms
    by (simp add: handleHealth_def admit_def requireDevice_def Marshal_def writePayload_def served_def newline_def
        degradedHealth_def)
qed

subsection \<open>A listener\<close>

definition owner :: device where
  "owner = \<lparr>hd_Schema = ''mora.companion.device'', hd_SchemaVersion = SchemaVersion, dv_DeviceID = ''dev_p'',
     dv_Label = ''phone'', dv_Platform = ''ios'', dv_State = DeviceActive, dv_TokenFingerprint = [], dv_CreatedAt = [],
     dv_LastSeenAt = [], dv_RevokedAt = []\<rparr>"

definition key_holder :: "unit authenticator" where
  \<comment> \<open>one device, whose token is \<open>key\<close>\<close>
  "key_holder = \<lparr>au_Authenticate = (\<lambda>token w. (if token = ''key'' then Inr owner else Inl (AuthError ReasonUnknownDevice), w)),
     au_MarkSeen = (\<lambda>_ w. (None, w))\<rparr>"

definition failing_reader :: reader where
  "failing_reader = \<lparr>rd_Today = Inl DeadlineExceeded, rd_Context = (\<lambda>_. Inl DeadlineExceeded),
     rd_Health = Inl DeadlineExceeded\<rparr>"

definition no_policy :: "unit writer" where
  "no_policy = \<lparr>wr_Policy = (\<lambda>w. (Inl DeadlineExceeded, w)), wr_PublishedForKey = (\<lambda>_ _ w. (Inr ([], False, []), w)),
     wr_RecordReceipt = (\<lambda>_ body w. (Inr body, w)), wr_Published = (\<lambda>_ _ w. (Inr (rejection [] [], False), w)),
     wr_Publish = (\<lambda>_ _ w. (Inl DeadlineExceeded, w))\<rparr>"

definition no_pairing :: "unit confirmer" where
  "no_pairing = \<lparr>cf_PairingBudget = (\<lambda>_ w. (Inl ErrLocked, w)), cf_RecordPairingFailure = (\<lambda>_ w. ((0, None), w)),
     cf_MarkPairingFailureUnrecorded = (\<lambda>_ w. (None, w)), cf_ClearPairingFailureUnrecorded = (\<lambda>_ w. (None, w)),
     cf_Confirm = (\<lambda>_ w. (([], None, Some ErrNoSuchDevice), w)), cf_Revoke = (\<lambda>_ w. ((None, False, None), w))\<rparr>"

definition example_listener :: "unit listener" where
  "example_listener = \<lparr>ls_addr = ''127.0.0.1:8730'', ls_devices = key_holder, ls_reader = failing_reader,
     ls_writer = no_policy, ls_confirms = no_pairing, ls_kernelTimeout = KernelTimeout,
     ls_pairingMinimum = PairingFloor, ls_codec = example_codec, ls_json_size = (\<lambda>_. 100)\<rparr>"

definition example_moment :: moment where
  "example_moment = \<lparr>mo_now = 0, mo_wall = 0, mo_issued = 0, mo_capture = \<lparr>cc_received = 0, cc_reserve = 0,
     cc_receipt_id = 0, cc_request_id = 0, cc_settled = 0, cc_seen = 0\<rparr>, mo_waits = []\<rparr>"

definition get_request :: "string \<Rightarrow> (string \<times> string) list \<Rightarrow> request" where
  "get_request path hs = \<lparr>rq_Method = ''GET'', rq_EscapedPath = path, rq_Host = ''127.0.0.1:8730'',
     rq_RemoteAddr = ''127.0.0.1:5000'', rq_Header = hs, rq_Body = Some []\<rparr>"

lemma example_host: "hostAllowed [] (get_request path hs)"
proof -
  have "SplitHostPort ''127.0.0.1:8730'' = Some (LoopbackHost, ''8730'')" by code_simp
  then show ?thesis by (simp add: hostAllowed_def get_request_def)
qed

lemma example_refused: "authorize key_holder (get_request path []) w = (None, w)"
  by (simp add: authorize_def key_holder_def get_request_def header_get_def bearerToken_def)

definition example_unmatched :: "request \<Rightarrow> response" where
  "example_unmatched r = writeUnauthorized"

lemma example_granted:
  "authorize key_holder (get_request path [(''Authorization'', ''Bearer key'')]) w = (Some owner, w)"
proof -
  have "bearerToken ''Bearer key'' = ''key''" by code_simp
  then show ?thesis by (simp add: authorize_def key_holder_def get_request_def header_get_def)
qed

theorem no_credential_no_service_witness:
  "Handler example_listener example_moment example_unmatched (get_request ''/v1/companion/%74oday'' []) (example_server ())
     = (writeUnauthorized, example_server ())"
proof -
  let ?r = "get_request ''/v1/companion/%74oday'' []" and ?sv = "example_server ()"
  have "hostAllowed (sv_allowHost ?sv) ?r" using example_host by (simp add: example_server_def)
  moreover have "header_fits ?r" by (simp add: header_fits_def get_request_def headerBytes_def MaxHeaderBytes_def)
  moreover have "authorize (ls_devices example_listener) ?r (sv_world ?sv) = (None, ())"
    using example_refused by (simp add: example_listener_def)
  moreover have "URL_Path ?r \<noteq> RouteConfirm" by (simp add: URL_Path_def pathUnescape_def get_request_def hex_val_def)
  ultimately show ?thesis
    using no_credential_no_service [of ?sv ?r example_listener "()" example_moment example_unmatched]
    by (simp add: example_server_def)
qed

lemma handlers_check_for_themselves_witness:
  "handleToday key_holder example_codec failing_reader 0 (get_request RouteToday []) (example_server ())
     = (writeUnauthorized, example_server ())"
proof -
  have "hd (routeDefs example_listener example_moment) \<in> set (routeDefs example_listener example_moment)"
    by (simp add: routeDefs_def)
  from handlers_check_for_themselves [OF this, of "get_request RouteToday []" "example_server ()" "()"] example_refused
  show ?thesis by (simp add: routeDefs_def example_listener_def example_moment_def get_request_def example_server_def)
qed

theorem slots_are_given_back_witness:
  "sv_kernel (snd (Handler example_listener example_moment example_unmatched
      (get_request RouteToday [(''Authorization'', ''Bearer key'')]) (example_server ()))) = False"
  using slots_are_given_back [OF prod.collapse [symmetric], of example_listener example_moment example_unmatched _ "example_server ()"]
  by (auto simp: example_server_def)

lemma health_always_answers_witness:
  "rp_Status (fst (handleHealth key_holder example_codec failing_reader 0 0
      (get_request RouteHealth [(''Authorization'', ''Bearer key'')]) ((example_server ())\<lparr>sv_kernel := True\<rparr>))) = 200"
proof -
  have "rd_Health failing_reader = Inl DeadlineExceeded" "rq_Method (get_request p hs) = ''GET''" for p hs
    by (simp_all add: failing_reader_def get_request_def)
  moreover have "length (enc_health example_codec h) < MaxProjectionBytes" for h
    by (simp add: example_codec_def MaxProjectionBytes_def)
  moreover have "in_years 0" by code_simp
  ultimately show ?thesis
    using health_always_answers [of failing_reader DeadlineExceeded
        "get_request RouteHealth [(''Authorization'', ''Bearer key'')]" key_holder
        "(example_server ())\<lparr>sv_kernel := True\<rparr>" owner "()" 0 example_codec 0] example_granted
    by simp
qed

end
