(* ===== verification/HostClaims.thy ===== *)
theory HostClaims
  imports ServerClaims
begin

text \<open>
  What can be published: the grammar of the extra Host, and what a listener that starts is bound
  to. And the arithmetic of the pairing route's timing buckets.
\<close>

subsection \<open>The extra Host\<close>

definition safe_char :: "char \<Rightarrow> bool" where
  \<comment> \<open>what needs no quoting in a shell command or a URL's host\<close>
  "safe_char c \<longleftrightarrow> host_char c \<or> c = CHR ''.'' \<or> c = CHR '':'' \<or> c = CHR ''['' \<or> c = CHR '']''"

lemma split_all_chars: "x \<in> set s \<Longrightarrow> x = c \<or> (\<exists>p \<in> set (split_all c s). x \<in> set p)"
proof (induction s)
  case (Cons y ys)
  obtain f fs where f: "split_all c ys = f # fs" by (cases "split_all c ys") auto
  show ?case using Cons by (auto simp: f)
qed simp

lemma split_last_append: "split_last c s = Some (a, b) \<Longrightarrow> s = a @ c # b"
proof -
  assume s: "split_last c s = Some (a, b)"
  then have c: "c \<in> set s" and ab: "a = rev (drop 1 (dropWhile (\<lambda>x. x \<noteq> c) (rev s)))" "b = rev (takeWhile (\<lambda>x. x \<noteq> c) (rev s))"
    by (auto simp: split_last_def split: if_splits)
  have "dropWhile (\<lambda>x. x \<noteq> c) (rev s) \<noteq> []" using c by (simp add: dropWhile_eq_Nil_conv)
  then obtain d where d: "dropWhile (\<lambda>x. x \<noteq> c) (rev s) = c # d"
    using hd_dropWhile [of "\<lambda>x. x \<noteq> c" "rev s"] by (cases "dropWhile (\<lambda>x. x \<noteq> c) (rev s)") auto
  have "rev s = takeWhile (\<lambda>x. x \<noteq> c) (rev s) @ c # d"
    using takeWhile_dropWhile_id [of "\<lambda>x. x \<noteq> c" "rev s"] d by simp
  then have "s = rev (takeWhile (\<lambda>x. x \<noteq> c) (rev s) @ c # d)" by (metis rev_rev_ident)
  then show ?thesis using ab d by simp
qed

lemma cut_char_append: "cut_char s c = (a, b, True) \<Longrightarrow> s = a @ c # b"
proof -
  assume h: "cut_char s c = (a, b, True)"
  then have c: "c \<in> set s" and ab: "a = takeWhile (\<lambda>x. x \<noteq> c) s" "b = drop 1 (dropWhile (\<lambda>x. x \<noteq> c) s)"
    by (auto simp: cut_char_def split: if_splits)
  have "dropWhile (\<lambda>x. x \<noteq> c) s \<noteq> []" using c by (simp add: dropWhile_eq_Nil_conv)
  then obtain d where "dropWhile (\<lambda>x. x \<noteq> c) s = c # d"
    using hd_dropWhile [of "\<lambda>x. x \<noteq> c" s] by (cases "dropWhile (\<lambda>x. x \<noteq> c) s") auto
  then show ?thesis using takeWhile_dropWhile_id [of "\<lambda>x. x \<noteq> c" s] ab by simp
qed

lemma hex_val_host: "hex_val c \<noteq> None \<Longrightarrow> host_char c"
  by (auto simp: hex_val_def host_char_def split: if_splits)

lemma ipv4_fields_chars: "ipv4_fields s = Some q \<Longrightarrow> x \<in> set s \<Longrightarrow> is_digit x \<or> x = CHR ''.''"
  using split_all_chars [of x s "CHR ''.''"]
  by (auto simp: ipv4_fields_def Let_def octet_def list_all_iff split: if_splits)

lemma ipv6_groups_chars:
  "ipv6_groups k ip ell s = Some (ip', ell', []) \<Longrightarrow> x \<in> set s \<Longrightarrow> host_char x \<or> x = CHR ''.'' \<or> x = CHR '':''"
proof (induction k arbitrary: ip ell s)
  case (Suc k)
  define hex where "hex = takeWhile (\<lambda>c. hex_val c \<noteq> None) s"
  define rest where "rest = drop (length hex) s"
  have s: "s = hex @ rest" unfolding hex_def rest_def by (metis takeWhile_eq_take append_take_drop_id)
  have "host_char x" if "x \<in> set hex" using that hex_val_host by (auto simp: hex_def dest: set_takeWhileD)
  then consider "host_char x" | "x \<in> set rest" using Suc.prems(2) s by auto
  then show ?case
  proof cases
    case 2
    then obtain c r where r: "rest = c # r" by (cases rest) auto
    note step = Suc.prems(1) [unfolded ipv6_groups.simps Let_def, folded hex_def, folded rest_def]
    show ?thesis
    proof (cases "c = CHR ''.''")
      case True
      then obtain q where "ipv4_fields s = Some q" using step r by (auto split: if_splits option.splits)
      then show ?thesis using ipv4_fields_chars Suc.prems(2) by (auto simp: host_char_def)
    next
      case False
      then have c: "c = CHR '':''" "r \<noteq> []" using step r by (auto split: if_splits)
      show ?thesis
      proof (cases "hd r = CHR '':''")
        case True
        then obtain t where t: "r = CHR '':'' # t" using c by (cases r) auto
        have "t = [] \<or> (\<exists>ip2 ell2. ipv6_groups k ip2 ell2 t = Some (ip', ell', []))"
          using step False c t r by (auto split: if_splits)
        then show ?thesis using Suc.IH 2 r c t by auto
      next
        case hd: False
        then have "\<exists>ip2. ipv6_groups k ip2 ell r = Some (ip', ell', [])"
          using step False c r by (auto split: if_splits)
        then show ?thesis using Suc.IH 2 r c by auto
      qed
    qed
  qed simp
qed simp

lemma ParseIP_chars:
  assumes "ParseIP s = Some ip" "x \<in> set s" shows "host_char x \<or> x = CHR ''.'' \<or> x = CHR '':''"
proof (cases "\<exists>q. ipv4_fields s = Some q")
  case True
  then show ?thesis using ipv4_fields_chars assms(2) by (auto simp: host_char_def)
next
  case False
  then have "parse_ipv6 s = Some ip"
    using assms(1) by (auto simp: ParseIP_def split: option.splits if_splits)
  note six = this
  show ?thesis
  proof (cases "s = ''::''")
    case long: False
    let ?lead = "has_prefix s ''::''"
    let ?t = "if ?lead then drop 2 s else s"
    obtain ip2 ell2 rest where g: "ipv6_groups 8 [] (if ?lead then Some 0 else None) ?t = Some (ip2, ell2, rest)"
      using six long by (cases "ipv6_groups 8 [] (if ?lead then Some 0 else None) ?t") (auto simp: parse_ipv6_def Let_def)
    then have "rest = []" using six long by (simp add: parse_ipv6_def Let_def split: if_splits)
    note t = ipv6_groups_chars [OF g [unfolded this]]
    have e: "s = (if ?lead then ''::'' else []) @ ?t"
    proof (cases ?lead)
      case True
      then have "take 2 s = ''::''" by (simp add: has_prefix_def numeral_2_eq_2)
      then show ?thesis using append_take_drop_id [of 2 s] True by metis
    qed simp
    have "x \<in> set ((if ?lead then ''::'' else []) @ ?t)" using arg_cong [OF e, of set] assms(2) by blast
    then have "x \<in> set ?t \<or> x = CHR '':''" by (auto split: if_splits)
    then show ?thesis using t by blast
  qed (use assms(2) in simp)
qed

lemma decimal_port: "checkAllowPortSuffix p \<Longrightarrow> x \<in> set p \<Longrightarrow> safe_char x"
  by (cases p) (auto simp: checkAllowPortSuffix_def safe_char_def host_char_def list_all_iff)

lemma checkDNSName_chars: "checkDNSName h \<Longrightarrow> x \<in> set h \<Longrightarrow> safe_char x"
  using split_all_chars [of x h "CHR ''.''"] by (auto simp: checkDNSName_def safe_char_def list_all_iff)

lemma splitAllowHost_chars:
  assumes "splitAllowHost s = Some h" "x \<in> set s" shows "safe_char x"
proof (cases "has_prefix s ''[''")
  case True
  obtain inner rest found where c: "cut_char s CHR '']'' = (inner, rest, found)" by (metis surj_pair)
  then obtain ip where p: "found" "ParseIP (tl inner) = Some ip" "checkAllowPortSuffix rest"
    using assms(1) True by (auto simp: splitAllowHost_def split: if_splits option.splits)
  have s: "s = inner @ CHR '']'' # rest" using cut_char_append c p(1) by auto
  have "inner = [] \<or> inner = CHR ''['' # tl inner"
    using True s by (cases inner) (auto simp: has_prefix_def)
  then have "set s \<subseteq> {CHR ''['', CHR '']''} \<union> set (tl inner) \<union> set rest"
    unfolding s by (cases inner) auto
  then show ?thesis using assms(2) ParseIP_chars [OF p(2)] decimal_port [OF p(3)] by (auto simp: safe_char_def)
next
  case False
  show ?thesis
  proof (cases "split_last CHR '':'' s")
    case None
    then show ?thesis using assms False checkDNSName_chars
      by (auto simp: splitAllowHost_def split: if_splits)
  next
    case (Some hp)
    obtain a b where hp: "hp = (a, b)" by (cases hp)
    then have "checkAllowPortSuffix (CHR '':'' # b)" "checkDNSName a"
      using assms(1) False Some by (auto simp: splitAllowHost_def split: if_splits)
    moreover have "s = a @ CHR '':'' # b" using split_last_append Some hp by simp
    then have "x \<in> set a \<or> x \<in> set (CHR '':'' # b)" using assms(2) by auto
    ultimately show ?thesis using decimal_port checkDNSName_chars by blast
  qed
qed


definition example_options :: "unit server_options" where
  "example_options = \<lparr>so_Addr = ''127.0.0.1:8730'',
     so_Devices = Some key_holder, so_Reader = Some failing_reader, so_Writer = Some no_policy,
     so_Captures = Some (NewReservationStore [] [] [] 0), so_Pairings = Some no_pairing,
     so_AllowHost = ''mac.ts.net:443'', so_PairingFloor = 0, so_KernelTimeout = 0\<rparr>"


subsection \<open>Timing buckets\<close>

text \<open>A refusal's timing is a bucket. For any time spent and any positive width, within the range of
  a 64-bit duration, the deadline is the smallest multiple of the width that is not before the
  time spent and not zero, and it does not overflow; so whatever finishes inside the first bucket
  leaves at the same moment.\<close>

lemma deadline_is_the_next_bucket:
  assumes "0 \<le> elapsed" "0 < width" "elapsed + width < 2 ^ 63"
  shows "width dvd padToBucket elapsed width \<and> elapsed \<le> padToBucket elapsed width
    \<and> width \<le> padToBucket elapsed width \<and> padToBucket elapsed width < 2 ^ 63
    \<and> (\<forall>b. width dvd b \<longrightarrow> elapsed \<le> b \<longrightarrow> width \<le> b \<longrightarrow> padToBucket elapsed width \<le> b)
    \<and> (elapsed \<le> width \<longrightarrow> padToBucket elapsed width = width)"
proof -
  define q m where "q = elapsed div width" and "m = elapsed mod width"
  then have e: "elapsed = q * width + m" "0 \<le> m" "m < width" "0 \<le> q"
    using assms by (simp_all add: pos_imp_zdiv_nonneg_iff)
  define n where "n = (if m \<noteq> 0 \<or> q = 0 then q + 1 else q)"
  have p: "padToBucket elapsed width = n * width"
    using assms by (simp add: padToBucket_def n_def q_def m_def go_quot_nonneg go_rem_nonneg)
  have least: "n \<le> k" if "elapsed \<le> k * width" "width \<le> k * width" for k
  proof -
    have "1 \<le> k" using that(2) assms(2) by (simp add: mult_le_cancel_right1)
    moreover have "q \<le> k" using zdiv_mono1 [OF that(1) assms(2)] assms(2) by (simp add: q_def)
    moreover have "q < k" if "m \<noteq> 0"
    proof (rule ccontr)
      assume "\<not> q < k"
      then have "k * width \<le> q * width" using assms(2) by (simp add: mult_right_mono)
      then show False using \<open>elapsed \<le> k * width\<close> e that by linarith
    qed
    ultimately show ?thesis by (auto simp: n_def)
  qed
  have "(q + 1) * width = q * width + width" by (simp add: algebra_simps)
  then have up: "elapsed \<le> n * width" "width \<le> n * width" "n * width \<le> q * width + width" "n * width < 2 ^ 63"
    using e assms by (auto simp: n_def mult_le_cancel_right1)
  have "n * width \<le> b" if "width dvd b" "elapsed \<le> b" "width \<le> b" for b
    using that least assms(2) by (auto simp: dvd_def mult.commute mult_right_mono)
  moreover have "n * width = width" if "elapsed \<le> width"
    using least [of 1] that up assms by (auto simp: mult_le_cancel_right1 mult_le_cancel_right2)
  ultimately show ?thesis using up by (simp add: p)
qed

lemma deadline_is_the_next_bucket_witness:
  "padToBucket 260000000 PairingFloor = 500000000 \<and> padToBucket 3000 PairingFloor = 250000000"
proof -
  have w: "(0 :: int) < PairingFloor" "260000000 + PairingFloor < 2 ^ 63" "3000 + PairingFloor < 2 ^ 63"
    by (simp_all add: PairingFloor_def)
  note p = deadline_is_the_next_bucket [OF _ w(1,2)] deadline_is_the_next_bucket [OF _ w(1,3)]
  have "PairingFloor dvd padToBucket 260000000 PairingFloor" "260000000 \<le> padToBucket 260000000 PairingFloor"
    "padToBucket 260000000 PairingFloor \<le> 500000000" using p(1) by (simp_all add: PairingFloor_def)
  then have "padToBucket 260000000 PairingFloor = 500000000" unfolding PairingFloor_def dvd_def by auto
  then show ?thesis using p(2) by (simp add: PairingFloor_def)
qed

end
