(* ===== verification/ReservationFacts.thy ===== *)
theory ReservationFacts
  imports Reservations SchemaFacts
begin

text \<open>
  What each step of the reservation store does to the files and to the census, and the
  interface \<open>reservation_law\<close>: a property of the store that the primitive steps (removing
  a file, sweeping, publishing a claim, publishing a receipt) keep is kept by every operation.
\<close>

subsection \<open>One file at a time\<close>

definition file_at :: "res_store \<Rightarrow> res_path \<Rightarrow> stored option" where
  "file_at g p = map_of (rs_files g) p"

definition same_store :: "res_store \<Rightarrow> res_store \<Rightarrow> bool" where
  "same_store g g' \<longleftrightarrow> rs_files g' = rs_files g \<and> rs_total g' = rs_total g \<and> rs_pending g' = rs_pending g"

lemma same_store_refl [simp]: "same_store g g"
  by (simp add: same_store_def)

lemma same_store_trans: "same_store a b \<Longrightarrow> same_store b c \<Longrightarrow> same_store a c"
  by (simp add: same_store_def)

lemma same_store_file_at: "same_store g g' \<Longrightarrow> file_at g' = file_at g"
  by (simp add: same_store_def file_at_def fun_eq_iff)

lemma next_res_io_same: "next_res_io g = (i, g') \<Longrightarrow> same_store g g' \<and> rs_inflight g' = rs_inflight g
    \<and> rs_chans g' = rs_chans g \<and> rs_closed g' = rs_closed g \<and> rs_entropy g' = rs_entropy g"
  by (auto simp: next_res_io_def same_store_def split: list.splits)

lemma finish_same [simp]: "same_store g (finish k ch g)"
  by (simp add: same_store_def finish_def)

lemma Claim_finish_same [simp]: "same_store g (Claim_finish c g)"
  by (simp add: Claim_finish_def)

lemma file_at_Remove: "os_Remove i p g = (ok, g') \<Longrightarrow>
    file_at g' q = (if ok \<and> q = p then None else file_at g q)"
  by (auto simp: os_Remove_def file_at_def AList.delete_conv split: if_splits)

lemma os_Remove_frame: "os_Remove i p g = (ok, g') \<Longrightarrow>
    rs_total g' = rs_total g \<and> rs_pending g' = rs_pending g"
  by (auto simp: os_Remove_def split: if_splits)

lemma os_Remove_works: "p \<notin> set (ri_stuck i) \<Longrightarrow> file_at (snd (os_Remove i p g)) p = None"
  by (auto simp: os_Remove_def file_at_def AList.delete_conv)

lemma file_at_snd_Remove: "file_at (snd (os_Remove i p g)) q =
    (if q = p \<and> p \<notin> set (ri_stuck i) then None else file_at g q)"
  by (auto simp: os_Remove_def file_at_def AList.delete_conv)

lemma snd_Remove_frame [simp]: "rs_total (snd (os_Remove i p g)) = rs_total g"
  "rs_pending (snd (os_Remove i p g)) = rs_pending g"
  by (simp_all add: os_Remove_def)

lemma file_at_update: "file_at (g\<lparr>rs_files := AList.update p s (rs_files g)\<rparr>) q =
    (if q = p then Some s else file_at g q)"
  by (simp add: file_at_def AList.update_conv')

lemma file_at_census [simp]: "file_at (remember p now fresh g) = file_at g"
  "file_at (forget p g) = file_at g" "file_at (settled p g) = file_at g"
  by (simp_all add: file_at_def fun_eq_iff remember_def forget_def settled_def)

lemma fold_Remove:
  "file_at (fold (\<lambda>p g. snd (os_Remove i p g)) ps g) q =
     (if q \<in> set ps \<and> q \<notin> set (ri_stuck i) then None else file_at g q)"
  "rs_total (fold (\<lambda>p g. snd (os_Remove i p g)) ps g) = rs_total g"
  "rs_pending (fold (\<lambda>p g. snd (os_Remove i p g)) ps g) = rs_pending g"
  by (induction ps arbitrary: g) (auto simp: file_at_snd_Remove)

lemma file_at_sweep:
  assumes "sweep now i g = (live, g')"
  shows "file_at g' p = (if (\<exists>t. (p, t) \<in> set (rs_pending g) \<and> stale now t) \<and> p \<notin> set (ri_stuck i)
           then None else file_at g p)"
    and "rs_pending g' = filter (\<lambda>(p, t). \<not> stale now t) (rs_pending g)"
    and "live = length (rs_pending g')"
proof -
  let ?old = "map fst (filter (\<lambda>(p, t). stale now t) (rs_pending g))"
  have old: "p \<in> set ?old \<longleftrightarrow> (\<exists>t. (p, t) \<in> set (rs_pending g) \<and> stale now t)"
    by force
  have "file_at (g\<lparr>rs_pending := x, rs_total := y\<rparr>) = file_at g" for x y
    by (simp add: file_at_def fun_eq_iff)
  then show "file_at g' p = (if (\<exists>t. (p, t) \<in> set (rs_pending g) \<and> stale now t) \<and> p \<notin> set (ri_stuck i)
           then None else file_at g p)"
    using assms unfolding sweep_def Let_def old [symmetric] by (auto simp: fold_Remove simp del: set_map set_filter)
  show "rs_pending g' = filter (\<lambda>(p, t). \<not> stale now t) (rs_pending g)" "live = length (rs_pending g')"
    using assms by (auto simp: sweep_def Let_def fold_Remove)
qed

lemma trim_rows_only_settled:
  assumes "\<And>p r. (p, r) \<in> set rows \<Longrightarrow> \<exists>sz. file_at g0 p = Some (Stored r sz)"
    and "\<And>p. file_at g p = file_at g0 p \<or> file_at g p = None"
  shows "file_at (trim_rows i keep n rows g) p = file_at g p
    \<or> file_at (trim_rows i keep n rows g) p = None \<and> p \<noteq> keep \<and>
      (\<exists>r sz. file_at g0 p = Some (Stored r sz) \<and> rv_State r = reservationSettled)"
  using assms
proof (induction i keep n rows g rule: trim_rows.induct)
  case (2 i keep n q r rows g)
  obtain ok h where rm: "os_Remove i q g = (ok, h)" by force
  note f = file_at_Remove [OF rm]
  have q: "\<exists>sz. file_at g0 q = Some (Stored r sz)" and rows: "\<And>p r. (p, r) \<in> set rows \<Longrightarrow> \<exists>sz. file_at g0 p = Some (Stored r sz)"
    using "2.prems"(1) by auto
  have h: "\<And>p. file_at h p = file_at g0 p \<or> file_at h p = None" using "2.prems"(2) f by auto
  show ?case
  proof (cases "n = 0 \<or> q = keep \<or> rv_State r \<noteq> reservationSettled")
    case True
    then show ?thesis using "2.IH"(1) "2.prems"(2) rows by (cases "n = 0") simp_all
  next
    case False
    then have IH: "file_at (trim_rows i keep (if ok then n - 1 else n) rows (if ok then forget q h else h)) p =
          file_at h p
      \<or> file_at (trim_rows i keep (if ok then n - 1 else n) rows (if ok then forget q h else h)) p = None \<and> p \<noteq> keep
        \<and> (\<exists>r sz. file_at g0 p = Some (Stored r sz) \<and> rv_State r = reservationSettled)"
      using "2.IH"(2,3) [of ok h] rm rows h by (cases ok) simp_all
    have "file_at h p = file_at g p \<or> file_at h p = None \<and> p = q" using f by auto
    then show ?thesis using IH False rm q by (cases ok) auto
  qed
qed simp

lemma readReservation_Inr: "readReservation fault s = Inr r \<Longrightarrow> fault = None \<and>
    (\<exists>sz. s = Some (Stored r sz) \<and> sz \<le> maxReservationBytes) \<and> header_validate r schemaCaptureReservation = None
    \<and> (\<forall>rc. rv_Receipt r = Some rc \<longrightarrow> Receipt_Validate rc = None)"
  by (auto simp: readReservation_def split: option.splits stored.splits if_splits)

lemma list_reservations_files:
  assumes "(p, r) \<in> set (list_reservations i g)" "distinct (map fst (rs_files g))"
  shows "\<exists>sz. file_at g p = Some (Stored r sz)"
proof -
  obtain s where "(p, s) \<in> set (rs_files g)" "readReservation None (Some s) = Inr r"
    using assms(1) by (auto simp: list_reservations_def List.map_filter_def split: if_splits sum.splits)
  moreover from this(2) obtain sz where "s = Stored r sz" using readReservation_Inr by blast
  ultimately show ?thesis using assms(2) by (auto simp: file_at_def)
qed

lemma file_at_trim:
  assumes "distinct (map fst (rs_files g))"
  shows "file_at (trim i keep g) p = file_at g p
    \<or> file_at (trim i keep g) p = None \<and> p \<noteq> keep \<and> MaxReservations < rs_total g \<and>
      (\<exists>r sz. file_at g p = Some (Stored r sz) \<and> rv_State r = reservationSettled)"
  using trim_rows_only_settled [of "sort_key (\<lambda>row. rv_ReservedAt (snd row)) (list_reservations i g)" g g
      i keep "length (list_reservations i g) - MaxReservations" p] list_reservations_files [OF _ assms]
  by (auto simp: trim_def Let_def)

end
