(* ===== verification/ReservationLaw.thy ===== *)
theory ReservationLaw
  imports ReservationFacts
begin

text \<open>
  The interface \<open>reservation_law\<close>: a property of the files and the census that the primitive
  steps of the store keep (discarding a file, sweeping, publishing a claim or a receipt, opening
  the store) is kept by every operation. It is interpreted twice: \<open>files\<close>, for whatever the
  filesystem answers, says that every file is a reservation the code can read back; \<open>pending\<close>,
  for a filesystem whose failures are clean, that the claims on disk are within the census and
  the census within its bound.
\<close>

definition kept_record :: "reservation \<Rightarrow> bool" where
  "kept_record r \<longleftrightarrow> header_validate r schemaCaptureReservation = None
     \<and> (\<forall>rc. rv_Receipt r = Some rc \<longrightarrow> Receipt_Validate rc = None)
     \<and> (rv_State r = reservationPending \<or> rv_State r = reservationSettled \<and> rv_Response r \<noteq> [])"

lemma kept_pending_record [simp]: "kept_record (pending_record cid now)"
  by (simp add: kept_record_def pending_record_def header_validate_def)

definition settled_as :: "reservation \<Rightarrow> receipt \<Rightarrow> string \<Rightarrow> reservation" where
  "settled_as r rc response =
     r\<lparr>rv_State := reservationSettled, rv_Receipt := Some rc, rv_Response := response\<rparr>"

lemma kept_settled_as:
  "header_validate r schemaCaptureReservation = None \<Longrightarrow> Receipt_Validate rc = None \<Longrightarrow> response \<noteq> []
    \<Longrightarrow> kept_record (settled_as r rc response)"
  by (simp add: kept_record_def settled_as_def header_validate_def split: if_splits)

locale reservation_law =
  fixes inv :: "res_store \<Rightarrow> bool" and good :: "res_io \<Rightarrow> bool"
  assumes good_ok: "good res_io_ok"
    and same: "inv g \<Longrightarrow> same_store g g' \<Longrightarrow> inv g'"
    and discard: "inv g \<Longrightarrow> good i \<Longrightarrow> inv (forget p (snd (os_Remove i p g)))"
    and swept: "inv g \<Longrightarrow> good i \<Longrightarrow> sweep now i g = (live, g') \<Longrightarrow> inv g'"
    and written: "inv g \<Longrightarrow> good i \<Longrightarrow> kept_record r \<Longrightarrow> write_reservation json_size i p r g = (Some e, g')
          \<Longrightarrow> inv g'"
    and claimed: "inv g \<Longrightarrow> good i \<Longrightarrow> write_reservation json_size i p (pending_record cid now) g = (None, g')
          \<Longrightarrow> (fresh \<Longrightarrow> length (rs_pending g) < MaxPendingReservations)
          \<Longrightarrow> (\<not> fresh \<Longrightarrow> \<exists>r sz. file_at g p = Some (Stored r sz)
                \<and> \<not> (rv_State r = reservationSettled \<and> rv_Response r \<noteq> []))
          \<Longrightarrow> inv (remember p now fresh g')"
    and receipted: "inv g \<Longrightarrow> good i \<Longrightarrow> kept_record (settled_as r rc response)
          \<Longrightarrow> write_reservation json_size i p (settled_as r rc response) g = (None, g')
          \<Longrightarrow> inv (settled p g')"
    and opened: "inv g \<Longrightarrow> good i \<Longrightarrow> inv (NewReservationStore (rs_files g) entropy [i] now)"
begin

lemma next_inv:
  assumes "inv g" "list_all good (rs_tape g)" "next_res_io g = (i, g')"
  shows "inv g'" "good i" "list_all good (rs_tape g')"
  using assms same [of g g'] next_res_io_same [OF assms(3)] good_ok
  by (auto simp: next_res_io_def split: list.splits)

lemma trim_rows_inv: "good i \<Longrightarrow> inv g \<Longrightarrow> inv (trim_rows i keep n rows g)"
proof (induction i keep n rows g rule: trim_rows.induct)
  case (2 i keep n q r rows g)
  obtain ok h where rm: "os_Remove i q g = (ok, h)" by force
  show ?case
  proof (cases ok)
    case True
    then show ?thesis using "2.IH" "2.prems" rm discard [of g i q] by (simp add: rm)
  next
    case False
    then have "h = g" using rm by (auto simp: os_Remove_def split: if_splits)
    then show ?thesis using "2.IH" "2.prems" rm False by simp
  qed
qed simp

lemma trim_inv: "good i \<Longrightarrow> inv g \<Longrightarrow> inv (trim i keep g)"
  by (simp add: trim_def Let_def trim_rows_inv)

lemma publish_inv:
  assumes "inv g" "good i" and "publish_claim json_size i cid k ch now takenOver g = (res, g')"
    and "\<not> takenOver \<Longrightarrow> length (rs_pending g) < MaxPendingReservations"
    and "takenOver \<Longrightarrow> \<exists>r sz. file_at g (reservation_path (ci_DeviceID cid) (ci_Key cid)) = Some (Stored r sz)
           \<and> \<not> (rv_State r = reservationSettled \<and> rv_Response r \<noteq> [])"
  shows "inv g'"
proof -
  obtain e h where w: "write_reservation json_size i (reservation_path (ci_DeviceID cid) (ci_Key cid))
      (pending_record cid now) g = (e, h)" by force
  show ?thesis
  proof (cases e)
    case None
    have "inv (remember (reservation_path (ci_DeviceID cid) (ci_Key cid)) now (\<not> takenOver) h)"
      by (rule claimed [OF assms(1,2) w [unfolded None]]) (use assms(4,5) in auto)
    then show ?thesis using assms(2,3) w None by (auto simp: publish_claim_def Let_def trim_inv)
  next
    case (Some x)
    then show ?thesis using assms(3) w written [OF assms(1,2) kept_pending_record w [unfolded Some]]
      by (simp add: publish_claim_def Let_def)
  qed
qed

lemma admit_inv:
  assumes "inv g" "good i" "admit_fresh json_size i cid k ch now g = (res, g')"
  shows "inv g'"
proof -
  obtain live h where s: "sweep now i g = (live, h)" by force
  note h = swept [OF assms(1,2) s]
  show ?thesis
  proof (cases "MaxPendingReservations \<le> live")
    case True
    then show ?thesis using assms(3) s h by (simp add: admit_fresh_def)
  next
    case False
    then have "publish_claim json_size i cid k ch now False h = (res, g')" "length (rs_pending h) < MaxPendingReservations"
      using assms(3) s file_at_sweep(3) [OF s] by (simp_all add: admit_fresh_def)
    then show ?thesis using publish_inv [OF h assms(2)] by blast
  qed
qed

lemma reserveOnDisk_inv:
  assumes "inv g" "list_all good (rs_tape g)" "reserveOnDisk json_size cid k ch now g = (res, g')"
  shows "inv g'"
proof -
  let ?p = "reservation_path (ci_DeviceID cid) (ci_Key cid)"
  obtain i h where n: "next_res_io g = (i, h)" by force
  note i = next_inv [OF assms(1,2) n]
  show ?thesis
  proof (cases "ri_ensure i = None \<and> ri_lock i = None")
    case False
    then show ?thesis using assms(3) n i by (auto simp: reserveOnDisk_def split: option.splits)
  next
    case ok: True
    show ?thesis
    proof (cases "readReservation (ri_read i) (map_of (rs_files h) ?p)")
      case (Inl e)
      then show ?thesis using assms(3) n i ok admit_inv [OF i(1,2)]
        by (auto simp: reserveOnDisk_def Let_def split: if_splits)
    next
      case (Inr r)
      then obtain sz where f: "file_at h ?p = Some (Stored r sz)"
        using readReservation_Inr [OF Inr] by (auto simp: file_at_def)
      show ?thesis using assms(3) n i ok Inr f admit_inv [OF discard [OF i(1,2)] i(2)]
          publish_inv [OF i(1,2), where cid = "cid\<lparr>ci_MemoryID := rv_MemoryID r\<rparr>" and takenOver = True]
        by (auto simp: reserveOnDisk_def Let_def split: if_splits)
    qed
  qed
qed

lemma take_hold_inv:
  assumes "inv g" "list_all good (rs_tape g)" "take_hold json_size cid now g = (res, g')"
  shows "inv g'"
proof -
  let ?k = "inflight_key cid" and ?ch = "rs_chans g"
  let ?h = "g\<lparr>rs_inflight := AList.update ?k ?ch (rs_inflight g), rs_chans := ?ch + 1\<rparr>"
  have "inv ?h" "list_all good (rs_tape ?h)"
    using assms same [of g ?h] by (simp_all add: same_store_def)
  moreover obtain x h where d: "reserveOnDisk json_size cid ?k ?ch now ?h = (x, h)" by force
  ultimately have h: "inv h" by (rule reserveOnDisk_inv)
  have "g' = h \<or> g' = finish ?k ?ch h"
    using assms(3) d by (auto simp: take_hold_def Let_def split: sum.splits reserved.splits)
  then show ?thesis using h same [OF h finish_same] by auto
qed

lemma Reserve_inv:
  assumes "inv g" "list_all good (rs_tape g)" "Reserve json_size cid now [] g = (res, g')"
  shows "inv g'"
  using assms take_hold_inv [OF assms(1,2)] by (auto simp: Reserve_def split: option.splits if_splits)

lemma receipt_inv:
  assumes "inv g" "good i" "header_validate r schemaCaptureReservation = None"
    and "Receipt_Validate rc = None" "response \<noteq> []"
    and "write_reservation json_size i p (settled_as r rc response) g = (w, g')"
  shows "w = None \<Longrightarrow> inv (settled p g')" "w \<noteq> None \<Longrightarrow> inv g'"
  using receipted [OF assms(1,2) kept_settled_as [OF assms(3-5)]]
    written [OF assms(1,2) kept_settled_as [OF assms(3-5)]] assms(6) by blast+

lemma Settle_inv:
  assumes "inv g" "list_all good (rs_tape g)" "Claim_Settle json_size c rc response g = (e, g')"
    and "header_validate (cl_record c) schemaCaptureReservation = None"
  shows "inv g'"
proof -
  obtain x h where s: "settle_claim json_size c rc response g = (x, h)" by force
  obtain i g1 where n: "next_res_io g = (i, g1)" by force
  note i = next_inv [OF assms(1,2) n]
  obtain w g2 where w: "write_reservation json_size i (cl_path c) (settled_as (cl_record c) rc response) g1 = (w, g2)"
    by force
  have "inv h"
    using s n w i(1) assms(1) receipt_inv [OF i(1,2) assms(4) _ _ w]
    by (cases w) (auto simp: settle_claim_def settled_as_def split: option.splits if_splits)
  moreover have "g' = Claim_finish c h" using assms(3) s by (simp add: Claim_Settle_def)
  ultimately show ?thesis using same by auto
qed

lemma Replay_inv:
  assumes "inv g" "list_all good (rs_tape g)" "SettleFromReplay json_size decode cid response g = (e, g')"
  shows "inv g'"
proof (cases "replay_checks cid response decode")
  case (Inl x)
  then show ?thesis using assms by (simp add: SettleFromReplay_def)
next
  case rc: (Inr rc)
  let ?p = "reservation_path (ci_DeviceID cid) (ci_Key cid)"
  obtain i g1 where n: "next_res_io g = (i, g1)" by force
  note i = next_inv [OF assms(1,2) n]
  have v: "Receipt_Validate rc = None" "response \<noteq> []"
    using rc by (auto simp: replay_checks_def split: option.splits if_splits)
  show ?thesis
  proof (cases "readReservation (ri_read i) (map_of (rs_files g1) ?p)")
    case (Inl x)
    then show ?thesis using assms(3) rc n i
      by (auto simp: SettleFromReplay_def Let_def split: option.splits if_splits)
  next
    case (Inr r)
    obtain w g2 where w: "write_reservation json_size i ?p (settled_as r rc response) g1 = (w, g2)"
      by force
    have hv: "header_validate r schemaCaptureReservation = None" using readReservation_Inr [OF Inr] by simp
    show ?thesis
      using assms(3) rc n w i(1) Inr receipt_inv [OF i(1,2) hv v w]
      by (cases w) (auto simp: SettleFromReplay_def Let_def settled_as_def split: option.splits if_splits)
  qed
qed

end

subsection \<open>Every file is a reservation\<close>

definition sound_files :: "res_store \<Rightarrow> bool" where
  "sound_files g \<longleftrightarrow> distinct (map fst (rs_files g)) \<and>
     (\<forall>p s. file_at g p = Some s \<longrightarrow> (\<exists>r sz. s = Stored r sz \<and> sz \<le> maxReservationBytes \<and> kept_record r))"

lemma sound_fileD: "sound_files g \<Longrightarrow> file_at g p = Some (Stored r sz) \<Longrightarrow> sz \<le> maxReservationBytes \<and> kept_record r"
  unfolding sound_files_def by (metis stored.inject)

lemma sound_same: "sound_files g \<Longrightarrow> rs_files g' = rs_files g \<Longrightarrow> sound_files g'"
  by (simp add: sound_files_def file_at_def)

lemma sound_census [simp]: "sound_files (remember p now fresh g) = sound_files g"
  "sound_files (forget p g) = sound_files g" "sound_files (settled p g) = sound_files g"
  by (simp_all add: sound_files_def) (simp_all add: remember_def forget_def settled_def)

lemma sound_Remove: "sound_files g \<Longrightarrow> sound_files (snd (os_Remove i p g))"
  by (auto simp: sound_files_def file_at_snd_Remove) (simp add: os_Remove_def distinct_delete)

lemma sound_fold_Remove: "sound_files g \<Longrightarrow> sound_files (fold (\<lambda>p g. snd (os_Remove i p g)) ps g)"
  by (induction ps arbitrary: g) (auto intro: sound_Remove)

lemma sound_write:
  "sound_files g \<Longrightarrow> kept_record r \<Longrightarrow> write_reservation json_size i p r g = (e, g') \<Longrightarrow> sound_files g'"
  by (auto simp: write_reservation_def sound_files_def file_at_update distinct_update split: if_splits)

lemma sound_census_rows: "census_rows i now rows c g = (c', g') \<Longrightarrow> sound_files g \<Longrightarrow> sound_files g'"
  by (induction i now rows c g rule: census_rows.induct) (auto split: if_splits intro: sound_Remove)

lemma sound_open:
  assumes "sound_files g" shows "sound_files (NewReservationStore (rs_files g) entropy tape now)"
proof -
  let ?g = "\<lparr>rs_files = rs_files g, rs_total = 0, rs_pending = [], rs_inflight = [], rs_chans = 0,
     rs_closed = [], rs_entropy = entropy, rs_tape = tape\<rparr>"
  obtain i h where n: "next_res_io ?g = (i, h)" by force
  obtain m ps h' where c: "census_rows i now (list_reservations i h) (0, []) h = ((m, ps), h')"
    by (metis prod_cases3 surj_pair)
  have "rs_files h = rs_files g" using next_res_io_same [OF n] by (simp add: same_store_def)
  then have "sound_files h'" using sound_census_rows [OF c] sound_same [OF assms] by simp
  moreover have "rs_files (NewReservationStore (rs_files g) entropy tape now) = rs_files h'"
    using n c by (simp add: NewReservationStore_def census_def)
  ultimately show ?thesis by (rule sound_same)
qed

interpretation files: reservation_law sound_files "\<lambda>i. True"
proof
  fix g i now live g' assume "sound_files g" "sweep now i g = (live, g')"
  then show "sound_files g'"
    by (auto simp: sweep_def Let_def intro!: sound_fold_Remove intro: sound_same)
qed (auto simp: same_store_def intro: sound_same sound_Remove sound_open sound_write sound_write [OF _ kept_pending_record])

subsection \<open>The census covers the claims on disk\<close>

definition pending_file :: "res_store \<Rightarrow> res_path \<Rightarrow> bool" where
  "pending_file g p \<longleftrightarrow> (\<exists>r sz. file_at g p = Some (Stored r sz) \<and> rv_State r = reservationPending)"

definition counted :: "res_store \<Rightarrow> bool" where
  "counted g \<longleftrightarrow> sound_files g \<and> distinct (map fst (rs_pending g))
     \<and> length (rs_pending g) \<le> MaxPendingReservations \<and> Collect (pending_file g) \<subseteq> fst ` set (rs_pending g)"

definition clean_faults :: "res_io \<Rightarrow> bool" where
  \<comment> \<open>removals and directory reads work, a write that fails has not been published\<close>
  "clean_faults i \<longleftrightarrow> ri_stuck i = [] \<and> ri_hidden i = [] \<and> (\<forall>e. ri_write i \<noteq> WrittenThen e)"

lemma counted_card: "counted g \<Longrightarrow> finite (Collect (pending_file g)) \<and> card (Collect (pending_file g)) \<le> MaxPendingReservations"
proof -
  assume c: "counted g"
  then have s: "Collect (pending_file g) \<subseteq> fst ` set (rs_pending g)" by (simp add: counted_def)
  have "card (fst ` set (rs_pending g)) \<le> length (rs_pending g)"
    using card_length [of "map fst (rs_pending g)"] by simp
  then show ?thesis using c card_mono [OF _ s] finite_subset [OF s] by (auto simp: counted_def)
qed

lemma length_update_le: "length (AList.update k v al) \<le> Suc (length al)"
  "k \<in> fst ` set al \<Longrightarrow> length (AList.update k v al) = length al"
  by (induction al) (auto split: if_splits)

lemma pending_file_mono:
  "(\<And>q. file_at g' q = file_at g q \<or> file_at g' q = None) \<Longrightarrow> pending_file g' p \<Longrightarrow> pending_file g p"
  by (metis option.distinct(1) pending_file_def)

lemma fst_set_delete: "fst ` set (AList.delete p al) = fst ` set al - {p}"
  by (auto simp: AList.delete_eq image_iff)

lemma pending_file_steps [simp]:
  "pending_file (remember p now fresh g) = pending_file g" "pending_file (forget p g) = pending_file g"
  "pending_file (settled p g) = pending_file g"
  "pending_file (snd (os_Remove i p g)) q \<longleftrightarrow> pending_file g q \<and> (q = p \<longrightarrow> p \<in> set (ri_stuck i))"
  by (auto simp: pending_file_def fun_eq_iff file_at_snd_Remove)

lemma census_pending [simp]:
  "rs_pending (remember p now fresh g) = AList.update p now (rs_pending g)"
  "rs_pending (forget p g) = AList.delete p (rs_pending g)"
  "rs_pending (settled p g) = AList.delete p (rs_pending g)"
  by (simp_all add: remember_def forget_def settled_def)

lemma pending_file_write: "write_reservation json_size i p r g = (None, g') \<Longrightarrow>
    pending_file g' q \<longleftrightarrow> (if q = p then rv_State r = reservationPending else pending_file g q)"
  by (cases "ri_write i") (auto simp: write_reservation_def pending_file_def file_at_update split: if_splits)

lemma write_frame: "write_reservation json_size i p r g = (e, g') \<Longrightarrow>
    rs_total g' = rs_total g \<and> rs_pending g' = rs_pending g"
  by (auto simp: write_reservation_def split: if_splits)

lemma clean_write: "clean_faults i \<Longrightarrow> write_reservation json_size i p r g = (Some e, g') \<Longrightarrow> g' = g"
  by (cases "ri_write i") (auto simp: write_reservation_def clean_faults_def split: if_splits)

lemma counted_discard:
  assumes "counted g" "clean_faults i" shows "counted (forget p (snd (os_Remove i p g)))"
proof -
  have "length (AList.delete p (rs_pending g)) \<le> MaxPendingReservations"
    using assms(1) length_delete_le [of p "rs_pending g"] by (simp add: counted_def)
  then show ?thesis using assms sound_Remove [of g i p]
    by (auto simp: counted_def clean_faults_def distinct_delete fst_set_delete)
qed

lemma counted_sweep:
  assumes "counted g" "clean_faults i" "sweep now i g = (live, g')" shows "counted g'"
proof -
  note f = file_at_sweep [OF assms(3)]
  have "pending_file g p \<and> p \<in> fst ` set (rs_pending g')" if "pending_file g' p" for p
  proof -
    have p: "pending_file g p" "file_at g' p \<noteq> None"
      using that f(1) [of p] by (auto simp: pending_file_def split: if_splits)
    then obtain t where "(p, t) \<in> set (rs_pending g)" using assms(1) by (auto simp: counted_def)
    then have "(p, t) \<in> set (rs_pending g')"
      using p f(1) [of p] assms(2) by (auto simp: f(2) clean_faults_def split: if_splits)
    then show ?thesis using p by (metis fst_conv image_eqI)
  qed
  moreover have "length (filter (\<lambda>(p, t). \<not> stale now t) (rs_pending g)) \<le> MaxPendingReservations"
    using assms(1) by (intro le_trans [OF length_filter_le]) (simp add: counted_def)
  ultimately show ?thesis using assms(1) files.swept [OF _ TrueI assms(3)]
    by (auto simp: counted_def f(2) distinct_map_filter)
qed

lemma counted_claimed:
  assumes "counted g" "write_reservation json_size i p (pending_record cid now) g = (None, g')"
    and "fresh \<Longrightarrow> length (rs_pending g) < MaxPendingReservations" and "\<not> fresh \<Longrightarrow> pending_file g p"
  shows "counted (remember p now fresh g')"
proof -
  note w = write_frame [OF assms(2)] pending_file_write [OF assms(2)] sound_write [OF _ kept_pending_record assms(2)]
  have "\<not> fresh \<Longrightarrow> p \<in> fst ` set (rs_pending g)" using assms(1,4) by (auto simp: counted_def)
  then have "length (AList.update p now (rs_pending g)) \<le> MaxPendingReservations"
    using assms(1,3,4) length_update_le [where k = p and v = now and al = "rs_pending g"]
    by (cases fresh) (auto simp: counted_def)
  then show ?thesis using assms(1) w
    by (auto simp: counted_def distinct_update dom_update split: if_splits)
qed

lemma counted_receipted:
  assumes "counted g" "kept_record (settled_as r rc response)"
    and "write_reservation json_size i p (settled_as r rc response) g = (None, g')"
  shows "counted (settled p g')"
proof -
  note w = write_frame [OF assms(3)] pending_file_write [OF assms(3)] sound_write [OF _ assms(2,3)]
  have "length (AList.delete p (rs_pending g)) \<le> MaxPendingReservations"
    using assms(1) length_delete_le [of p "rs_pending g"] by (simp add: counted_def)
  then show ?thesis using assms(1) w
    by (auto simp: counted_def distinct_delete fst_set_delete settled_as_def split: if_splits)
qed

lemma census_rows_effect:
  assumes "census_rows i now rows (n, ps) g = ((n', ps'), g')"
  shows "file_at g' q = (if (\<exists>r. (q, r) \<in> set rows \<and> collectable r now) \<and> q \<notin> set (ri_stuck i)
           then None else file_at g q)"
    and "fst ` set ps' = fst ` set ps \<union>
           {p. \<exists>r. (p, r) \<in> set rows \<and> \<not> collectable r now \<and> rv_State r = reservationPending}"
    and "distinct (map fst ps) \<Longrightarrow> distinct (map fst ps')"
  using assms
proof (induction rows arbitrary: n ps g)
  case (Cons row rows)
  obtain p r where row: "row = (p, r)" by (cases row)
  { case 1 then show ?case using Cons.IH(1) by (auto simp: row file_at_snd_Remove split: if_splits) }
  { case 2
    have split: "{q. \<exists>r'. (q, r') \<in> set (row # rows) \<and> P r'} = (if P r then {p} else {})
        \<union> {q. \<exists>r'. (q, r') \<in> set rows \<and> P r'}" for P
      by (auto simp: row)
    from 2 show ?case unfolding split
      by (simp add: row split: if_splits) (use Cons.IH(2) in \<open>force simp: dom_update\<close>)+ }
  { case 3 then show ?case using Cons.IH(3) [OF distinct_update] Cons.IH(3)
      by (simp add: row split: if_splits) }
qed auto

lemma NewReservationStore_parts:
  obtains i h n ps h' where "census_rows i now (list_reservations i h) (0, []) h = ((n, ps), h')"
    "rs_files h = files" "i = (case tape of [] \<Rightarrow> res_io_ok | i # t \<Rightarrow> i)"
    "rs_pending (NewReservationStore files entropy tape now) = ps"
    "rs_files (NewReservationStore files entropy tape now) = rs_files h'"
    "rs_total (NewReservationStore files entropy tape now) = n"
proof -
  let ?g = "\<lparr>rs_files = files, rs_total = 0, rs_pending = [], rs_inflight = [], rs_chans = 0,
     rs_closed = [], rs_entropy = entropy, rs_tape = tape\<rparr>"
  obtain i h where n: "next_res_io ?g = (i, h)" by force
  obtain m ps h' where c: "census_rows i now (list_reservations i h) (0, []) h = ((m, ps), h')"
    by (metis prod_cases3 surj_pair)
  have i: "i = (case tape of [] \<Rightarrow> res_io_ok | i # t \<Rightarrow> i)" "rs_files h = files"
    using n by (auto simp: next_res_io_def split: list.splits)
  show thesis by (rule that [OF c i(2,1)]) (use n c in \<open>simp_all add: NewReservationStore_def census_def\<close>)
qed

lemma readReservation_kept: "sz \<le> maxReservationBytes \<Longrightarrow> kept_record r
    \<Longrightarrow> readReservation None (Some (Stored r sz)) = Inr r"
  by (auto simp: readReservation_def kept_record_def split: option.splits)

lemma list_reservations_all:
  assumes "sound_files g" "ri_hidden i = []"
  shows "(p, r) \<in> set (list_reservations i g) \<longleftrightarrow> (\<exists>sz. file_at g p = Some (Stored r sz))"
proof
  assume "(p, r) \<in> set (list_reservations i g)"
  then show "\<exists>sz. file_at g p = Some (Stored r sz)"
    using list_reservations_files assms(1) by (auto simp: sound_files_def)
next
  assume "\<exists>sz. file_at g p = Some (Stored r sz)"
  then obtain sz where f: "file_at g p = Some (Stored r sz)" ..
  then have "sz \<le> maxReservationBytes" "kept_record r" using sound_fileD [OF assms(1)] by auto
  note readReservation_kept [OF this]
  moreover have "(p, Stored r sz) \<in> set (rs_files g)" using f by (simp add: file_at_def map_of_SomeD)
  ultimately show "(p, r) \<in> set (list_reservations i g)" using assms(2)
    by (force simp: list_reservations_def List.map_filter_def)
qed

lemma counted_open:
  assumes "counted g" "clean_faults i" shows "counted (NewReservationStore (rs_files g) entropy [i] now)"
proof -
  obtain j h n ps h' where c: "census_rows j now (list_reservations j h) (0, []) h = ((n, ps), h')"
    and h: "rs_files h = rs_files g" and j: "j = i"
    and g': "rs_pending (NewReservationStore (rs_files g) entropy [i] now) = ps"
      "rs_files (NewReservationStore (rs_files g) entropy [i] now) = rs_files h'"
    by (rule NewReservationStore_parts [of now "rs_files g" "[i]" entropy]) simp
  let ?g' = "NewReservationStore (rs_files g) entropy [i] now"
  note e = census_rows_effect [OF c]
  have fh: "file_at h = file_at g" "file_at ?g' = file_at h'"
    using h g'(2) by (simp_all add: file_at_def fun_eq_iff)
  have s: "sound_files h" using assms(1) h sound_same by (auto simp: counted_def)
  have hid: "ri_hidden j = []" "ri_stuck j = []" using assms(2) j by (simp_all add: clean_faults_def)
  note l = list_reservations_all [OF s hid(1), unfolded fh]
  have keys: "fst ` set ps = {p. \<exists>r sz. file_at g p = Some (Stored r sz) \<and> \<not> collectable r now
      \<and> rv_State r = reservationPending}"
    using e(2) by (auto simp: l)
  have "fst ` set ps \<subseteq> Collect (pending_file g)" by (auto simp: keys pending_file_def)
  moreover have d: "distinct (map fst ps)" using e(3) by simp
  ultimately have "length ps \<le> MaxPendingReservations"
    using counted_card [OF assms(1)] card_mono [of "Collect (pending_file g)" "fst ` set ps"]
      distinct_card [OF d] by simp
  moreover have "p \<in> fst ` set ps" if "pending_file ?g' p" for p
    using that e(1) [of p] hid(2) by (auto simp: pending_file_def fh l keys split: if_splits)
  ultimately show ?thesis using sound_open [of g] assms(1) d g'(1) by (auto simp: counted_def)
qed

interpretation pending: reservation_law counted clean_faults
proof
  fix g json_size i p cid now g' fresh
  assume g: "counted g" and w: "write_reservation json_size i p (pending_record cid now) g = (None, g')"
    and fresh: "fresh \<Longrightarrow> length (rs_pending g) < MaxPendingReservations"
    and old: "\<not> fresh \<Longrightarrow> \<exists>r sz. file_at g p = Some (Stored r sz)
                \<and> \<not> (rv_State r = reservationSettled \<and> rv_Response r \<noteq> [])"
  have "pending_file g p" if "\<not> fresh"
  proof -
    from old [OF that] obtain r sz where r: "file_at g p = Some (Stored r sz)" "\<not> (rv_State r = reservationSettled \<and> rv_Response r \<noteq> [])"
      by blast
    moreover have "kept_record r" using g sound_fileD [OF _ r(1)] by (auto simp: counted_def)
    ultimately show ?thesis by (auto simp: pending_file_def kept_record_def)
  qed
  then show "counted (remember p now fresh g')" using counted_claimed [OF g w] fresh by blast
next
  fix g g' assume "counted g" "same_store g g'"
  then show "counted g'" using sound_same
    by (auto simp: counted_def same_store_def pending_file_def file_at_def)
next
  show "clean_faults res_io_ok" by (simp add: clean_faults_def res_io_ok_def)
qed (blast intro: counted_discard counted_sweep counted_receipted counted_open dest: clean_write)+

end
