(* ===== verification/ReservationSteps.thy ===== *)
theory ReservationSteps
  imports ReservationLaw
begin

text \<open>
  The life of a reservation store: requests reserve, holders settle or abandon, a replay settles
  a pending record, the process restarts. Each operation meets whatever the filesystem answers
  (\<open>good\<close> limits it), claims stay usable after they are released, and a restart keeps only
  the files. What the interpretations of \<open>reservation_law\<close> give for one operation holds for
  every history.
\<close>

inductive res_step ::
  "(reservation \<Rightarrow> nat) \<Rightarrow> (string \<Rightarrow> receipt option) \<Rightarrow> (res_io \<Rightarrow> bool)
    \<Rightarrow> res_store \<times> claim list \<Rightarrow> res_store \<times> claim list \<Rightarrow> bool"
  for json_size decode good where
  reserve: "good i \<Longrightarrow> Reserve json_size cid now [] (g\<lparr>rs_tape := [i]\<rparr>) = (res, g') \<Longrightarrow>
     res_step json_size decode good (g, cs) (g', case res of Inr (Claimed c) \<Rightarrow> c # cs | _ \<Rightarrow> cs)"
| settle: "good i \<Longrightarrow> c \<in> set cs \<Longrightarrow> Claim_Settle json_size c rc response (g\<lparr>rs_tape := [i]\<rparr>) = (e, g') \<Longrightarrow>
     res_step json_size decode good (g, cs) (g', cs)"
| abandon: "c \<in> set cs \<Longrightarrow> res_step json_size decode good (g, cs) (Claim_Abandon c g, cs)"
| replay: "good i \<Longrightarrow> SettleFromReplay json_size decode cid response (g\<lparr>rs_tape := [i]\<rparr>) = (e, g') \<Longrightarrow>
     res_step json_size decode good (g, cs) (g', cs)"
| mint: "NewID prefix now g = (x, g') \<Longrightarrow> res_step json_size decode good (g, cs) (g', cs)"
| restart: "good i \<Longrightarrow>
     res_step json_size decode good (g, cs) (NewReservationStore (rs_files g) entropy [i] now, cs)"

inductive_cases res_stepE: "res_step json_size decode good s s'"

lemma publish_claimed:
  "publish_claim json_size i cid k ch now takenOver g = (Inr (Claimed c), g') \<Longrightarrow>
     c = \<lparr>cl_inflight = k, cl_done = ch, cl_path = reservation_path (ci_DeviceID cid) (ci_Key cid),
       cl_record = pending_record cid now, cl_TakenOver = takenOver\<rparr>"
  by (auto simp: publish_claim_def Let_def split: option.splits prod.splits)

lemma publish_not_replay: "publish_claim json_size i cid k ch now takenOver g \<noteq> (Inr (Replay b), g')"
  by (auto simp: publish_claim_def Let_def split: option.splits prod.splits)

lemma publish_claim_cases:
  assumes "publish_claim json_size i cid k ch now takenOver g = (res, g')"
  obtains (failed) e where "res = Inl e"
    "write_reservation json_size i (reservation_path (ci_DeviceID cid) (ci_Key cid)) (pending_record cid now) g = (Some e, g')"
  | (granted) h where "res = Inr (Claimed \<lparr>cl_inflight = k, cl_done = ch,
         cl_path = reservation_path (ci_DeviceID cid) (ci_Key cid),
         cl_record = pending_record cid now, cl_TakenOver = takenOver\<rparr>)"
    "write_reservation json_size i (reservation_path (ci_DeviceID cid) (ci_Key cid)) (pending_record cid now) g = (None, h)"
    "g' = trim i (reservation_path (ci_DeviceID cid) (ci_Key cid))
       (remember (reservation_path (ci_DeviceID cid) (ci_Key cid)) now (\<not> takenOver) h)"
  using assms by (auto simp: publish_claim_def Let_def split: option.splits prod.splits)

text \<open>The ways a request on a free key ends, with the state each leaves.\<close>

lemma reserveOnDisk_cases:
  assumes "reserveOnDisk json_size cid k ch now g = (res, g')"
  obtains (early) e where "res = Inl e" "same_store g g'"
      "ri_ensure (fst (next_res_io g)) \<noteq> None \<or> ri_lock (fst (next_res_io g)) \<noteq> None
        \<or> readReservation (ri_read (fst (next_res_io g))) (file_at g (reservation_path (ci_DeviceID cid) (ci_Key cid))) = Inl e
          \<and> \<not> errors_is e ErrNotExist"
  | (fresh) h where "admit_fresh json_size (fst (next_res_io g)) cid k ch now h = (res, g')" "same_store g h"
      "\<exists>e. readReservation (ri_read (fst (next_res_io g))) (file_at g (reservation_path (ci_DeviceID cid) (ci_Key cid))) = Inl e
         \<and> errors_is e ErrNotExist"
  | (collected) h r where
      "admit_fresh json_size (fst (next_res_io g)) cid k ch now
         (forget (reservation_path (ci_DeviceID cid) (ci_Key cid))
            (snd (os_Remove (fst (next_res_io g)) (reservation_path (ci_DeviceID cid) (ci_Key cid)) h))) = (res, g')"
      "same_store g h" "collectable r now"
      "readReservation (ri_read (fst (next_res_io g))) (file_at g (reservation_path (ci_DeviceID cid) (ci_Key cid))) = Inr r"
  | (kept) r where "same_store g g'" "\<not> collectable r now"
      "readReservation (ri_read (fst (next_res_io g))) (file_at g (reservation_path (ci_DeviceID cid) (ci_Key cid))) = Inr r"
      "res = (if rv_CaptureIdentity r \<noteq> ci_Identity cid then Inl ErrIdempotencyConflict
              else if rv_State r = reservationSettled \<and> rv_Response r \<noteq> [] then Inr (Replay (rv_Response r))
              else Inl ErrCaptureInFlight)"
  | (taken) h r where
      "publish_claim json_size (fst (next_res_io g)) (cid\<lparr>ci_MemoryID := rv_MemoryID r\<rparr>) k ch now True h = (res, g')"
      "same_store g h" "\<not> collectable r now" "rv_CaptureIdentity r = ci_Identity cid"
      "\<not> (rv_State r = reservationSettled \<and> rv_Response r \<noteq> [])" "takeoverDue (rv_ReservedAt r) now"
      "readReservation (ri_read (fst (next_res_io g))) (file_at g (reservation_path (ci_DeviceID cid) (ci_Key cid))) = Inr r"
proof -
  let ?p = "reservation_path (ci_DeviceID cid) (ci_Key cid)"
  obtain i h where n: "next_res_io g = (i, h)" by force
  have sh: "same_store g h" using next_res_io_same [OF n] by simp
  have f: "map_of (rs_files h) ?p = file_at g ?p"
    by (metis same_store_file_at [OF sh] file_at_def)
  show thesis
  proof (cases "ri_ensure i = None \<and> ri_lock i = None")
    case False
    then show ?thesis using assms early sh by (auto simp: reserveOnDisk_def n split: option.splits)
  next
    case ok: True
    show ?thesis
    proof (cases "readReservation (ri_read i) (file_at g ?p)")
      case (Inl e)
      then show ?thesis using assms ok sh early [of e] fresh [of h]
        by (auto simp: reserveOnDisk_def n Let_def f split: if_splits)
    next
      case (Inr r)
      then show ?thesis using assms ok sh collected [of h r] kept [of r] taken [of r h]
        by (auto simp: reserveOnDisk_def n Let_def f split: if_splits)
    qed
  qed
qed

lemma take_hold_split:
  assumes "take_hold json_size cid now g = (res, g')"
  obtains g0 h where "reserveOnDisk json_size cid (inflight_key cid) (rs_chans g) now g0 = (res, h)"
    "same_store g g0" "rs_tape g0 = rs_tape g" "same_store h g'"
proof -
  let ?k = "inflight_key cid" and ?ch = "rs_chans g"
  let ?g0 = "g\<lparr>rs_inflight := AList.update ?k ?ch (rs_inflight g), rs_chans := ?ch + 1\<rparr>"
  obtain x h where d: "reserveOnDisk json_size cid ?k ?ch now ?g0 = (x, h)" by force
  then have "x = res" "g' = h \<or> g' = finish ?k ?ch h"
    using assms by (auto simp: take_hold_def Let_def split: sum.splits reserved.splits)
  then show thesis using that [of ?g0 h] d by (auto simp: same_store_def finish_def)
qed

lemma Reserve_cases:
  assumes "Reserve json_size cid now [] g = (res, g')"
  obtains (invalid) e where "CaptureIdentity_validate cid = Some e" "res = Inl e" "g' = g"
  | (busy) "CaptureIdentity_validate cid = None" "map_of (rs_inflight g) (inflight_key cid) \<noteq> None"
      "res = Inl ErrCaptureInFlight" "g' = g"
  | (held) "CaptureIdentity_validate cid = None" "map_of (rs_inflight g) (inflight_key cid) = None"
      "take_hold json_size cid now g = (res, g')"
proof (cases "CaptureIdentity_validate cid")
  case None
  then have r: "(if map_of (rs_inflight g) (inflight_key cid) = None then take_hold json_size cid now g
      else (Inl ErrCaptureInFlight, g)) = (res, g')"
    using assms by (simp add: Reserve_def)
  show ?thesis
  proof (cases "map_of (rs_inflight g) (inflight_key cid) = None")
    case True
    then show ?thesis using r None by (intro held) simp_all
  next
    case False
    then have "res = Inl ErrCaptureInFlight" "g' = g" using r by (simp_all only: if_False prod.inject)
    then show ?thesis by (intro busy [OF None False])
  qed
next
  case (Some e)
  then have "res = Inl e" "g' = g" using assms by (simp_all add: Reserve_def)
  then show ?thesis by (rule invalid [OF Some])
qed

text \<open>Waiting for a holder is letting the others act, then asking again.\<close>

lemma Reserve_waits:
  "\<exists>n \<le> length waits. Reserve json_size cid now waits g =
     (if CaptureIdentity_validate cid = None
      then Reserve json_size cid now [] (fold (\<lambda>w g. w g) (take n waits) g)
      else Reserve json_size cid now [] g)"
proof (cases "CaptureIdentity_validate cid")
  case None
  have "\<exists>n \<le> length waits. reserve_loop json_size cid now waits g =
     reserve_loop json_size cid now [] (fold (\<lambda>w g. w g) (take n waits) g)"
  proof (induction waits arbitrary: g)
    case (Cons w waits)
    show ?case
    proof (cases "map_of (rs_inflight g) (inflight_key cid)")
      case (Some ch)
      obtain n where "n \<le> length waits" "reserve_loop json_size cid now waits (w g) =
          reserve_loop json_size cid now [] (fold (\<lambda>w g. w g) (take n waits) (w g))"
        using Cons.IH by blast
      then show ?thesis using Some by (intro exI [of _ "Suc n"]) simp
    qed (intro exI [of _ 0], simp)
  qed simp
  then show ?thesis using None by (simp add: Reserve_def)
qed (auto simp: Reserve_def)

lemma admit_claimed:
  assumes "admit_fresh json_size i cid k ch now g = (Inr (Claimed c), g')"
  obtains live h where "sweep now i g = (live, h)" "live < MaxPendingReservations"
    "publish_claim json_size i cid k ch now False h = (Inr (Claimed c), g')"
  using assms by (auto simp: admit_fresh_def split: prod.splits if_splits)

lemma admit_not_replay: "admit_fresh json_size i cid k ch now g \<noteq> (Inr (Replay b), g')"
  by (auto simp: admit_fresh_def publish_not_replay split: prod.splits if_splits)

lemma reserveOnDisk_claimed:
  assumes "reserveOnDisk json_size cid k ch now g = (Inr (Claimed c), g')"
  shows "\<exists>m. cl_record c = pending_record (cid\<lparr>ci_MemoryID := m\<rparr>) now
    \<and> cl_path c = reservation_path (ci_DeviceID cid) (ci_Key cid)"
  using assms
proof (cases rule: reserveOnDisk_cases)
  case (fresh h)
  then show ?thesis by (auto elim!: admit_claimed dest!: publish_claimed intro: exI [of _ "ci_MemoryID cid"])
next
  case (collected h r)
  then show ?thesis by (auto elim!: admit_claimed dest!: publish_claimed intro: exI [of _ "ci_MemoryID cid"])
next
  case (taken h r)
  then show ?thesis by (auto dest!: publish_claimed)
qed (auto split: if_splits)

lemma Reserve_claimed:
  assumes "Reserve json_size cid now [] g = (Inr (Claimed c), g')"
  shows "\<exists>m. cl_record c = pending_record (cid\<lparr>ci_MemoryID := m\<rparr>) now
    \<and> cl_path c = reservation_path (ci_DeviceID cid) (ci_Key cid)"
  using assms by (cases rule: Reserve_cases) (auto elim!: take_hold_split dest: reserveOnDisk_claimed)

definition genuine :: "claim list \<Rightarrow> bool" where
  "genuine cs \<longleftrightarrow> (\<forall>c \<in> set cs. header_validate (cl_record c) schemaCaptureReservation = None)"

lemma genuine_step:
  assumes "res_step json_size decode good (g, cs) (g', cs')" "genuine cs" shows "genuine cs'"
  using assms
proof (cases rule: res_step.cases)
  case (reserve i cid now res)
  then show ?thesis using assms(2) kept_pending_record
    by (auto simp: genuine_def kept_record_def dest!: Reserve_claimed split: sum.splits reserved.splits)
qed auto

context reservation_law begin

lemma step_inv:
  assumes "res_step json_size decode good (g, cs) (g', cs')" "inv g" "genuine cs"
  shows "inv g'"
proof -
  have t: "good i \<Longrightarrow> inv (g\<lparr>rs_tape := [i]\<rparr>) \<and> list_all good (rs_tape (g\<lparr>rs_tape := [i]\<rparr>))" for i
    using assms(2) same [of g "g\<lparr>rs_tape := [i]\<rparr>"] by (simp add: same_store_def)
  show ?thesis using assms(1)
  proof (cases rule: res_step.cases)
    case (reserve i cid now res)
    then show ?thesis using t Reserve_inv by blast
  next
    case (settle i c rc response e)
    then show ?thesis using t Settle_inv [OF _ _ settle(4)] assms(3) by (auto simp: genuine_def)
  next
    case (abandon c)
    then show ?thesis using assms(2) same by (auto simp: Claim_Abandon_def)
  next
    case (replay i cid response e)
    then show ?thesis using t Replay_inv by blast
  next
    case (mint prefix now x)
    then have "same_store g g'" by (auto simp: NewID_def same_store_def split: if_splits)
    then show ?thesis using assms(2) same by blast
  next
    case (restart i entropy now)
    then show ?thesis using assms(2) opened by blast
  qed
qed

lemma reachable_inv:
  assumes "(res_step json_size decode good)\<^sup>*\<^sup>* (g, cs) (g', cs')" "inv g" "genuine cs"
  shows "inv g' \<and> genuine cs'"
  using assms
proof (induction rule: rtranclp_induct2)
  case (step g1 cs1 g2 cs2)
  then show ?case using step_inv genuine_step by blast
qed simp

end
end
