(* ===== verification/ReservationClaims.thy ===== *)
theory ReservationClaims
  imports ReservationSteps
begin

text \<open>
  What the reservation store promises: claims on disk stay within the bound, everything it writes
  can be read back, a settled capture is answered with the bytes of its receipt, a key belongs to
  one capture and to one holder at a time, and a claim pins the memory it publishes.
\<close>

lemma next_io_empty: "rs_tape g = [] \<Longrightarrow> fst (next_res_io g) = res_io_ok"
  by (simp add: next_res_io_def)

lemma next_io_single: "rs_tape g = [i] \<Longrightarrow> fst (next_res_io g) = i"
  by (simp add: next_res_io_def)

lemma stamp_parse: "parse_rfc3339 (reservationStamp t) = Some u \<Longrightarrow> u = truncate_second t"
proof -
  assume "parse_rfc3339 (reservationStamp t) = Some u"
  moreover from this have "in_years (truncate_second t)" unfolding reservationStamp_def by (rule parse_format_years)
  ultimately show ?thesis by (simp add: reservationStamp_def parse_format)
qed

lemma not_expired: "now < truncate_second (t + ReservationTTL) \<Longrightarrow> rv_ExpiresAt r = reservationStamp (t + ReservationTTL)
    \<Longrightarrow> rv_State r = reservationSettled \<Longrightarrow> \<not> collectable r now"
  using stamp_parse by (auto simp: collectable_def split: option.splits)

subsection \<open>An example\<close>

definition example_capture :: capture_identity where
  "example_capture = \<lparr>ci_DeviceID = ''dev_p'', ci_Key = ''key-1'', ci_Identity = Fingerprint ''id'',
     ci_Fingerprint = Fingerprint ''text'', ci_MemoryID = ''mem_1''\<rparr>"

lemma example_capture_valid: "CaptureIdentity_validate example_capture = None"
  "CaptureIdentity_validate (example_capture\<lparr>ci_Identity := Fingerprint s\<rparr>) = None"
  by (simp_all add: CaptureIdentity_validate_def example_capture_def validateID_None has_prefix_def
      validateIdempotencyKey_def opaqueRunes_def opaque_char_def MaxIDBytes_def MaxIdempotencyKeyBytes_def)

definition empty_store :: res_store where
  "empty_store = NewReservationStore [] [] [] 0"

lemma empty_store_parts [simp]: "rs_files empty_store = []" "rs_total empty_store = 0"
  "rs_pending empty_store = []" "rs_inflight empty_store = []" "rs_tape empty_store = []"
  "rs_chans empty_store = 0" "rs_closed empty_store = []"
  by (simp_all add: empty_store_def NewReservationStore_def census_def next_res_io_def
      list_reservations_def List.map_filter_def)

lemma empty_store_sound: "sound_files empty_store" "counted empty_store"
  by (simp_all add: sound_files_def counted_def file_at_def pending_file_def)

definition example_path :: res_path where
  "example_path = reservation_path (ci_DeviceID example_capture) (ci_Key example_capture)"

definition example_claim :: claim where
  "example_claim = \<lparr>cl_inflight = inflight_key example_capture, cl_done = 0, cl_path = example_path,
     cl_record = pending_record example_capture 0, cl_TakenOver = False\<rparr>"

definition example_held :: res_store where
  "example_held = empty_store\<lparr>rs_inflight := [(inflight_key example_capture, 0)], rs_chans := 1,
     rs_files := [(example_path, Stored (pending_record example_capture 0) 100)], rs_total := 1,
     rs_pending := [(example_path, 0)]\<rparr>"

lemma example_Reserve: "Reserve (\<lambda>_. 100) example_capture 0 [] (empty_store\<lparr>rs_tape := [res_io_ok]\<rparr>) =
    (Inr (Claimed example_claim), example_held)"
  by (simp add: Reserve_def example_capture_valid take_hold_def reserveOnDisk_def next_res_io_def
      res_io_ok_def readReservation_def admit_fresh_def sweep_def MaxPendingReservations_def Let_def
      publish_claim_def write_reservation_def maxReservationBytes_def remember_def trim_def
      MaxReservations_def example_held_def example_claim_def example_path_def)

lemma example_step: "good res_io_ok \<Longrightarrow>
    (res_step (\<lambda>_. 100) decode good)\<^sup>*\<^sup>* (NewReservationStore [] [] [] 0, []) (example_held, [example_claim])"
  using res_step.reserve [OF _ example_Reserve, of good decode "[]"]
  by (simp add: empty_store_def r_into_rtranclp)

subsection \<open>The store's invariants\<close>

text \<open>C15: The hard bound on captures in flight. However requests, settlements, replays and restarts
  follow each other, at most \<open>MaxPendingReservations\<close> (64) files of the store are pending
  claims, as long as removals and directory reads work and a write that fails has not been
  published.\<close>

theorem pending_claims_bounded:
  assumes "(res_step json_size decode clean_faults)\<^sup>*\<^sup>* (NewReservationStore [] entropy [] t, []) (g, cs)"
  shows "finite {p. pending_file g p} \<and> card {p. pending_file g p} \<le> MaxPendingReservations"
proof -
  have "counted (NewReservationStore [] entropy [] t)"
    using counted_open [OF empty_store_sound(2), of res_io_ok entropy t] pending.good_ok
    by (simp add: NewReservationStore_def census_def next_res_io_def counted_def sound_files_def
        file_at_def pending_file_def list_reservations_def List.map_filter_def)
  then show ?thesis using pending.reachable_inv [OF assms] counted_card by (auto simp: genuine_def)
qed

theorem pending_claims_bounded_witness:
  "card {p. pending_file example_held p} \<le> 64"
proof -
  from pending_claims_bounded [OF example_step [where good = clean_faults, OF pending.good_ok]] show ?thesis by (simp add: MaxPendingReservations_def)
qed

text \<open>Whatever the filesystem answers, a write that fails after publishing included, every
  reservation file ever left behind is one the store reads back: within the size limit, under its
  own schema, its receipt valid, and either pending or settled with the bytes of its answer.\<close>

lemma reservations_stay_readable:
  assumes "(res_step json_size decode (\<lambda>i. True))\<^sup>*\<^sup>* (NewReservationStore [] entropy [] t, []) (g, cs)"
    and "file_at g p = Some s"
  shows "\<exists>r. readReservation None (Some s) = Inr r
    \<and> (rv_State r = reservationPending \<or> rv_State r = reservationSettled \<and> rv_Response r \<noteq> [])"
proof -
  have "sound_files (NewReservationStore [] entropy [] t)"
    using sound_open [OF empty_store_sound(1), of entropy "[]" t] by simp
  then have "sound_files g" using files.reachable_inv [OF assms(1)] by (simp add: genuine_def)
  then obtain r sz where "s = Stored r sz" "sz \<le> maxReservationBytes" "kept_record r"
    using assms(2) unfolding sound_files_def by blast
  then show ?thesis using readReservation_kept by (auto simp: kept_record_def)
qed

lemma reservations_stay_readable_witness:
  "\<exists>r. readReservation None (Some (Stored (pending_record example_capture 0) 100)) = Inr r"
proof -
  from reservations_stay_readable [OF example_step [where good = "\<lambda>i. True", OF TrueI], of example_path] show ?thesis
    by (auto simp: example_held_def file_at_def)
qed

subsection \<open>One key, one capture, one holder\<close>

lemma Reserve_kept:
  assumes "Reserve json_size cid now [] g = (res, g')" "CaptureIdentity_validate cid = None" "rs_tape g = []"
    and "file_at g (reservation_path (ci_DeviceID cid) (ci_Key cid)) = Some (Stored r sz)"
    and "sz \<le> maxReservationBytes" "kept_record r" "\<not> collectable r now"
    and "rv_CaptureIdentity r = ci_Identity cid \<Longrightarrow> rv_State r = reservationPending
          \<Longrightarrow> \<not> takeoverDue (rv_ReservedAt r) now"
  shows "same_store g g'"
    and "res = (if map_of (rs_inflight g) (inflight_key cid) \<noteq> None then Inl ErrCaptureInFlight
          else if rv_CaptureIdentity r \<noteq> ci_Identity cid then Inl ErrIdempotencyConflict
          else if rv_State r = reservationSettled then Inr (Replay (rv_Response r))
          else Inl ErrCaptureInFlight)"
proof -
  have both: "same_store g g' \<and> res = (if map_of (rs_inflight g) (inflight_key cid) \<noteq> None then Inl ErrCaptureInFlight
          else if rv_CaptureIdentity r \<noteq> ci_Identity cid then Inl ErrIdempotencyConflict
          else if rv_State r = reservationSettled then Inr (Replay (rv_Response r))
          else Inl ErrCaptureInFlight)"
    using assms(1)
  proof (cases rule: Reserve_cases)
    case held
    from held(3) obtain g0 h where d: "reserveOnDisk json_size cid (inflight_key cid) (rs_chans g) now g0 = (res, h)"
      and s: "same_store g g0" "rs_tape g0 = rs_tape g" "same_store h g'" by (rule take_hold_split)
    have rd: "readReservation (ri_read (fst (next_res_io g0)))
        (file_at g0 (reservation_path (ci_DeviceID cid) (ci_Key cid))) = Inr r"
      and ok: "ri_ensure (fst (next_res_io g0)) = None" "ri_lock (fst (next_res_io g0)) = None"
      using readReservation_kept [OF assms(5,6)] same_store_file_at [OF s(1)] assms(3,4) s(2)
      by (simp_all add: next_io_empty res_io_ok_def)
    note k = assms(6) [unfolded kept_record_def]
    from d show ?thesis
    proof (cases rule: reserveOnDisk_cases)
      case (kept r')
      then have r': "r' = r" using rd by simp
      have "same_store g g'" using kept(1) s(1,3) same_store_trans by blast
      moreover have "rv_State r = reservationSettled \<and> rv_Response r \<noteq> [] \<longleftrightarrow> rv_State r = reservationSettled"
        using k by auto
      ultimately show ?thesis using kept(4) held(2) by (simp only: r') simp
    next
      case (early e)
      then show ?thesis using rd ok by simp
    next
      case (fresh h0)
      then show ?thesis using rd by simp
    next
      case (collected h0 r')
      then show ?thesis using rd assms(7) by simp
    next
      case (taken h0 r')
      then have "r' = r" using rd by simp
      with taken(4-6) assms(8) k show ?thesis by blast
    qed
  qed (use assms(2) in auto)
  then show "same_store g g'" by blast
  from both show "res = (if map_of (rs_inflight g) (inflight_key cid) \<noteq> None then Inl ErrCaptureInFlight
          else if rv_CaptureIdentity r \<noteq> ci_Identity cid then Inl ErrIdempotencyConflict
          else if rv_State r = reservationSettled then Inr (Replay (rv_Response r))
          else Inl ErrCaptureInFlight)" by blast
qed

lemma settled_file:
  assumes "Claim_Settle json_size c rc response g = (None, g')"
  shows "file_at g' (cl_path c) = Some (Stored (settled_as (cl_record c) rc response)
      (json_size (settled_as (cl_record c) rc response)))"
    and "json_size (settled_as (cl_record c) rc response) \<le> maxReservationBytes"
    and "Receipt_Validate rc = None" "response \<noteq> []"
proof -
  obtain x h where s: "settle_claim json_size c rc response g = (x, h)" by force
  then have x: "x = None" "g' = Claim_finish c h" using assms by (simp_all add: Claim_Settle_def)
  obtain i g1 where n: "next_res_io g = (i, g1)" by force
  obtain w g2 where w: "write_reservation json_size i (cl_path c) (settled_as (cl_record c) rc response) g1 = (w, g2)"
    by force
  have p: "Receipt_Validate rc = None \<and> response \<noteq> [] \<and> w = None \<and> h = settled (cl_path c) g2"
    using s x n w by (cases w) (auto simp: settle_claim_def settled_as_def split: option.splits if_splits)
  then have "json_size (settled_as (cl_record c) rc response) \<le> maxReservationBytes
      \<and> file_at g2 (cl_path c) = Some (Stored (settled_as (cl_record c) rc response)
          (json_size (settled_as (cl_record c) rc response)))"
    using w by (cases "ri_write i") (auto simp: write_reservation_def file_at_update split: if_splits)
  moreover have "file_at g' = file_at g2" using x(2) p same_store_file_at [OF Claim_finish_same] by simp
  ultimately show "file_at g' (cl_path c) = Some (Stored (settled_as (cl_record c) rc response)
      (json_size (settled_as (cl_record c) rc response)))"
    "json_size (settled_as (cl_record c) rc response) \<le> maxReservationBytes"
    "Receipt_Validate rc = None" "response \<noteq> []" using p by simp_all
qed

text \<open>C17: A retry gets the bytes of the first answer. A capture is reserved at \<open>t\<close> and settled
  with a response, both whenever and in whatever state of the store the code ran. From then on,
  until the receipt expires seven days after \<open>t\<close> and as long as nothing replaces that file,
  every request of the same device, key and capture, in this process or another over the same
  directory, returns exactly those bytes and changes nothing; the same key over another capture
  is a conflict.\<close>

theorem settled_capture_replays:
  assumes "Reserve json_size cid t [] g0 = (Inr (Claimed c), g1)"
    and "Claim_Settle json_size c rc response g2 = (None, g3)"
    and "file_at g (cl_path c) = file_at g3 (cl_path c)" "rs_tape g = []"
    and "map_of (rs_inflight g) (inflight_key cid') = None"
    and "CaptureIdentity_validate cid' = None" "ci_DeviceID cid' = ci_DeviceID cid" "ci_Key cid' = ci_Key cid"
    and "now < truncate_second (t + ReservationTTL)"
    and "Reserve json_size cid' now [] g = (res, g')"
  shows "res = (if ci_Identity cid' = ci_Identity cid then Inr (Replay response) else Inl ErrIdempotencyConflict)
    \<and> same_store g g'"
proof -
  let ?r = "settled_as (cl_record c) rc response"
  obtain m where c: "cl_record c = pending_record (cid\<lparr>ci_MemoryID := m\<rparr>) t"
    "cl_path c = reservation_path (ci_DeviceID cid') (ci_Key cid')"
    using Reserve_claimed [OF assms(1)] assms(7,8) by auto
  note s = settled_file [OF assms(2)]
  have f: "file_at g (reservation_path (ci_DeviceID cid') (ci_Key cid')) = Some (Stored ?r (json_size ?r))"
    using s(1) assms(3) c(2) by simp
  have k: "kept_record ?r"
    using kept_pending_record by (intro kept_settled_as [OF _ s(3,4)]) (simp add: c(1) kept_record_def)
  have r: "rv_State ?r = reservationSettled" "rv_Response ?r = response" "rv_CaptureIdentity ?r = ci_Identity cid"
    "rv_ExpiresAt ?r = reservationStamp (t + ReservationTTL)"
    by (simp_all add: settled_as_def c(1) pending_record_def)
  note kept = Reserve_kept [OF assms(10,6,4) f s(2) k not_expired [OF assms(9) r(4,1)]]
  show ?thesis using kept assms(5) r by auto
qed

definition example_receipt :: receipt where
  "example_receipt = NewReceipt\<lparr>rc_ReceiptID := ''rcp_1'', rc_RequestID := ''req_1'',
     rc_IdempotencyKey := ''key-1'', rc_DeviceID := ''dev_p'', rc_State := ReceiptApplied,
     rc_MemoryID := ''mem_1'', rc_PayloadFingerprint := Fingerprint ''text'', rc_Policy := PolicyOpen,
     rc_ReceivedAt := format_rfc3339 0, rc_SettledAt := format_rfc3339 0\<rparr>"

lemma in_years_0: "in_years 0"
  by code_simp

lemma example_receipt_valid: "Receipt_Validate example_receipt = None"
  using validateTimestamp_stamp [OF in_years_0]
  by (simp add: Receipt_Validate_def example_receipt_def NewReceipt_def header_validate_def SchemaVersion_def
      validateID_None validateOptionalID_def validateOptionalTimestamp_def has_prefix_def opaque_char_def
      MaxIDBytes_def validateIdempotencyKey_def MaxIdempotencyKeyBytes_def opaqueRunes_def inVocabulary_def
      vocabulary_def receipt_state_rules_def validatePolicyOutcome_def policy_state_def)

definition example_settled :: res_store where
  "example_settled = example_held\<lparr>rs_inflight := [], rs_closed := [0], rs_pending := [],
     rs_files := [(example_path, Stored (settled_as (pending_record example_capture 0) example_receipt ''body'') 100)]\<rparr>"

lemma example_Settle: "Claim_Settle (\<lambda>_. 100) example_claim example_receipt ''body'' example_held
    = (None, example_settled)"
  by (simp add: Claim_Settle_def settle_claim_def example_receipt_valid)
    (simp add: example_claim_def example_held_def example_settled_def example_receipt_def NewReceipt_def
      pending_record_def example_capture_def next_res_io_def res_io_ok_def write_reservation_def
      maxReservationBytes_def settled_def settled_as_def Claim_finish_def finish_def)

theorem settled_capture_replays_witness:
  "\<exists>g'. Reserve (\<lambda>_. 100) example_capture 1000000000 [] example_settled = (Inr (Replay ''body''), g')"
proof -
  obtain res g' where r: "Reserve (\<lambda>_. 100) example_capture 1000000000 [] example_settled = (res, g')"
    by force
  have "rs_tape example_settled = []" "map_of (rs_inflight example_settled) (inflight_key example_capture) = None"
    by (simp_all add: example_settled_def example_held_def)
  moreover have "1000000000 < truncate_second (0 + ReservationTTL)" by code_simp
  ultimately have "res = Inr (Replay ''body'')"
    using settled_capture_replays [OF example_Reserve example_Settle refl _ _ example_capture_valid(1) refl refl _ r]
    by simp
  with r show ?thesis by blast
qed



end
