(* ===== verification/ReservationDisk.thy ===== *)
theory ReservationDisk
  imports ReservationClaims
begin

text \<open>
  What a request does to the files: the claim it is granted, the files it may remove, and the two
  ways the store departs from what its comments say.
\<close>

lemma write_effect:
  assumes "write_reservation json_size i p r g = (None, g')"
  shows "file_at g' q = (if q = p then Some (Stored r (json_size r)) else file_at g q)"
    and "json_size r \<le> maxReservationBytes"
  using assms by (cases "ri_write i"; auto simp: write_reservation_def file_at_update split: if_splits)+

lemma distinct_steps:
  "distinct (map fst (rs_files g)) \<Longrightarrow> distinct (map fst (rs_files (snd (os_Remove i p g))))"
  "write_reservation json_size i p r g = (e, g') \<Longrightarrow> distinct (map fst (rs_files g)) \<Longrightarrow> distinct (map fst (rs_files g'))"
  by (auto simp: os_Remove_def write_reservation_def distinct_delete distinct_update split: if_splits)

lemma files_census [simp]: "rs_files (remember p now fresh g) = rs_files g"
  "rs_files (forget p g) = rs_files g" "rs_files (settled p g) = rs_files g"
  by (simp_all add: remember_def forget_def settled_def)

lemma distinct_sweep: "sweep now i g = (live, g') \<Longrightarrow> distinct (map fst (rs_files g)) \<Longrightarrow> distinct (map fst (rs_files g'))"
proof -
  have "distinct (map fst (rs_files (fold (\<lambda>p g. snd (os_Remove i p g)) ps g)))"
    if "distinct (map fst (rs_files g))" for ps g
    using that by (induction ps arbitrary: g) (simp_all add: distinct_steps(1))
  then show "sweep now i g = (live, g') \<Longrightarrow> distinct (map fst (rs_files g)) \<Longrightarrow> distinct (map fst (rs_files g'))"
    by (auto simp: sweep_def Let_def)
qed

text \<open>Files other than the claimed one: what a request may remove.\<close>

definition removable :: "res_store \<Rightarrow> instant \<Rightarrow> res_path \<Rightarrow> bool" where
  "removable g now p \<longleftrightarrow> (\<exists>t. (p, t) \<in> set (rs_pending g) \<and> stale now t)
     \<or> (\<exists>r sz. file_at g p = Some (Stored r sz) \<and> rv_State r = reservationSettled)"

lemma publish_spares:
  assumes "publish_claim json_size i cid k ch now takenOver g = (res, g')"
    and "p \<noteq> reservation_path (ci_DeviceID cid) (ci_Key cid)" "distinct (map fst (rs_files g))"
  shows "file_at g' p = file_at g p \<or> file_at g' p = None
    \<and> (\<exists>r sz. file_at g p = Some (Stored r sz) \<and> rv_State r = reservationSettled)"
  using assms(1)
proof (cases rule: publish_claim_cases)
  case (failed e)
  then show ?thesis using assms(2) by (auto simp: write_reservation_def file_at_update split: if_splits)
next
  case (granted h)
  let ?p = "reservation_path (ci_DeviceID cid) (ci_Key cid)"
  have "distinct (map fst (rs_files (remember ?p now (\<not> takenOver) h)))"
    using distinct_steps(2) [OF granted(2) assms(3)] by simp
  from file_at_trim [OF this, of i ?p p] show ?thesis
    using write_effect(1) [OF granted(2), of p] assms(2) granted(3) by auto
qed

lemma admit_spares:
  assumes "admit_fresh json_size i cid k ch now g = (res, g')"
    and "p \<noteq> reservation_path (ci_DeviceID cid) (ci_Key cid)" "distinct (map fst (rs_files g))"
  shows "file_at g' p = file_at g p \<or> file_at g' p = None \<and> removable g now p"
proof -
  obtain live h where s: "sweep now i g = (live, h)" by force
  have h: "file_at h p = file_at g p \<or> file_at h p = None \<and> (\<exists>t. (p, t) \<in> set (rs_pending g) \<and> stale now t)"
    using file_at_sweep(1) [OF s, of p] by (auto split: if_splits)
  show ?thesis
  proof (cases "MaxPendingReservations \<le> live")
    case True
    then show ?thesis using assms(1) s h by (auto simp: admit_fresh_def removable_def)
  next
    case False
    then have "publish_claim json_size i cid k ch now False h = (res, g')"
      using assms(1) s by (simp add: admit_fresh_def)
    from publish_spares [OF this assms(2) distinct_sweep [OF s assms(3)]] h
    show ?thesis by (auto simp: removable_def)
  qed
qed



lemma publish_granted:
  assumes "publish_claim json_size i cid k ch now takenOver g = (Inr (Claimed c), g')" "distinct (map fst (rs_files g))"
  shows "c = \<lparr>cl_inflight = k, cl_done = ch, cl_path = reservation_path (ci_DeviceID cid) (ci_Key cid),
        cl_record = pending_record cid now, cl_TakenOver = takenOver\<rparr>"
    and "file_at g' (cl_path c) = Some (Stored (cl_record c) (json_size (cl_record c)))
      \<and> json_size (cl_record c) \<le> maxReservationBytes"
proof -
  let ?p = "reservation_path (ci_DeviceID cid) (ci_Key cid)"
  note c = publish_claimed [OF assms(1)]
  show "c = \<lparr>cl_inflight = k, cl_done = ch, cl_path = ?p, cl_record = pending_record cid now, cl_TakenOver = takenOver\<rparr>"
    by (rule c)
  from assms(1) show "file_at g' (cl_path c) = Some (Stored (cl_record c) (json_size (cl_record c)))
      \<and> json_size (cl_record c) \<le> maxReservationBytes"
  proof (cases rule: publish_claim_cases)
    case (granted h)
    have "distinct (map fst (rs_files (remember ?p now (\<not> takenOver) h)))"
      using distinct_steps(2) [OF granted(2) assms(2)] by simp
    from file_at_trim [OF this, of i ?p ?p] show ?thesis
      using granted(3) write_effect [OF granted(2)] by (simp add: c)
  qed simp
qed

lemma files_admit_granted:
  assumes "admit_fresh json_size i cid k ch now g = (Inr (Claimed c), g')" "distinct (map fst (rs_files g))"
  shows "c = \<lparr>cl_inflight = k, cl_done = ch, cl_path = reservation_path (ci_DeviceID cid) (ci_Key cid),
        cl_record = pending_record cid now, cl_TakenOver = False\<rparr>"
    and "file_at g' (cl_path c) = Some (Stored (cl_record c) (json_size (cl_record c)))
      \<and> json_size (cl_record c) \<le> maxReservationBytes"
proof -
  from assms(1) obtain live h where w: "sweep now i g = (live, h)"
    and p: "publish_claim json_size i cid k ch now False h = (Inr (Claimed c), g')"
    by (rule admit_claimed)
  note q = publish_granted [OF p distinct_sweep [OF w assms(2)]]
  show "c = \<lparr>cl_inflight = k, cl_done = ch, cl_path = reservation_path (ci_DeviceID cid) (ci_Key cid),
        cl_record = pending_record cid now, cl_TakenOver = False\<rparr>" by (rule q(1))
  show "file_at g' (cl_path c) = Some (Stored (cl_record c) (json_size (cl_record c)))
      \<and> json_size (cl_record c) \<le> maxReservationBytes" by (rule q(2))
qed

lemma claim_identity: "cl_record c = pending_record cid now \<Longrightarrow> Claim_Identity c = cid"
  by (simp add: Claim_Identity_def pending_record_def)

text \<open>What a claim stands for. Whoever is granted a claim finds its record on disk, pending,
  under the path of its device and key: the request it made, stamped with the time it made it. A
  fresh claim carries the vault id of the request. A claim taken over keeps the vault id the
  crashed attempt pinned, and it is only taken over from a record of the same capture, not settled
  with an answer, that was reserved a takeover window ago or has no readable stamp.\<close>

lemma claims_pin_the_memory:
  assumes "distinct (map fst (rs_files g))" "rs_tape g = [i]"
    and "Reserve json_size cid now [] g = (Inr (Claimed c), g')"
  shows "\<exists>m. Claim_Identity c = cid\<lparr>ci_MemoryID := m\<rparr> \<and> cl_record c = pending_record (cid\<lparr>ci_MemoryID := m\<rparr>) now
    \<and> cl_path c = reservation_path (ci_DeviceID cid) (ci_Key cid)
    \<and> file_at g' (cl_path c) = Some (Stored (cl_record c) (json_size (cl_record c)))
    \<and> json_size (cl_record c) \<le> maxReservationBytes
    \<and> (if cl_TakenOver c then \<exists>r sz. file_at g (cl_path c) = Some (Stored r sz) \<and> m = rv_MemoryID r
          \<and> rv_CaptureIdentity r = ci_Identity cid
          \<and> \<not> (rv_State r = reservationSettled \<and> rv_Response r \<noteq> []) \<and> takeoverDue (rv_ReservedAt r) now
       else m = ci_MemoryID cid)"
  using assms(3)
proof (cases rule: Reserve_cases)
  case held
  from held(3) obtain g0 h where d: "reserveOnDisk json_size cid (inflight_key cid) (rs_chans g) now g0 = (Inr (Claimed c), h)"
    and s: "same_store g g0" "rs_tape g0 = rs_tape g" "same_store h g'" by (rule take_hold_split)
  have dist: "distinct (map fst (rs_files h0))" if "same_store g0 h0" for h0
    using same_store_trans [OF s(1) that] assms(1) by (simp add: same_store_def)
  note f = same_store_file_at [OF s(3)] same_store_file_at [OF s(1)]
  have fresh_claim: ?thesis if "admit_fresh json_size j cid (inflight_key cid) (rs_chans g) now h0 = (Inr (Claimed c), h)"
      "distinct (map fst (rs_files h0))" for j h0
    using files_admit_granted [OF that] claim_identity [of c cid now] f(1)
    by (intro exI [of _ "ci_MemoryID cid"]) simp
  from d show ?thesis
  proof (cases rule: reserveOnDisk_cases)
    case (fresh h0)
    from fresh_claim [OF this(1) dist [OF this(2)]] show ?thesis .
  next
    case (collected h0 r)
    from fresh_claim [OF this(1)] distinct_steps(1) [OF dist [OF this(2)]] show ?thesis by simp
  next
    case (taken h0 r)
    note q = publish_granted [OF taken(1) dist [OF taken(2)]]
    obtain sz where "file_at g (reservation_path (ci_DeviceID cid) (ci_Key cid)) = Some (Stored r sz)"
      using readReservation_Inr [OF taken(7)] f(2) by auto
    then show ?thesis using q taken(4-6) claim_identity [of c "cid\<lparr>ci_MemoryID := rv_MemoryID r\<rparr>"] f(1)
      by (intro exI [of _ "rv_MemoryID r"]) auto
  next
    case (kept r)
    then show ?thesis by (simp split: if_splits)
  qed simp
qed auto

lemma claims_pin_the_memory_witness:
  "\<exists>m. Claim_Identity example_claim = example_capture\<lparr>ci_MemoryID := m\<rparr>
     \<and> file_at example_held example_path = Some (Stored (cl_record example_claim) 100)"
proof -
  have "distinct (map fst (rs_files (empty_store\<lparr>rs_tape := [res_io_ok]\<rparr>)))"
    "rs_tape (empty_store\<lparr>rs_tape := [res_io_ok]\<rparr>) = [res_io_ok]" "cl_path example_claim = example_path"
    by (simp_all add: example_claim_def)
  from claims_pin_the_memory [OF this(1,2) example_Reserve] this(3) show ?thesis by auto
qed

subsection \<open>Two departures from the comments\<close>

text \<open>A released claim still settles, over anything. \<open>Settle\<close> checks neither that the claim
  is still held, although \<open>ErrNoClaim\<close> is declared for that, nor what the file holds: a holder
  that abandoned its claim, or lost it to a takeover by another process that has settled since,
  settles without an error, and its own answer replaces whatever the file held, a settled
  receipt included.\<close>

lemma released_claim_overwrites:
  assumes "cl_done c \<in> set (rs_closed g)" "rs_tape g = []"
    and "file_at g (cl_path c) = Some (Stored (settled_as r other earlier) sz)"
    and "Receipt_Validate rc = None" "answer \<noteq> []"
    and "rc_IdempotencyKey rc = rv_IdempotencyKey (cl_record c)" "rc_DeviceID rc = rv_DeviceID (cl_record c)"
    and "rc_PayloadFingerprint rc = rv_PayloadFingerprint (cl_record c)"
    and "json_size (settled_as (cl_record c) rc answer) \<le> maxReservationBytes"
  shows "\<exists>g'. Claim_Settle json_size c rc answer g = (None, g')
    \<and> file_at g' (cl_path c) = Some (Stored (settled_as (cl_record c) rc answer)
         (json_size (settled_as (cl_record c) rc answer)))"
proof -
  have "fst (Claim_Settle json_size c rc answer g) = None"
    using assms by (simp add: Claim_Settle_def settle_claim_def next_res_io_def res_io_ok_def
        write_reservation_def settled_as_def split: prod.splits)
  then obtain g' where "Claim_Settle json_size c rc answer g = (None, g')" by (metis prod.collapse)
  with settled_file(1) [OF this] show ?thesis by blast
qed

lemma released_claim_overwrites_witness:
  "\<exists>g'. Claim_Settle (\<lambda>_. 100) example_claim example_receipt ''again'' example_settled = (None, g')
     \<and> file_at g' example_path
       = Some (Stored (settled_as (pending_record example_capture 0) example_receipt ''again'') 100)"
  using released_claim_overwrites [where c = example_claim and g = example_settled and rc = example_receipt
      and answer = "''again''" and json_size = "\<lambda>_. 100", OF _ _ _ example_receipt_valid]
  by (simp add: example_claim_def example_settled_def example_held_def file_at_def example_receipt_def
      NewReceipt_def pending_record_def example_capture_def maxReservationBytes_def)

text \<open>A write that fails after publishing escapes the census. When the reservation file is
  renamed into place and the sync after it fails, \<open>Reserve\<close> reports the error, yet the pending
  claim is on disk, and neither the pending set nor the total counts it: the bound on captures in
  flight, which is answered from the census, does not see the file.\<close>

lemma late_write_escapes_census:
  assumes "CaptureIdentity_validate cid = None" "map_of (rs_inflight g) (inflight_key cid) = None"
    and "p = reservation_path (ci_DeviceID cid) (ci_Key cid)" "file_at g p = None"
    and "p \<notin> fst ` set (rs_pending g)" "length (rs_pending g) < MaxPendingReservations"
    and "json_size (pending_record cid now) \<le> maxReservationBytes"
    and "Reserve json_size cid now [] (g\<lparr>rs_tape := [res_io_ok\<lparr>ri_write := WrittenThen e\<rparr>]\<rparr>) = (res, g')"
  shows "res = Inl e \<and> pending_file g' p \<and> p \<notin> fst ` set (rs_pending g') \<and> rs_total g' \<le> rs_total g"
proof -
  let ?i = "res_io_ok\<lparr>ri_write := WrittenThen e\<rparr>"
  let ?g = "g\<lparr>rs_inflight := AList.update (inflight_key cid) (rs_chans g) (rs_inflight g),
      rs_chans := rs_chans g + 1, rs_tape := []\<rparr>"
  obtain live h where w: "sweep now ?i ?g = (live, h)" by force
  have live: "live < MaxPendingReservations" "p \<notin> fst ` set (rs_pending h)"
    using file_at_sweep(2,3) [OF w] assms(5,6) by (auto intro: le_less_trans [OF length_filter_le])
  have tot: "rs_total h \<le> rs_total g" using w by (auto simp: sweep_def Let_def fold_Remove)
  have a: "admit_fresh json_size ?i cid (inflight_key cid) (rs_chans g) now ?g =
      (Inl e, h\<lparr>rs_files := AList.update p (Stored (pending_record cid now) (json_size (pending_record cid now))) (rs_files h)\<rparr>)"
    using w live(1) assms(3,7) by (simp add: admit_fresh_def publish_claim_def Let_def write_reservation_def)
  have "take_hold json_size cid now (g\<lparr>rs_tape := [?i]\<rparr>) = (res, g')"
    using assms(8,1,2) by (simp add: Reserve_def)
  then have "res = Inl e \<and> g' = finish (inflight_key cid) (rs_chans g)
      (h\<lparr>rs_files := AList.update p (Stored (pending_record cid now) (json_size (pending_record cid now))) (rs_files h)\<rparr>)"
    using a assms(3,4) by (simp add: take_hold_def Let_def reserveOnDisk_def next_res_io_def res_io_ok_def
        readReservation_def file_at_def)
  then show ?thesis using live(2) tot same_store_file_at [OF finish_same]
    by (simp add: pending_file_def file_at_update pending_record_def) (simp add: finish_def)
qed

lemma late_write_escapes_census_witness:
  "\<exists>g'. pending_file g' example_path \<and> example_path \<notin> fst ` set (rs_pending g')"
proof -
  obtain res g' where r: "Reserve (\<lambda>_. 100) example_capture 0 []
      (empty_store\<lparr>rs_tape := [res_io_ok\<lparr>ri_write := WrittenThen (OtherError ''sync'')\<rparr>]\<rparr>) = (res, g')" by force
  from late_write_escapes_census [OF example_capture_valid(1) _ example_path_def _ _ _ _ r] show ?thesis
    by (auto simp: file_at_def MaxPendingReservations_def maxReservationBytes_def)
qed

end
