(* ===== verification/CaptureClaims.thy ===== *)
theory CaptureClaims
  imports ServerClaims ReservationDisk
begin

text \<open>
  What governed capture promises: who may publish and what, that a retry gets the bytes of the
  first answer, and what a refusal says. To state the first, the seams are instrumented: the
  shared state carries a log of the publications the kernel was asked for.
\<close>

subsection \<open>The publication log\<close>

type_synonym 's publication = "'s \<times> capture \<times> capture_identity"

definition beside :: "('s \<Rightarrow> 'r \<times> 's) \<Rightarrow> 's \<times> 'l \<Rightarrow> 'r \<times> 's \<times> 'l" where
  "beside f sl = (case f (fst sl) of (x, s) \<Rightarrow> (x, s, snd sl))"

definition seen_by :: "'s authenticator \<Rightarrow> ('s \<times> 'l) authenticator" where
  "seen_by au = \<lparr>au_Authenticate = (\<lambda>token. beside (au_Authenticate au token)),
     au_MarkSeen = (\<lambda>d. beside (au_MarkSeen au d))\<rparr>"

definition logged :: "'s writer \<Rightarrow> ('s \<times> 's publication list) writer" where
  \<comment> \<open>a publication is logged with the state in which the kernel was asked for it\<close>
  "logged wr = \<lparr>wr_Policy = beside (wr_Policy wr),
     wr_PublishedForKey = (\<lambda>d k. beside (wr_PublishedForKey wr d k)),
     wr_RecordReceipt = (\<lambda>cid body. beside (wr_RecordReceipt wr cid body)),
     wr_Published = (\<lambda>c cid. beside (wr_Published wr c cid)),
     wr_Publish = (\<lambda>c cid sl. case wr_Publish wr c cid (fst sl) of (x, s) \<Rightarrow> (x, s, snd sl @ [(fst sl, c, cid)]))\<rparr>"

definition publications :: "('s \<times> 'l) server \<Rightarrow> 'l" where
  "publications sv = snd (sv_world sv)"

named_theorems quiet \<open>what asks for no publication\<close>

lemma publications_update [simp]:
  "publications (sv\<lparr>sv_captures := g\<rparr>) = publications sv" "publications (sv\<lparr>sv_log := ls\<rparr>) = publications sv"
  "publications (sv\<lparr>sv_seen := ps\<rparr>) = publications sv" "publications (sv\<lparr>sv_kernel := b\<rparr>) = publications sv"
  "publications (sv\<lparr>sv_world := w\<rparr>) = snd w" "publications (logIntegrityEvent d sv) = publications sv"
  by (simp_all add: publications_def logIntegrityEvent_def)

lemma quiet_beside: "ask (beside f) sv = (x, sv') \<Longrightarrow> publications sv' = publications sv"
  by (auto simp: ask_def beside_def publications_def split: prod.splits)

lemma quiet_calls [quiet]:
  "ask (wr_Policy (logged wr)) sv = (p, sv') \<Longrightarrow> publications sv' = publications sv"
  "ask (wr_PublishedForKey (logged wr) d k) sv = (q, sv') \<Longrightarrow> publications sv' = publications sv"
  "ask (wr_RecordReceipt (logged wr) cid body) sv = (b, sv') \<Longrightarrow> publications sv' = publications sv"
  "ask (wr_Published (logged wr) c cid) sv = (u, sv') \<Longrightarrow> publications sv' = publications sv"
  using quiet_beside by (auto simp: logged_def)

lemma quiet_on_store [quiet]: "on_store f sv = (x, sv') \<Longrightarrow> publications sv' = publications sv"
  by (auto simp: on_store_def publications_def split: prod.splits)

lemma quiet_policy [quiet]: "current_policy (logged wr) sv = (x, sv') \<Longrightarrow> publications sv' = publications sv"
  by (auto simp: current_policy_def split: prod.splits sum.splits dest: quiet_calls(1))

lemma quiet_receipt [quiet]: "build_receipt t dev c oc sv = (x, sv') \<Longrightarrow> publications sv' = publications sv"
  by (auto simp: build_receipt_def Let_def split: prod.splits sum.splits dest!: quiet_on_store)

lemma quiet_answer [quiet]: "answer_rejected t cd dev c oc sv = (x, sv') \<Longrightarrow> publications sv' = publications sv"
  by (auto simp: answer_rejected_def split: prod.splits sum.splits dest!: quiet_receipt)

lemma quiet_refuse [quiet]:
  "refuse t cd (logged wr) dev c reason sv = (x, sv') \<Longrightarrow> publications sv' = publications sv"
  "refuseIntegrity t cd (logged wr) dev c detail sv = (x, sv') \<Longrightarrow> publications sv' = publications sv"
  by (auto simp: refuse_def refuseIntegrity_def split: prod.splits dest!: quiet_policy quiet_answer)

lemma quiet_record [quiet]:
  "record_receipt cd (logged wr) cl rc body sv = (x, sv') \<Longrightarrow> publications sv' = publications sv"
  by (auto simp: record_receipt_def split: prod.splits sum.splits option.splits dest!: quiet_calls)

definition vouched :: "'s authenticator \<Rightarrow> request \<Rightarrow> capture \<Rightarrow> claim \<Rightarrow> 's publication \<Rightarrow> bool" where
  \<comment> \<open>asked for right after the request's own token was found to be a live device's\<close>
  "vouched au r c cl p \<longleftrightarrow> (case p of (w, c', cid) \<Rightarrow> c' = c \<and> cid = Claim_Identity cl
     \<and> (\<exists>w0 d. au_Authenticate au (bearerToken (header_get ''Authorization'' r)) w0 = (Inr d, w)))"

lemma publish_vouched:
  assumes "publish (seen_by au) (logged wr) r c cl sv = (x, sv')"
  shows "publications sv' = publications sv
    \<or> (\<exists>p. publications sv' = publications sv @ [p] \<and> vouched au r c cl p)"
proof -
  obtain y s1 where s1: "(if cl_TakenOver cl then ask (wr_Published (logged wr) c (Claim_Identity cl)) sv
      else (Inr (rejection [] [], False), sv)) = (y, s1)" by (meson surj_pair)
  have p1: "publications s1 = publications sv" using s1 by (auto split: if_splits dest: quiet_calls(4))
  show ?thesis
  proof (cases "\<exists>oc. y = Inr (oc, False)")
    case False
    then show ?thesis using assms p1 unfolding publish_def s1 by (auto split: sum.splits prod.splits if_splits)
  next
    case True
    then obtain oc where y: "y = Inr (oc, False)" by blast
    obtain w0 l where w0: "sv_world s1 = (w0, l)" by (meson surj_pair)
    obtain d w where a: "au_Authenticate au (bearerToken (header_get ''Authorization'' r)) w0 = (d, w)" by (meson surj_pair)
    have ask: "ask (authorize (seen_by au) r) s1 = (case d of Inl e \<Rightarrow> None | Inr d \<Rightarrow> Some d, s1\<lparr>sv_world := (w, l)\<rparr>)"
      by (simp add: ask_def authorize_def seen_by_def beside_def w0 a split: sum.split)
    show ?thesis
    proof (cases d)
      case (Inl e)
      then show ?thesis using assms p1 w0 unfolding publish_def s1
        by (auto simp: y ask publications_def split: prod.splits dest!: quiet_policy)
    next
      case (Inr d)
      obtain z w' where "wr_Publish wr c (Claim_Identity cl) w = (z, w')" by (meson surj_pair)
      then have "ask (wr_Publish (logged wr) c (Claim_Identity cl)) (s1\<lparr>sv_world := (w, l)\<rparr>)
          = (z, s1\<lparr>sv_world := (w', l @ [(w, c, Claim_Identity cl)])\<rparr>)"
        by (simp add: ask_def logged_def)
      then have "sv' = s1\<lparr>sv_world := (w', l @ [(w, c, Claim_Identity cl)])\<rparr>"
        using assms unfolding publish_def s1 by (simp add: y ask Inr)
      then have "publications sv' = publications sv @ [(w, c, Claim_Identity cl)]"
        using p1 w0 by (simp add: publications_def)
      then show ?thesis using a Inr by (auto simp: vouched_def)
    qed
  qed
qed

definition at_most_one :: "('s \<times> 's publication list) server \<Rightarrow> ('s \<times> 's publication list) server
    \<Rightarrow> ('s publication \<Rightarrow> bool) \<Rightarrow> bool" where
  "at_most_one sv sv' ok \<longleftrightarrow> publications sv' = publications sv
     \<or> (\<exists>p. publications sv' = publications sv @ [p] \<and> ok p)"

lemma at_most_one_quiet: "publications sv' = publications sv \<Longrightarrow> at_most_one sv sv' ok"
  by (simp add: at_most_one_def)

lemma run_claim_vouched:
  assumes "run_claim json_size t cd (seen_by au) (logged wr) r dev c cl sv = (x, sv')"
  shows "at_most_one sv sv' (vouched au r c cl)"
proof -
  obtain y s1 where p: "publish (seen_by au) (logged wr) r c cl sv = (y, s1)" by (meson surj_pair)
  obtain z s2 where s: "settle_with json_size t cd (seen_by au) (logged wr) r dev c cl sv = (z, s2)" by (meson surj_pair)
  have "publications s2 = publications s1"
    using s unfolding settle_with_def p
    by (auto split: prod.splits sum.splits option.splits if_splits dest!: quiet)
  moreover have "publications sv' = publications s2"
    using assms s by (auto simp: run_claim_def split: sum.splits)
  ultimately show ?thesis using publish_vouched [OF p] by (simp add: at_most_one_def)
qed

lemma reserve_capture_vouched:
  assumes "reserve_capture json_size t waits cd (seen_by au) (logged wr) r dev c missing sv = (x, sv')"
  shows "\<exists>cl. at_most_one sv sv' (vouched au r c cl)
    \<and> (publications sv' \<noteq> publications sv \<longrightarrow>
        (\<exists>g. Reserve json_size (capture_cid dev c) (cc_reserve t) waits (sv_captures sv) = (Inr (Claimed cl), g)))"
proof -
  obtain y g where y: "Reserve json_size (capture_cid dev c) (cc_reserve t) waits (sv_captures sv) = (y, g)"
    by (meson surj_pair)
  have s: "on_store (Reserve json_size (capture_cid dev c) (cc_reserve t) waits) sv = (y, sv\<lparr>sv_captures := g\<rparr>)"
    by (simp add: on_store_def y)
  show ?thesis
  proof (cases "\<exists>cl. y = Inr (Claimed cl)")
    case True
    then obtain cl where cl: "y = Inr (Claimed cl)" by blast
    then have "run_claim json_size t cd (seen_by au) (logged wr) r dev c cl (sv\<lparr>sv_captures := g\<rparr>) = (x, sv')"
      using assms by (simp add: reserve_capture_def s)
    from run_claim_vouched [OF this] y cl show ?thesis by (auto simp: at_most_one_def)
  next
    case False
    then have "publications sv' = publications sv"
      using assms unfolding reserve_capture_def s
      by (auto simp: replay_answer_def split: sum.splits reserved.splits if_splits prod.splits dest!: quiet)
    then show ?thesis by (simp add: at_most_one_def)
  qed
qed

lemma run_capture_vouched:
  assumes "run_capture json_size t waits cd (seen_by au) (logged wr) r dev c sv = (x, sv')"
  shows "\<exists>cl. at_most_one sv sv' (vouched au r c cl)
    \<and> (publications sv' \<noteq> publications sv \<longrightarrow> ca_DeviceID c = dv_DeviceID dev \<and> ca_Intent c = IntentRemember
        \<and> (\<exists>g0 g. Reserve json_size (capture_cid dev c) (cc_reserve t) waits g0 = (Inr (Claimed cl), g)))"
proof (cases "ca_DeviceID c = dv_DeviceID dev \<and> ca_Intent c = IntentRemember")
  case False
  then have "publications sv' = publications sv"
    using assms by (auto simp: run_capture_def split: if_splits dest!: quiet)
  then show ?thesis by (simp add: at_most_one_def)
next
  case True
  obtain y s1 where y: "ask (wr_PublishedForKey (logged wr) (dv_DeviceID dev) (ca_IdempotencyKey c)) sv = (y, s1)"
    by (meson surj_pair)
  have p1: "publications s1 = publications sv" using quiet_calls(2) [OF y] .
  show ?thesis
  proof (cases "\<exists>missing. reserve_capture json_size t waits cd (seen_by au) (logged wr) r dev c missing s1 = (x, sv')")
    case res: True
    then show ?thesis using reserve_capture_vouched True p1 unfolding at_most_one_def by (metis (no_types, lifting))
  next
    case res: False
    then have "publications sv' = publications s1"
      using assms True unfolding run_capture_def y
      by (auto split: sum.splits if_splits prod.splits option.splits dest!: quiet)
    then show ?thesis using p1 by (simp add: at_most_one_def)
  qed
qed

lemma claimed_identity:
  assumes "Reserve json_size cid now waits g = (Inr (Claimed cl), g')"
  shows "\<exists>m. Claim_Identity cl = cid\<lparr>ci_MemoryID := m\<rparr>"
proof -
  obtain h where "Reserve json_size cid now [] h = (Inr (Claimed cl), g')"
    using Reserve_waits [of waits json_size cid now g] assms by (auto split: if_splits)
  from Reserve_claimed [OF this] show ?thesis using claim_identity by blast
qed

lemma quiet_admit: "admit (seen_by au) meth r sv = (x, sv') \<Longrightarrow> publications sv' = publications sv"
  by (auto simp: admit_def requireDevice_def authorize_def seen_by_def beside_def publications_def
      split: prod.splits option.splits sum.splits if_splits)

lemma slot_admit_granted: "admit (seen_by au) meth r sv = (Inr dev, sv') \<Longrightarrow> rq_Method r = meth
    \<and> (\<exists>w w'. au_Authenticate au (bearerToken (header_get ''Authorization'' r)) w = (Inr dev, w'))"
  by (auto simp: admit_def requireDevice_def authorize_def seen_by_def beside_def
      split: prod.splits option.splits sum.splits if_splits)

lemma quiet_served: "served (seen_by au) now d rb sv = (x, sv') \<Longrightarrow> publications sv' = publications sv"
  by (auto simp: served_def markSeen_def seen_by_def beside_def publications_def split: if_splits prod.splits)

lemma budgeted_publications:
  assumes "budgeted call sv = (y, sv')" "publications sv' \<noteq> publications sv"
  shows "\<exists>x s. call (sv\<lparr>sv_kernel := True\<rparr>) = (x, s) \<and> publications sv' = publications s"
  using assms by (auto simp: budgeted_def acquire_def release_def split: if_splits sum.splits prod.splits)

text \<open>C5: Nothing is published that was not vouched for. One request asks the kernel for at most one
  publication, and then: it is a POST whose body, within the capture bound, decodes to a valid
  capture with the intent to remember; the device the token belonged to on admission is the one
  the capture names; the token was found live again immediately before, in the very state the
  kernel was asked in; and what is published is that capture, under its own identity.\<close>

theorem nothing_is_published_unvouched:
  assumes "handleCapture json_size t waits cd (seen_by au) (logged wr) r sv = (resp, sv')" "publications sv = []"
  shows "publications sv' = [] \<or>
     (\<exists>w c m dev b. publications sv' = [(w, c, (capture_cid dev c)\<lparr>ci_MemoryID := m\<rparr>)]
       \<and> rq_Method r = ''POST'' \<and> rq_Body r = Some b \<and> length b \<le> MaxCaptureBytes
       \<and> Unmarshal MaxCaptureBytes (dec_capture cd) Capture_Validate b = Inr c
       \<and> ca_Intent c = IntentRemember \<and> ca_DeviceID c = dv_DeviceID dev
       \<and> (\<exists>w1 w2. au_Authenticate au (bearerToken (header_get ''Authorization'' r)) w1 = (Inr dev, w2))
       \<and> (\<exists>w0 d. au_Authenticate au (bearerToken (header_get ''Authorization'' r)) w0 = (Inr d, w)))"
proof -
  obtain x s1 where a: "admit (seen_by au) ''POST'' r sv = (x, s1)" by (meson surj_pair)
  note p1 = quiet_admit [OF a]
  show ?thesis
  proof (cases "publications sv' = []")
    case False
    then obtain dev b c where x: "x = Inr dev" and b: "read_body MaxCaptureBytes r = Inr b"
      and c: "Unmarshal MaxCaptureBytes (dec_capture cd) Capture_Validate b = Inr c"
      using assms p1 by (auto simp: handleCapture_def a split: sum.splits)
    let ?call = "run_capture json_size t waits cd (seen_by au) (logged wr) r dev c"
    obtain y s2 where bud: "budgeted ?call s1 = (y, s2)" by (meson surj_pair)
    have "publications sv' = publications s2"
      using assms(1) by (auto simp: handleCapture_def a x b c bud split: sum.splits dest: quiet_served)
    with False assms(2) p1 have grew: "publications s2 \<noteq> publications s1" by simp
    obtain z s where z: "?call (s1\<lparr>sv_kernel := True\<rparr>) = (z, s)" "publications s2 = publications s"
      using budgeted_publications [OF bud grew] by blast
    obtain cl where cl: "at_most_one (s1\<lparr>sv_kernel := True\<rparr>) s (vouched au r c cl)"
      "publications s \<noteq> publications (s1\<lparr>sv_kernel := True\<rparr>) \<longrightarrow> ca_DeviceID c = dv_DeviceID dev
        \<and> ca_Intent c = IntentRemember
        \<and> (\<exists>g0 g. Reserve json_size (capture_cid dev c) (cc_reserve t) waits g0 = (Inr (Claimed cl), g))"
      using run_capture_vouched [OF z(1)] by blast
    have new: "publications s \<noteq> publications (s1\<lparr>sv_kernel := True\<rparr>)" using grew z(2) by simp
    then obtain g0 g where res: "Reserve json_size (capture_cid dev c) (cc_reserve t) waits g0 = (Inr (Claimed cl), g)"
      and dev: "ca_DeviceID c = dv_DeviceID dev" "ca_Intent c = IntentRemember" using cl(2) by blast
    obtain m where m: "Claim_Identity cl = (capture_cid dev c)\<lparr>ci_MemoryID := m\<rparr>"
      using claimed_identity [OF res] by blast
    have "publications (s1\<lparr>sv_kernel := True\<rparr>) = []" using p1 assms(2) by simp
    then obtain p where p: "publications s = [p]" "vouched au r c cl p"
      using cl(1) new unfolding at_most_one_def by (metis append_Nil)
    obtain w where w: "p = (w, c, (capture_cid dev c)\<lparr>ci_MemoryID := m\<rparr>)"
      "\<exists>w0 d. au_Authenticate au (bearerToken (header_get ''Authorization'' r)) w0 = (Inr d, w)"
      using p(2) m by (cases p) (auto simp: vouched_def)
    have "rq_Body r = Some b \<and> length b \<le> MaxCaptureBytes"
      using b by (auto simp: read_body_def split: option.splits if_splits)
    then show ?thesis
      using p(1) dev w c slot_admit_granted [OF a [unfolded x]] \<open>publications sv' = publications s2\<close> z(2) by metis
  qed simp
qed

definition stranger_request :: request where
  "stranger_request = (get_request RouteCapture [])\<lparr>rq_Method := ''POST''\<rparr>"

theorem nothing_is_published_unvouched_witness:
  "publications (snd (handleCapture (\<lambda>_. 100) (mo_capture example_moment) [] example_codec (seen_by key_holder)
     (logged no_policy) stranger_request (example_server ((), [])))) = []"
proof -
  obtain resp sv' where h: "handleCapture (\<lambda>_. 100) (mo_capture example_moment) [] example_codec (seen_by key_holder)
     (logged no_policy) stranger_request (example_server ((), [])) = (resp, sv')" by (meson surj_pair)
  have "bearerToken (header_get ''Authorization'' stranger_request) = []"
    by (simp add: stranger_request_def get_request_def header_get_def bearerToken_def)
  then have "\<nexists>w0 d w. au_Authenticate key_holder (bearerToken (header_get ''Authorization'' stranger_request)) w0 = (Inr d, w)"
    by (simp add: key_holder_def)
  with nothing_is_published_unvouched [OF h] have "publications sv' = []"
    by (fastforce simp: example_server_def publications_def)
  with h show ?thesis by simp
qed

subsection \<open>Retries\<close>

lemma run_claim_settled:
  assumes "run_claim json_size t cd au wr r dev c cl sv = (Inr body, sv')"
  shows "\<exists>rc g. Claim_Settle json_size cl rc body g = (None, sv_captures sv')"
  using assms
  by (fastforce simp: run_claim_def settle_with_def on_store_def split: prod.splits sum.splits option.splits)

lemma ask_captures [simp]: "ask f sv = (x, sv') \<Longrightarrow> sv_captures sv' = sv_captures sv"
  by (auto simp: ask_def split: prod.splits)


subsection \<open>Refusals\<close>

lemma NewID_files: "NewID prefix now g = (x, g') \<Longrightarrow> rs_files g' = rs_files g"
  by (auto simp: NewID_def split: if_splits)

lemma build_receipt_effect:
  assumes "build_receipt t dev c oc sv = (x, sv')"
  shows "sv_world sv' = sv_world sv \<and> rs_files (sv_captures sv') = rs_files (sv_captures sv)
    \<and> (\<forall>rc. x = Inr rc \<longrightarrow> Receipt_Validate rc = None \<and> (\<exists>rid qid. rc = receipt_of rid qid t dev c oc))"
  using assms
  by (auto simp: build_receipt_def on_store_def Let_def split: prod.splits sum.splits option.splits dest!: NewID_files)

lemma answer_rejected_effect:
  assumes "answer_rejected t cd dev c oc sv = (x, sv')"
  shows "sv_world sv' = sv_world sv \<and> rs_files (sv_captures sv') = rs_files (sv_captures sv)
    \<and> (\<forall>body. x = Inr body \<longrightarrow> (\<exists>rid qid. Receipt_Validate (receipt_of rid qid t dev c oc) = None
        \<and> body = enc_receipt cd (receipt_of rid qid t dev c oc) @ newline))"
proof -
  obtain y s where y: "build_receipt t dev c oc sv = (y, s)" by (meson surj_pair)
  show ?thesis using assms build_receipt_effect [OF y]
    by (auto simp: answer_rejected_def y marshal_receipt_def Marshal_def newline_def Let_def
        split: sum.splits option.splits if_splits)
qed

text \<open>A capture that is not the device's own, or not something to remember, is refused without being
  reserved or offered to the kernel: the only thing asked is the policy in force, no reservation
  file changes, and the answer, if a receipt can be built, is a valid rejected receipt that names
  the authenticated device, never the claimed one, with that policy (readonly if it cannot be
  read) and no memory.\<close>

lemma foreign_capture_is_refused:
  assumes "ca_DeviceID c \<noteq> dv_DeviceID dev \<or> ca_Intent c \<noteq> IntentRemember"
    and "run_capture json_size t waits cd au wr r dev c sv = (x, sv')" "wr_Policy wr (sv_world sv) = (p, w)"
  shows "sv_world sv' = w \<and> rs_files (sv_captures sv') = rs_files (sv_captures sv)
    \<and> (\<forall>body. x = Inr body \<longrightarrow> (\<exists>rc. body = enc_receipt cd rc @ newline \<and> Receipt_Validate rc = None
        \<and> rc_State rc = ReceiptRejected \<and> rc_DeviceID rc = dv_DeviceID dev \<and> rc_MemoryID rc = []
        \<and> rc_Reason rc = (if ca_DeviceID c \<noteq> dv_DeviceID dev then ReasonUnknownDevice else ReasonUnsupportedLane)
        \<and> rc_Policy rc = (case p of Inl e \<Rightarrow> PolicyReadonly | Inr q \<Rightarrow> q)))"
proof -
  let ?why = "if ca_DeviceID c \<noteq> dv_DeviceID dev then ReasonUnknownDevice else ReasonUnsupportedLane"
  let ?p = "case p of Inl e \<Rightarrow> PolicyReadonly | Inr q \<Rightarrow> q"
  have "current_policy wr sv = (?p, sv\<lparr>sv_world := w\<rparr>)"
    using assms(3) by (simp add: current_policy_def ask_def split: sum.split)
  then have "answer_rejected t cd dev c (rejection ?p ?why) (sv\<lparr>sv_world := w\<rparr>) = (x, sv')"
    using assms(1,2) by (auto simp: run_capture_def refuse_def split: if_splits)
  note effect = answer_rejected_effect [OF this]
  show ?thesis
  proof (intro conjI allI impI)
    fix body assume "x = Inr body"
    then obtain rid qid where r: "Receipt_Validate (receipt_of rid qid t dev c (rejection ?p ?why)) = None"
      "body = enc_receipt cd (receipt_of rid qid t dev c (rejection ?p ?why)) @ newline" using effect by blast
    show "\<exists>rc. body = enc_receipt cd rc @ newline \<and> Receipt_Validate rc = None
        \<and> rc_State rc = ReceiptRejected \<and> rc_DeviceID rc = dv_DeviceID dev \<and> rc_MemoryID rc = []
        \<and> rc_Reason rc = ?why \<and> rc_Policy rc = ?p"
      by (rule exI [of _ "receipt_of rid qid t dev c (rejection ?p ?why)"])
        (simp only: r, simp add: receipt_of_def rejection_def)
  qed (use effect in simp_all)
qed

lemma foreign_capture_is_refused_witness:
  "\<exists>x sv'. run_capture (\<lambda>_. 100) (mo_capture example_moment) [] example_codec key_holder no_policy stranger_request owner
      (note_capture ''hi'') (example_server ()) = (x, sv') \<and> rs_files (sv_captures sv') = rs_files (sv_captures (example_server ()))"
proof -
  obtain x sv' where h: "run_capture (\<lambda>_. 100) (mo_capture example_moment) [] example_codec key_holder no_policy
      stranger_request owner (note_capture ''hi'') (example_server ()) = (x, sv')" by (meson surj_pair)
  have "ca_DeviceID (note_capture ''hi'') \<noteq> dv_DeviceID owner" by (simp add: note_capture_def owner_def)
  moreover have "wr_Policy no_policy (sv_world (example_server ())) = (Inl DeadlineExceeded, ())"
    by (simp add: no_policy_def)
  ultimately show ?thesis using foreign_capture_is_refused [OF _ h] h by blast
qed

subsection \<open>A staged capture\<close>

definition author :: device where "author = owner\<lparr>dv_DeviceID := ''dev_a''\<rparr>"

definition staging :: "unit writer" where
  \<comment> \<open>a vault under the propose policy\<close>
  "staging = no_policy\<lparr>wr_Publish := (\<lambda>_ _ w. (Inr \<lparr>wo_Policy = PolicyPropose, wo_State = ReceiptAccepted, wo_Reason = [],
     wo_MemoryID = [], wo_IntegrityDetail = []\<rparr>, w))\<rparr>"

definition staging_server :: "unit server" where
  "staging_server = (example_server ())\<lparr>sv_captures := empty_store\<lparr>rs_tape := [res_io_ok, res_io_ok],
     rs_entropy := [0, 0, 0, 0, 0, 0, 0, 0]\<rparr>\<rparr>"

lemma identity_is_fingerprint: "captureIdentity c = Fingerprint (canonical_capture c)"
  by (simp add: captureIdentity_def Fingerprint_def sha256_hex_def)

lemma lower_hex_opaque: "is_lower_hex c \<Longrightarrow> opaque_char c"
  by (auto simp: is_lower_hex_def opaque_char_def less_eq_char_def byte_def)

lemma memory_id_valid:
  assumes "parse_rfc3339 (ca_CapturedAt c) = Some t" "format_compact t = ''19700101_000000''"
  shows "validateID f PrefixMemory (captureMemoryID c i) = None"
proof -
  have "list_all opaque_char (hex_string bs)" for bs
    using hex_string_lower lower_hex_opaque by (auto simp: list_all_iff)
  then show ?thesis
    by (simp add: captureMemoryID_def assms validateID_None has_prefix_def MaxIDBytes_def)
      (simp add: opaque_char_def)
qed

lemma note_identity_valid: "CaptureIdentity_validate (capture_cid author (note_capture s)) = None"
proof -
  have "format_rfc3339 0 = ''1970-01-01T00:00:00Z''" "format_compact 0 = ''19700101_000000''" by code_simp+
  moreover from this have "parse_rfc3339 ''1970-01-01T00:00:00Z'' = Some 0"
    using parse_format [of 0] in_years_0 by (simp add: truncate_second_def)
  ultimately have "validateID f PrefixMemory (captureMemoryID (note_capture s) i) = None" for f i
    by (intro memory_id_valid [of _ 0]) (simp_all add: note_capture_def)
  moreover have "validateID f PrefixDevice ''dev_a'' = None" for f using example_id_ok by simp
  moreover have "validateIdempotencyKey f ''key-1'' = None" for f
    by (simp add: validateIdempotencyKey_def MaxIdempotencyKeyBytes_def opaqueRunes_def opaque_char_def)
  moreover have "ca_PayloadFingerprint (note_capture s) = Fingerprint s" "ca_IdempotencyKey (note_capture s) = ''key-1''"
    "dv_DeviceID author = ''dev_a''" by (simp_all add: note_capture_def author_def)
  ultimately show ?thesis
    by (simp add: CaptureIdentity_validate_def capture_cid_def identity_is_fingerprint)
qed

definition note_claim :: claim where
  "note_claim = (let cid = capture_cid author (note_capture ''hi'') in
     \<lparr>cl_inflight = inflight_key cid, cl_done = 0, cl_path = reservation_path (ci_DeviceID cid) (ci_Key cid),
       cl_record = pending_record cid 0, cl_TakenOver = False\<rparr>)"

definition note_held :: res_store where
  "note_held = (sv_captures staging_server)\<lparr>rs_tape := [res_io_ok], rs_inflight := [(cl_inflight note_claim, 0)],
     rs_chans := 1, rs_files := [(cl_path note_claim, Stored (cl_record note_claim) 100)], rs_total := 1,
     rs_pending := [(cl_path note_claim, 0)]\<rparr>"

lemma note_reserved: "Reserve (\<lambda>_. 100) (capture_cid author (note_capture ''hi'')) 0 [] (sv_captures staging_server)
    = (Inr (Claimed note_claim), note_held)"
  by (simp add: Reserve_def note_identity_valid take_hold_def reserveOnDisk_def next_res_io_def staging_server_def
      res_io_ok_def readReservation_def admit_fresh_def sweep_def MaxPendingReservations_def Let_def
      publish_claim_def write_reservation_def maxReservationBytes_def remember_def trim_def
      MaxReservations_def note_held_def note_claim_def)

definition note_receipt :: receipt where
  "note_receipt = receipt_of ''rcp_19700101_000000_00000000'' ''req_19700101_000000_00000000'' (mo_capture example_moment)
     author (note_capture ''hi'') \<lparr>wo_Policy = PolicyPropose, wo_State = ReceiptAccepted, wo_Reason = [],
       wo_MemoryID = [], wo_IntegrityDetail = []\<rparr>"

lemma note_receipt_valid: "Receipt_Validate note_receipt = None"
proof -
  have "validateID f ''rcp_'' ''rcp_19700101_000000_00000000'' = None" "validateID f ''req_'' ''req_19700101_000000_00000000'' = None"
    "validateID f PrefixDevice ''dev_a'' = None" "validateIdempotencyKey f ''key-1'' = None" for f
    by (simp_all add: validateID_None has_prefix_def opaque_char_def MaxIDBytes_def validateIdempotencyKey_def
        MaxIdempotencyKeyBytes_def opaqueRunes_def)
  then show ?thesis using validateTimestamp_stamp [OF in_years_0]
    by (simp add: Receipt_Validate_def note_receipt_def receipt_of_def NewReceipt_def header_validate_def SchemaVersion_def
        validateOptionalID_def validateOptionalTimestamp_def inVocabulary_def vocabulary_def receipt_state_rules_def
        validatePolicyOutcome_def policy_state_def note_capture_def author_def example_moment_def reservationStamp_def)
qed

lemma note_ids:
  "NewID PrefixReceipt 0 (g\<lparr>rs_entropy := [0, 0, 0, 0, 0, 0, 0, 0]\<rparr>)
    = (Inr ''rcp_19700101_000000_00000000'', g\<lparr>rs_entropy := [0, 0, 0, 0]\<rparr>)"
  "NewID PrefixRequest 0 (g\<lparr>rs_entropy := [0, 0, 0, 0]\<rparr>) = (Inr ''req_19700101_000000_00000000'', g\<lparr>rs_entropy := []\<rparr>)"
proof -
  have "format_compact 0 = ''19700101_000000''" "hex_string [0, 0, 0, 0] = ''00000000''" by code_simp+
  then show "NewID PrefixReceipt 0 (g\<lparr>rs_entropy := [0, 0, 0, 0, 0, 0, 0, 0]\<rparr>)
    = (Inr ''rcp_19700101_000000_00000000'', g\<lparr>rs_entropy := [0, 0, 0, 0]\<rparr>)"
    "NewID PrefixRequest 0 (g\<lparr>rs_entropy := [0, 0, 0, 0]\<rparr>) = (Inr ''req_19700101_000000_00000000'', g\<lparr>rs_entropy := []\<rparr>)"
    by (simp_all add: NewID_def reservationIDEntropyBytes_def)
qed

abbreviation author_request :: request where
  "author_request \<equiv> get_request RouteCapture [(''Authorization'', ''Bearer key'')]"

definition note_settled :: res_store where
  "note_settled = note_held\<lparr>rs_tape := [], rs_entropy := [], rs_inflight := [], rs_closed := [0], rs_pending := [],
     rs_files := [(cl_path note_claim, Stored (settled_as (cl_record note_claim) note_receipt (''receipt'' @ newline)) 100)]\<rparr>"

lemma note_receipt_built:
  "build_receipt (mo_capture example_moment) author (note_capture ''hi'') \<lparr>wo_Policy = PolicyPropose,
     wo_State = ReceiptAccepted, wo_Reason = [], wo_MemoryID = [], wo_IntegrityDetail = []\<rparr>
     (staging_server\<lparr>sv_captures := note_held\<rparr>)
   = (Inr note_receipt, staging_server\<lparr>sv_captures := note_held\<lparr>rs_entropy := []\<rparr>\<rparr>)"
proof -
  have "note_held = note_held\<lparr>rs_entropy := [0, 0, 0, 0, 0, 0, 0, 0]\<rparr>"
    by (simp add: note_held_def staging_server_def)
  then have "NewID PrefixReceipt 0 note_held = (Inr ''rcp_19700101_000000_00000000'', note_held\<lparr>rs_entropy := [0, 0, 0, 0]\<rparr>)"
    using note_ids(1) by metis
  then show ?thesis
    using note_ids(2) [of note_held] note_receipt_valid
    by (simp add: build_receipt_def on_store_def example_moment_def note_receipt_def Let_def)
qed

lemma note_settle:
  "Claim_Settle (\<lambda>_. 100) note_claim note_receipt (''receipt'' @ newline) (note_held\<lparr>rs_entropy := []\<rparr>) = (None, note_settled)"
proof -
  have "rc_IdempotencyKey note_receipt = rv_IdempotencyKey (cl_record note_claim)"
    "rc_DeviceID note_receipt = rv_DeviceID (cl_record note_claim)"
    "rc_PayloadFingerprint note_receipt = rv_PayloadFingerprint (cl_record note_claim)"
    by (simp_all add: note_receipt_def receipt_of_def note_claim_def Let_def pending_record_def capture_cid_def NewReceipt_def)
  then show ?thesis
    by (simp add: Claim_Settle_def settle_claim_def note_receipt_valid newline_def)
      (simp add: note_held_def note_settled_def next_res_io_def res_io_ok_def write_reservation_def
        maxReservationBytes_def settled_def settled_as_def Claim_finish_def finish_def staging_server_def
        note_claim_def Let_def newline_def)
qed

lemma note_answered:
  "reserve_capture (\<lambda>_. 100) (mo_capture example_moment) [] example_codec key_holder staging author_request author
     (note_capture ''hi'') False staging_server
   = (Inr (''receipt'' @ newline), staging_server\<lparr>sv_captures := note_settled\<rparr>)"
proof -
  have r: "on_store (Reserve (\<lambda>_. 100) (capture_cid author (note_capture ''hi'')) 0 []) staging_server
      = (Inr (Claimed note_claim), staging_server\<lparr>sv_captures := note_held\<rparr>)"
    by (simp add: on_store_def note_reserved)
  have p: "publish key_holder staging author_request (note_capture ''hi'') note_claim sv
      = (Inr \<lparr>wo_Policy = PolicyPropose, wo_State = ReceiptAccepted, wo_Reason = [], wo_MemoryID = [],
          wo_IntegrityDetail = []\<rparr>, sv)" for sv
    using example_granted [of RouteCapture]
    by (simp add: publish_def note_claim_def Let_def ask_def staging_def)
  have m: "marshal_receipt example_codec note_receipt = Inr (''receipt'' @ newline)"
    by (simp add: marshal_receipt_def Marshal_def note_receipt_valid example_codec_def MaxProjectionBytes_def newline_def)
  show ?thesis
    using note_settle
    by (simp add: reserve_capture_def example_moment_def r)
      (simp add: run_claim_def settle_with_def p logIntegrityEvent_def note_receipt_built [unfolded example_moment_def, simplified] m
        on_store_def newline_def)
qed


end
