(* ===== verification/LeaseFile.thy ===== *)
theory LeaseFile
  imports CaptureIdentity "HOL-Library.Monad_Syntax"
begin

text \<open>
  Lease files, internal/leasefile: a lock that is a file holding its owner's bytes, published by
  a hard link that cannot replace one, broken only while it still holds the bytes that were
  found stale, and every transition made under a guard lock the operating system frees when its
  holder dies. The state is the content of the lease file (\<open>None\<close> where there is none). What
  the filesystem answers inside one guarded section is a \<open>guard_io\<close>; the clock and the random
  draws of the removal loop are a \<open>removal_env\<close>. An operation that may retry returns an option:
  \<open>None\<close> is a loop that does not return. Since the guard is exclusive and a section changes the
  lease by one call of the filesystem, a section is one step to everyone else. The two test
  seams \<open>BeforeRemove\<close> and \<open>AfterRead\<close> are nil in the program and left out.
\<close>

definition millisecond :: duration where "millisecond = 1000000"

definition RemovalTimeout :: duration where "RemovalTimeout = 500 * millisecond"

record lease_body =
  lb_RunID :: string
  lb_PID :: int
  lb_AcquiredAt :: string

record lease_disk =
  ld_lease :: "string option"

record guard_io =
  gi_enter :: "go_error option" \<comment> \<open>making the directories, opening the guard, locking it\<close>
  gi_leave :: "go_error option" \<comment> \<open>unlocking and closing the guard\<close>
  gi_read :: "go_error option"
  gi_stage :: "go_error option" \<comment> \<open>staging the new bytes in a temporary file\<close>
  gi_link :: "go_error option"
  gi_remove :: "nat \<Rightarrow> go_error option" \<comment> \<open>by attempt\<close>

definition guard_io_ok :: guard_io where
  "guard_io_ok = \<lparr>gi_enter = None, gi_leave = None, gi_read = None, gi_stage = None,
     gi_link = None, gi_remove = (\<lambda>_. None)\<rparr>"

subsection \<open>Removing the file\<close>

record removal_options =
  ro_Retryable :: "(go_error \<Rightarrow> bool) option"
  ro_Backoff :: "(nat \<Rightarrow> duration) option"
  ro_Timeout :: duration

record removal_env =
  re_now :: "nat \<Rightarrow> instant" \<comment> \<open>the readings of the clock, in order\<close>
  re_rand :: "nat \<Rightarrow> nat" \<comment> \<open>the draws of \<open>rand.IntN\<close>, before they are cut to their range\<close>
  re_sharing :: "go_error \<Rightarrow> bool" \<comment> \<open>\<open>atomicio.SharingViolationRetryable\<close> of the platform\<close>

definition defaultBackoff :: "(nat \<Rightarrow> nat) \<Rightarrow> nat \<Rightarrow> duration" where
  "defaultBackoff rand attempt =
     (let capMs = 2 ^ min attempt 5 in (1 + int (rand attempt mod capMs)) * millisecond)"

definition DefaultRemovalOptions :: "removal_env \<Rightarrow> removal_options" where
  "DefaultRemovalOptions e = \<lparr>ro_Retryable = Some (re_sharing e),
     ro_Backoff = Some (defaultBackoff (re_rand e)), ro_Timeout = RemovalTimeout\<rparr>"

definition normalizeRemoval :: "removal_env \<Rightarrow> removal_options \<Rightarrow> removal_options" where
  "normalizeRemoval e o1 = (let d = DefaultRemovalOptions e in
     \<lparr>ro_Retryable = (if ro_Retryable o1 = None then ro_Retryable d else ro_Retryable o1),
      ro_Backoff = (if ro_Backoff o1 = None then ro_Backoff d else ro_Backoff o1),
      ro_Timeout = (if ro_Timeout o1 \<le> 0 then ro_Timeout d else ro_Timeout o1)\<rparr>)"

definition os_Remove_lease ::
  "go_error option \<Rightarrow> 'a lease_disk_scheme \<Rightarrow> go_error option \<times> 'a lease_disk_scheme" where
  "os_Remove_lease fault d = (case fault of Some e \<Rightarrow> (Some e, d)
     | None \<Rightarrow> (case ld_lease d of None \<Rightarrow> (Some ErrNotExist, d)
         | Some _ \<Rightarrow> (None, d\<lparr>ld_lease := None\<rparr>)))"

partial_function (option) remove_attempts ::
  "(go_error \<Rightarrow> bool) \<Rightarrow> (nat \<Rightarrow> duration) \<Rightarrow> (nat \<Rightarrow> instant) \<Rightarrow> (nat \<Rightarrow> go_error option)
    \<Rightarrow> instant \<Rightarrow> nat \<Rightarrow> 'a lease_disk_scheme \<Rightarrow> (go_error option \<times> 'a lease_disk_scheme) option" where
  \<comment> \<open>the loop, from its attempt \<open>n\<close>; the clock was read once for the deadline and is read
      twice in an attempt\<close>
  "remove_attempts retryable backoff now fault deadline n d = (case os_Remove_lease (fault n) d of
       (None, d') \<Rightarrow> Some (None, d')
     | (Some e, d') \<Rightarrow>
         if errors_is e ErrNotExist then Some (None, d')
         else if \<not> retryable e then Some (Some e, d')
         else if \<not> now (2 * n + 1) + backoff n < deadline then Some (Some e, d')
         else if \<not> now (2 * n + 2) < deadline then Some (Some e, d')
         else remove_attempts retryable backoff now fault deadline (Suc n) d')"

definition removeGuarded ::
  "guard_io \<Rightarrow> removal_env \<Rightarrow> removal_options \<Rightarrow> 'a lease_disk_scheme
    \<Rightarrow> (go_error option \<times> 'a lease_disk_scheme) option" where
  "removeGuarded io e o1 d = (let o1 = normalizeRemoval e o1 in
     remove_attempts (the (ro_Retryable o1)) (the (ro_Backoff o1)) (re_now e) (gi_remove io)
       (re_now e 0 + ro_Timeout o1) 0 d)"

subsection \<open>The guard\<close>

definition join_error :: "go_error option \<Rightarrow> go_error option \<Rightarrow> go_error option" where
  "join_error a b = (case (a, b) of (None, _) \<Rightarrow> b | (_, None) \<Rightarrow> a | (Some x, Some y) \<Rightarrow> Some (Joined x y))"

definition WithGuard ::
  "guard_io \<Rightarrow> 'x \<Rightarrow> ('d \<Rightarrow> (('x \<times> go_error option) \<times> 'd) option) \<Rightarrow> 'd
    \<Rightarrow> (('x \<times> go_error option) \<times> 'd) option" where
  \<comment> \<open>\<open>x\<close> is the initial value of the variable the section captures\<close>
  "WithGuard io x fn d = (case gi_enter io of Some e \<Rightarrow> Some ((x, Some e), d)
     | None \<Rightarrow> do { ((y, e), d') \<leftarrow> fn d; Some ((y, join_error e (gi_leave io)), d') })"

subsection \<open>Transitions\<close>

definition PublishGuarded ::
  "guard_io \<Rightarrow> string \<Rightarrow> 'a lease_disk_scheme \<Rightarrow> (bool \<times> go_error option) \<times> 'a lease_disk_scheme" where
  "PublishGuarded io body d = (case gi_stage io of Some e \<Rightarrow> ((False, Some e), d)
     | None \<Rightarrow> (case gi_link io of Some e \<Rightarrow> ((False, Some e), d)
         | None \<Rightarrow> (case ld_lease d of Some _ \<Rightarrow> ((False, None), d)
             | None \<Rightarrow> ((True, None), d\<lparr>ld_lease := Some body\<rparr>))))"

definition Publish ::
  "guard_io \<Rightarrow> string \<Rightarrow> 'a lease_disk_scheme \<Rightarrow> ((bool \<times> go_error option) \<times> 'a lease_disk_scheme) option" where
  "Publish io body = WithGuard io False (\<lambda>d. Some (PublishGuarded io body d))"

definition read_lease :: "go_error option \<Rightarrow> 'a lease_disk_scheme \<Rightarrow> go_error + string" where
  "read_lease fault d = (case fault of Some e \<Rightarrow> Inl e
     | None \<Rightarrow> (case ld_lease d of None \<Rightarrow> Inl ErrNotExist | Some b \<Rightarrow> Inr b))"

definition Break ::
  "guard_io \<Rightarrow> removal_env \<Rightarrow> removal_options \<Rightarrow> string \<Rightarrow> 'a lease_disk_scheme
    \<Rightarrow> ((bool \<times> go_error option) \<times> 'a lease_disk_scheme) option" where
  "Break io e o1 observed = WithGuard io False (\<lambda>d. case read_lease (gi_read io) d of
       Inl err \<Rightarrow> if errors_is err ErrNotExist then Some ((True, None), d) else Some ((False, Some err), d)
     | Inr cur \<Rightarrow> if cur \<noteq> observed then Some ((False, None), d)
         else do { (err, d') \<leftarrow> removeGuarded io e o1 d; Some ((err = None, err), d') })"

definition lease_stale :: "(string \<Rightarrow> lease_body option) \<Rightarrow> instant \<Rightarrow> duration \<Rightarrow> string \<Rightarrow> bool" where
  "lease_stale unmarshal now ttl data = (case unmarshal data of None \<Rightarrow> True
     | Some b \<Rightarrow> if lb_AcquiredAt b = [] then True
         else (case parse_rfc3339 (lb_AcquiredAt b) of None \<Rightarrow> True | Some t \<Rightarrow> ttl \<le> time_sub now t))"

definition Reap ::
  "(string \<Rightarrow> lease_body option) \<Rightarrow> go_error option \<Rightarrow> guard_io \<Rightarrow> removal_env \<Rightarrow> removal_options
    \<Rightarrow> instant \<Rightarrow> duration \<Rightarrow> 'a lease_disk_scheme
    \<Rightarrow> ((bool \<times> go_error option) \<times> 'a lease_disk_scheme) option" where
  "Reap unmarshal probe io e o1 now ttl d = (case read_lease probe d of
       Inl err \<Rightarrow> if errors_is err ErrNotExist then Some ((True, None), d) else Some ((False, Some err), d)
     | Inr data \<Rightarrow> if \<not> lease_stale unmarshal now ttl data then Some ((False, None), d)
         else Break io e o1 data d)"

definition Releaser ::
  "guard_io \<Rightarrow> removal_env \<Rightarrow> removal_options \<Rightarrow> string \<Rightarrow> bool \<times> 'a lease_disk_scheme
    \<Rightarrow> (bool \<times> 'a lease_disk_scheme) option" where
  \<comment> \<open>the closure; its flag \<open>released\<close> is part of the state\<close>
  "Releaser io e o1 observed = (\<lambda>(released, d). if released then Some (released, d)
     else do { (_, d') \<leftarrow> Break io e o1 observed d; Some (True, d') })"

definition Release ::
  "(string \<Rightarrow> lease_body option) \<Rightarrow> guard_io \<Rightarrow> removal_env \<Rightarrow> removal_options \<Rightarrow> string
    \<Rightarrow> 'a lease_disk_scheme \<Rightarrow> 'a lease_disk_scheme option" where
  "Release unmarshal io e o1 owner d = do {
     (_, d') \<leftarrow> WithGuard io () (\<lambda>d. case read_lease (gi_read io) d of
         Inl _ \<Rightarrow> Some (((), None), d)
       | Inr data \<Rightarrow>
           if (case unmarshal data of None \<Rightarrow> False | Some b \<Rightarrow> lb_RunID b \<noteq> [] \<and> lb_RunID b \<noteq> owner)
           then Some (((), None), d)
           else do { (err, d') \<leftarrow> removeGuarded io e o1 d; Some (((), err), d') }) d;
     Some d' }"

definition show_int :: "int \<Rightarrow> string" where
  "show_int i = (if i < 0 then CHR ''-'' # show_nat (nat (- i)) else show_nat (nat i))"

definition format_rfc3339_nano :: "instant \<Rightarrow> string" where
  \<comment> \<open>\<open>t.UTC().Format(time.RFC3339Nano)\<close>: the fraction without its trailing zeros\<close>
  "format_rfc3339_nano t = (let ns = nat (t mod second);
       digits = map (\<lambda>k. digit_char (ns div 10 ^ (8 - k) mod 10)) [0..<9];
       kept = rev (dropWhile (\<lambda>c. c = CHR ''0'') (rev digits))
     in butlast (format_rfc3339 t) @ (if kept = [] then [] else CHR ''.'' # kept) @ ''Z'')"

definition marshal_body :: "lease_body \<Rightarrow> string" where
  "marshal_body b = ''{'' @ json_string ''run_id'' @ '':'' @ json_string (lb_RunID b)
     @ '','' @ json_string ''pid'' @ '':'' @ show_int (lb_PID b)
     @ '','' @ json_string ''acquired_at'' @ '':'' @ json_string (lb_AcquiredAt b) @ ''}''"

definition Heartbeat ::
  "(string \<Rightarrow> lease_body option) \<Rightarrow> guard_io \<Rightarrow> string \<Rightarrow> instant \<Rightarrow> 'a lease_disk_scheme
    \<Rightarrow> (bool \<times> 'a lease_disk_scheme) option" where
  \<comment> \<open>here \<open>gi_stage\<close> is what \<open>atomicio.Write\<close> fails with; it fails before its rename or not at all\<close>
  "Heartbeat unmarshal io owner now d = do {
     ((owned, err), d') \<leftarrow> WithGuard io False (\<lambda>d. case read_lease (gi_read io) d of
         Inl err \<Rightarrow> Some ((False, Some err), d)
       | Inr data \<Rightarrow> (case unmarshal data of None \<Rightarrow> Some ((False, None), d)
           | Some b \<Rightarrow> if lb_RunID b \<noteq> owner then Some ((False, None), d)
               else (case gi_stage io of Some err \<Rightarrow> Some ((False, Some err), d)
                 | None \<Rightarrow> Some ((True, None),
                     d\<lparr>ld_lease := Some (marshal_body (b\<lparr>lb_AcquiredAt := format_rfc3339_nano now\<rparr>))\<rparr>)))) d;
     Some (err = None \<and> owned, d') }"

definition Remove_lease ::
  "guard_io \<Rightarrow> removal_env \<Rightarrow> removal_options \<Rightarrow> 'a lease_disk_scheme
    \<Rightarrow> (go_error option \<times> 'a lease_disk_scheme) option" where
  "Remove_lease = removeGuarded"

subsection \<open>What each transition can do to the lease\<close>

lemma os_Remove_lease_cases:
  "os_Remove_lease fault d = (r, d') \<Longrightarrow> d' = d \<and> r \<noteq> None \<or> ld_lease d \<noteq> None \<and> r = None \<and> d' = d\<lparr>ld_lease := None\<rparr>"
  by (auto simp: os_Remove_lease_def split: option.splits)

lemma remove_attempts_effect:
  assumes "remove_attempts retryable backoff now fault deadline n d = Some (r, d')"
  shows "d' = d \<and> (r = None \<longrightarrow> ld_lease d = None \<or> (\<exists>k e. fault k = Some e \<and> errors_is e ErrNotExist))
     \<or> ld_lease d \<noteq> None \<and> r = None \<and> d' = d\<lparr>ld_lease := None\<rparr>"
proof -
  let ?P = "\<lambda>fault d r d'. d' = d \<and> (r = None \<longrightarrow> ld_lease d = None \<or> (\<exists>k e. fault k = Some e \<and> errors_is e ErrNotExist))
     \<or> ld_lease d \<noteq> None \<and> r = None \<and> d' = d\<lparr>ld_lease := None\<rparr>"
  have "?P fault d (fst x) (snd x)" if "remove_attempts retryable backoff now fault deadline n d = Some x" for x
    using that
  proof (induction rule: remove_attempts.raw_induct
      [rotated, where P = "\<lambda>_ _ _ fault _ _ d x. ?P fault d (fst x) (snd x)", consumes 1, case_names step])
    case (step f retryable backoff now fault deadline n d x)
    obtain y d1 where o1: "os_Remove_lease (fault n) d = (y, d1)" by force
    show ?case
    proof (cases y)
      case None
      then show ?thesis using step(2) os_Remove_lease_cases [OF o1] by (auto simp: o1)
    next
      case (Some e)
      then have "d1 = d" using os_Remove_lease_cases [OF o1] by simp
      moreover have "ld_lease d = None \<or> fault n = Some e"
        using o1 Some by (auto simp: os_Remove_lease_def split: option.splits)
      ultimately show ?thesis
        using step(1) [of retryable backoff now fault deadline "Suc n" d x] step(2) Some
        by (cases "errors_is e ErrNotExist") (auto simp: o1 split: if_splits)
    qed
  qed
  from this [OF assms] show ?thesis by simp
qed

lemma removeGuarded_effect:
  assumes "removeGuarded io e o1 d = Some (r, d')"
  shows "d' = d \<or> r = None \<and> d' = d\<lparr>ld_lease := None\<rparr>"
  using assms unfolding removeGuarded_def Let_def by (auto dest: remove_attempts_effect)

lemma Publish_cases:
  assumes "Publish io body d = Some ((published, err), d')"
  shows "published \<and> ld_lease d = None \<and> d' = d\<lparr>ld_lease := Some body\<rparr> \<or> \<not> published \<and> d' = d"
  using assms by (auto simp: Publish_def WithGuard_def PublishGuarded_def split: option.splits)

lemma Publish_returns: "\<exists>r. Publish io body d = Some r"
  by (auto simp: Publish_def WithGuard_def split: option.split prod.split)

lemma Break_effect:
  assumes "Break io e o1 observed d = Some ((reaped, err), d')"
  shows "d' = d \<or> ld_lease d = Some observed \<and> d' = d\<lparr>ld_lease := None\<rparr>"
  using assms
  by (auto simp: Break_def WithGuard_def read_lease_def bind_eq_Some_conv
      split: option.splits sum.splits if_splits dest: removeGuarded_effect)

end
