(* ===== verification/Identity.thy ===== *)
theory Identity
  imports GoText
begin

text \<open>
  Identity atoms and the classification of a sender, internal/identity: how a handle or an
  address is brought to one spelling, which mailboxes are one, and whether a reference names a
  person, a service, an organisation, a repository or a piece of notification boilerplate. All
  of it is pure; \<open>u\<close> is the Unicode table the lower casing reads.
\<close>

subsection \<open>Atoms\<close>

record atom =
  at_Provider :: string
  at_Kind :: string
  at_Value :: string

definition Normalize :: "unicode \<Rightarrow> string \<Rightarrow> string \<Rightarrow> string" where
  "Normalize u kind raw = (let v = TrimSpace raw in
     if v = [] then []
     else if kind = ''address'' \<or> contains v ''@'' then ToLower u v
     else v)"

definition MailboxKey :: "unicode \<Rightarrow> string \<Rightarrow> string" where
  "MailboxKey u addr = (let addr = ToLower u (TrimSpace addr) in
     case last_index_byte CHR ''@'' addr of
       None \<Rightarrow> addr
     | Some at \<Rightarrow>
         (let lcl = take at addr; host = drop (at + 1) addr in
          if host = ''gmail.com'' \<or> host = ''googlemail.com'' then
            (let lcl = (case index_byte CHR ''+'' lcl of Some i \<Rightarrow> take i lcl | None \<Rightarrow> lcl);
                 lcl = filter (\<lambda>c. c \<noteq> CHR ''.'') lcl
             in lcl @ ''@'' @ ''gmail.com'')
          else lcl @ ''@'' @ host))"

definition name_separator :: "rune \<Rightarrow> bool" where
  "name_separator r \<longleftrightarrow> r = byte CHR ''.'' \<or> r = byte CHR ''_'' \<or> r = byte CHR ''-'' \<or> r = byte CHR ''+''"

definition SelfNameTokens :: "unicode \<Rightarrow> string list \<Rightarrow> string list" where
  \<comment> \<open>a set of strings is a list here; the caller reads it by membership\<close>
  "SelfNameTokens u self = concat (map (\<lambda>addr.
     (let (lcl, _, found) = cut_char addr CHR ''@''; lcl = (if found then lcl else addr) in
      map (ToLower u) (filter (\<lambda>part. 2 \<le> length part) (FieldsFunc name_separator lcl)))) self)"

subsection \<open>Classification\<close>

definition serviceLocalTokens :: "string list" where
  "serviceLocalTokens = [
    ''no-reply'', ''noreply'', ''no_reply'', ''donotreply'', ''do-not-reply'', ''notification'',
    ''notifications'', ''notify'', ''alert'', ''alerts'', ''receipt'', ''receipts'', ''news'',
    ''newsletter'', ''notes'', ''update'', ''updates'', ''mailer'', ''mailer-daemon'', ''bounce'',
    ''bounces'', ''info'', ''support'', ''service'', ''help'', ''sales'', ''billing'', ''marketing'',
    ''hello'', ''contact'', ''team'', ''automated'', ''auto'', ''account'', ''accounts'', ''security'',
    ''member'', ''members'', ''community'', ''digest'', ''postmaster'', ''unsubscribe'', ''unsub'',
    ''robot'', ''daemon'', ''reply'']"

definition serviceHostLabels :: "string list" where
  "serviceHostLabels = [
    ''noreply'', ''mailer'', ''bounce'', ''mktg'', ''marketing'', ''news'', ''notifications'',
    ''notify'', ''alerts'', ''em'', ''sendgrid'', ''mailgun'', ''send'']"

definition serviceDisplaySuffixes :: "string list" where
  "serviceDisplaySuffixes = [
    '' receipts'', '' alerts'', '' notifications'', '' team'', '' support'', '' newsletter'',
    '' digest'']"

definition serviceLocalSubstrings :: "string list" where
  "serviceLocalSubstrings = [''noreply'', ''no-reply'', ''donotreply'', ''do-not-reply'', ''donotrespond'']"

definition orgBrands :: "string list" where
  "orgBrands = [
    ''sofi'', ''one medical'', ''github'', ''google'', ''stripe'', ''chase'', ''apple'', ''slack'',
    ''zoom'', ''facebook'', ''meta'', ''amazon'', ''uber'', ''figma'', ''linkedin'', ''microsoft'',
    ''netflix'', ''paypal'', ''venmo'', ''airbnb'', ''lyft'', ''salesforce'']"

definition orgKeywords :: "string list" where
  "orgKeywords = [
    '' inc.'', '' inc'', '' corp.'', '' corp'', '' co.'', '' llc'', '' ltd.'', '' ltd'', '' company'',
    '' corporation'', '' association'', '' foundation'', '' university'', '' institute'', '' medical'',
    '' hospital'', '' clinic'', '' school'', '' college'', '' bank'', '' ventures'', '' capital'',
    '' partners'', '' labs'']"

definition artifacts :: "string list" where
  "artifacts = [
    ''push'', ''author'', ''mention'', ''ci activity'', ''state change'', ''ci-activity'',
    ''state-change'']"

definition isDelim :: "rune \<Rightarrow> bool" where
  "isDelim r \<longleftrightarrow> r = byte CHR ''.'' \<or> r = byte CHR ''-'' \<or> r = byte CHR ''_''"

definition ascii_digit :: "rune \<Rightarrow> bool" where
  "ascii_digit r \<longleftrightarrow> byte CHR ''0'' \<le> r \<and> r \<le> byte CHR ''9''"

definition isShortcode :: "string \<Rightarrow> bool" where
  "isShortcode handle = (if handle = [] \<or> 6 < length handle then False
     else list_all ascii_digit (runes handle))"

fun phone_scan :: "bool \<Rightarrow> rune list \<Rightarrow> nat option" where
  \<comment> \<open>the digits of a dialable handle; \<open>first\<close> is true at index 0\<close>
  "phone_scan first [] = Some 0"
| "phone_scan first (r # rs) =
     (if ascii_digit r then map_option Suc (phone_scan False rs)
      else if r = byte CHR ''+'' \<and> first then phone_scan False rs
      else if r = byte CHR '' '' \<or> r = byte CHR ''-'' \<or> r = byte CHR ''('' \<or> r = byte CHR '')''
        \<or> r = byte CHR ''.'' then phone_scan False rs
      else None)"

definition isPhoneNumber :: "string \<Rightarrow> bool" where
  "isPhoneNumber handle = (case phone_scan True (runes handle) of None \<Rightarrow> False
     | Some digits \<Rightarrow> 7 \<le> digits \<and> digits \<le> 15)"

definition localPartIsService :: "string \<Rightarrow> bool" where
  "localPartIsService lcl =
     (let base = (case index_byte CHR ''+'' lcl of Some i \<Rightarrow> take i lcl | None \<Rightarrow> lcl) in
      if base \<in> set serviceLocalTokens then True
      else if list_ex (contains base) serviceLocalSubstrings then True
      else list_ex (\<lambda>tok. tok \<in> set serviceLocalTokens) (FieldsFunc isDelim base))"

definition hostIsBulkESP :: "string \<Rightarrow> bool" where
  "hostIsBulkESP host = list_ex (\<lambda>label. label \<in> set serviceHostLabels) (split_byte CHR ''.'' host)"

definition displayIsService :: "unicode \<Rightarrow> string \<Rightarrow> bool" where
  "displayIsService u display = (let d = ToLower u (TrimSpace display) in
     if d = [] then False
     else if contains d ''job alerts'' \<or> contains d ''no-reply'' \<or> contains d ''do not reply'' then True
     else list_ex (has_suffix d) serviceDisplaySuffixes)"

definition isValidPhoneOrShortcode :: "string \<Rightarrow> bool" where
  "isValidPhoneOrShortcode handle = (if handle = [] then False
     else let handle = (if hd handle = CHR ''+'' then tl handle else handle) in
       if handle = [] then False else list_all ascii_digit (runes handle))"

definition isArtifact :: "string \<Rightarrow> string \<Rightarrow> bool" where
  "isArtifact ident display \<longleftrightarrow> ident \<in> set artifacts \<or> display \<in> set artifacts"

definition count_byte :: "char \<Rightarrow> string \<Rightarrow> nat" where
  "count_byte c s = length (filter (\<lambda>x. x = c) s)"

definition isRepo :: "string \<Rightarrow> string \<Rightarrow> bool" where
  "isRepo ident display =
     (if \<not> contains ident ''@'' \<and> count_byte CHR ''/'' ident = 1 then True
      else if \<not> contains display ''@'' \<and> count_byte CHR ''/'' display = 1 then True
      else False)"

definition isOrg :: "string \<Rightarrow> string \<Rightarrow> bool" where
  "isOrg ident display =
     (if display \<in> set orgBrands then True
      else if list_ex (has_suffix display) orgKeywords then True
      else if \<not> contains ident ''@'' \<and> contains ident ''.'' \<and> \<not> contains ident ''/''
        \<and> \<not> isValidPhoneOrShortcode ident then True
      else False)"

definition classifyIdentity :: "unicode \<Rightarrow> string \<Rightarrow> string \<Rightarrow> string" where
  "classifyIdentity u identity displayName =
     (let ident = ToLower u (TrimSpace identity); display = ToLower u (TrimSpace displayName) in
      if isArtifact ident display then ''artifact''
      else if isRepo ident display then ''repo''
      else case last_index_byte CHR ''@'' ident of
        None \<Rightarrow> if isShortcode ident then ''service''
          else if isOrg ident display then ''org''
          else ''person''
      | Some at \<Rightarrow>
          (let lcl = take at ident; host = drop (at + 1) ident in
           if localPartIsService lcl \<or> hostIsBulkESP host \<or> displayIsService u displayName then ''service''
           else if isOrg ident display then ''org''
           else ''person''))"

definition isStructuralNoise :: "unicode \<Rightarrow> string \<Rightarrow> bool" where
  "isStructuralNoise u handle = isArtifact (ToLower u (TrimSpace handle)) []"

end
