(* ===== verification/GovernanceStore.thy ===== *)
theory GovernanceStore
  imports LeaseFile Identity
begin

text \<open>
  The governance ledger, internal/governance/store.go: the vault's append-only list of the
  owner's decisions. \<open>Append\<close> and \<open>Revoke\<close> take the lease of the ledger file, read the ledger,
  change it, write it whole and give the lease back. The ledger file holds the record it decodes
  to, or bytes that are no ledger. The seams of a \<open>Store\<close> (identifier, clock, author) are
  arguments; \<open>PostLoad\<close>, a test seam, is left out.
\<close>

record entry =
  en_ID :: string
  en_Kind :: string
  en_Atom :: atom
  en_Action :: string
  en_Reason :: string
  en_Atom2 :: "atom option"
  en_Decision :: string
  en_TargetID :: string
  en_CommitmentID :: string
  en_ReplacementID :: string
  en_CorrectedAtom :: "atom option"
  en_CorrectedDirection :: string
  en_DuplicateOf :: string
  en_CreatedAt :: string
  en_CreatedBy :: string
  en_RevokedAt :: string

record ledger =
  lg_Schema :: int
  lg_Entries :: "entry list"

definition GovernanceSchemaVersion :: int where "GovernanceSchemaVersion = 1"
definition LeaseTTL :: duration where "LeaseTTL = 30 * second"
definition AcquireTimeout :: duration where "AcquireTimeout = 2 * second"

datatype ledger_file = LedgerFile ledger | CorruptLedger

record vault = lease_disk +
  va_ledger :: "ledger_file option"

subsection \<open>The file\<close>

definition empty_ledger :: ledger where
  "empty_ledger = \<lparr>lg_Schema = GovernanceSchemaVersion, lg_Entries = []\<rparr>"

definition Load :: "go_error option \<Rightarrow> vault \<Rightarrow> go_error + ledger" where
  "Load fault v = (case fault of Some e \<Rightarrow> Inl e
     | None \<Rightarrow> (case va_ledger v of
         None \<Rightarrow> Inr empty_ledger
       | Some CorruptLedger \<Rightarrow> Inl (OtherError ''unreadable governance ledger'')
       | Some (LedgerFile g) \<Rightarrow> Inr g))"

definition Save :: "go_error option \<Rightarrow> ledger \<Rightarrow> vault \<Rightarrow> go_error option \<times> vault" where
  \<comment> \<open>\<open>atomicio.Write\<close> renames last: it fails with the old file in place, or not at all\<close>
  "Save fault g v = (let g = (if lg_Schema g = 0 then g\<lparr>lg_Schema := GovernanceSchemaVersion\<rparr> else g) in
     case fault of Some e \<Rightarrow> (Some e, v) | None \<Rightarrow> (None, v\<lparr>va_ledger := Some (LedgerFile g)\<rparr>))"

subsection \<open>Taking the lease\<close>

definition lease_text :: "int \<Rightarrow> instant \<Rightarrow> string" where
  \<comment> \<open>\<open>json.Marshal\<close> of the anonymous struct in \<open>Acquire\<close>\<close>
  "lease_text pid now = ''{'' @ json_string ''pid'' @ '':'' @ show_int pid
     @ '','' @ json_string ''acquired_at'' @ '':'' @ json_string (format_rfc3339 now) @ ''}''"

record lease_env =
  le_unmarshal :: "string \<Rightarrow> lease_body option" \<comment> \<open>\<open>json.Unmarshal\<close> into a \<open>leasefile.Body\<close>\<close>
  le_removal :: removal_env
  le_pid :: int
  le_backoff :: "nat \<Rightarrow> duration"

record attempt_io =
  ai_publish :: guard_io
  ai_probe :: "go_error option"
  ai_break :: guard_io

datatype attempt_result = Acquired string | Refused go_error | Again duration

definition store_backoff :: "(nat \<Rightarrow> duration) option \<Rightarrow> (nat \<Rightarrow> nat) \<Rightarrow> nat \<Rightarrow> duration" where
  \<comment> \<open>\<open>Store.backoff\<close>: the seam, or a jittered wait\<close>
  "store_backoff seam rand n = (case seam of Some f \<Rightarrow> f n
     | None \<Rightarrow> (let capMs = 2 ^ min n 5 in (1 + int (rand n mod capMs)) * millisecond))"

definition acquire_attempt ::
  "lease_env \<Rightarrow> attempt_io \<Rightarrow> instant \<Rightarrow> nat \<Rightarrow> 'a lease_disk_scheme \<Rightarrow> (attempt_result \<times> 'a lease_disk_scheme) option" where
  \<comment> \<open>the body of the loop in \<open>Acquire\<close>, up to its wait\<close>
  "acquire_attempt e io now n d = do {
     ((published, err), d1) \<leftarrow> Publish (ai_publish io) (lease_text (le_pid e) now) d;
     (case err of
        None \<Rightarrow>
          if published then Some (Acquired (lease_text (le_pid e) now), d1)
          else do {
            ((reaped, rerr), d2) \<leftarrow> Reap (le_unmarshal e) (ai_probe io) (ai_break io) (le_removal e)
               (DefaultRemovalOptions (le_removal e)) now LeaseTTL d1;
            (case rerr of
               None \<Rightarrow> Some (Again (if reaped then 0 else le_backoff e n), d2)
             | Some x \<Rightarrow> if re_sharing (le_removal e) x then Some (Again (le_backoff e n), d2)
                 else Some (Refused x, d2)) }
      | Some x \<Rightarrow> if re_sharing (le_removal e) x then Some (Again (le_backoff e n), d1)
          else Some (Refused x, d1)) }"

partial_function (option) acquire_attempts ::
  "lease_env \<Rightarrow> (nat \<Rightarrow> attempt_io) \<Rightarrow> (nat \<Rightarrow> 'a lease_disk_scheme \<Rightarrow> 'a lease_disk_scheme)
    \<Rightarrow> (nat \<Rightarrow> instant) \<Rightarrow> instant \<Rightarrow> instant \<Rightarrow> nat \<Rightarrow> 'a lease_disk_scheme
    \<Rightarrow> ((go_error + string) \<times> 'a lease_disk_scheme) option" where
  \<comment> \<open>\<open>others n\<close> is what other processes do to the disk while attempt \<open>n\<close> sleeps; \<open>wall n\<close> is the
      clock read after attempt \<open>n\<close>\<close>
  "acquire_attempts e io others wall deadline now n d = do {
     (r, d') \<leftarrow> acquire_attempt e (io n) now n d;
     (case r of
        Acquired body \<Rightarrow> Some (Inr body, d')
      | Refused x \<Rightarrow> Some (Inl x, d')
      | Again wait \<Rightarrow>
          if deadline < wall n + wait then Some (Inl (OtherError ''governance ledger is locked''), d')
          else acquire_attempts e io others wall deadline now (Suc n) (others n d')) }"

definition Acquire ::
  "lease_env \<Rightarrow> go_error option \<Rightarrow> (nat \<Rightarrow> attempt_io) \<Rightarrow> (nat \<Rightarrow> 'a lease_disk_scheme \<Rightarrow> 'a lease_disk_scheme)
    \<Rightarrow> instant \<Rightarrow> (nat \<Rightarrow> instant) \<Rightarrow> instant \<Rightarrow> 'a lease_disk_scheme
    \<Rightarrow> ((go_error + string) \<times> 'a lease_disk_scheme) option" where
  \<comment> \<open>\<open>mkdir\<close> is what \<open>MkdirAll\<close> answers, \<open>start\<close> the reading the deadline is set from; the
      result is the body the releaser breaks\<close>
  "Acquire e mkdir io others start wall now d = (case mkdir of Some x \<Rightarrow> Some (Inl x, d)
     | None \<Rightarrow> acquire_attempts e io others wall (start + AcquireTimeout) now 0 d)"

subsection \<open>Append and revoke\<close>

definition local_rfc3339 :: "int \<Rightarrow> instant \<Rightarrow> string" where
  \<comment> \<open>\<open>t.Format(time.RFC3339)\<close> in a zone \<open>z\<close> seconds east of UTC\<close>
  "local_rfc3339 z t = butlast (format_rfc3339 (t + z * second))
     @ (if z = 0 then ''Z'' else
         (let m = go_quot z 60; a = nat \<bar>m\<bar> in
          (if m < 0 then CHR ''-'' else CHR ''+'') # two (a div 60) @ '':'' @ two (a mod 60)))"

record store =
  st_NewID :: "string option"
  st_CreatedBy :: "string option"
  st_zone :: int

definition mint :: "store \<Rightarrow> instant \<Rightarrow> entry \<Rightarrow> entry" where
  "mint s now e =
     (let e = (if en_ID e = [] then
                 e\<lparr>en_ID := ''gov_'' @ fst (cut_prefix (case st_NewID s of None \<Rightarrow> [] | Some i \<Rightarrow> i) ''mem_'')\<rparr>
               else e);
          e = (if en_CreatedAt e = [] then e\<lparr>en_CreatedAt := local_rfc3339 (st_zone s) now\<rparr> else e)
      in if en_CreatedBy e = [] \<and> st_CreatedBy s \<noteq> None then e\<lparr>en_CreatedBy := the (st_CreatedBy s)\<rparr> else e)"

definition AppendLocked ::
  "store \<Rightarrow> instant \<Rightarrow> go_error option \<Rightarrow> ledger \<Rightarrow> entry \<Rightarrow> vault \<Rightarrow> (go_error + entry) \<times> vault" where
  "AppendLocked s now fault g e v =
     (let e = mint s now e; g = g\<lparr>lg_Entries := lg_Entries g @ [e]\<rparr> in
      case Save fault g v of (Some x, v') \<Rightarrow> (Inl x, v') | (None, v') \<Rightarrow> (Inr e, v'))"

definition revoke_entries :: "string \<Rightarrow> string \<Rightarrow> entry list \<Rightarrow> bool \<times> entry list" where
  \<comment> \<open>the loop of \<open>Revoke\<close>: whether an entry was found, and the entries\<close>
  "revoke_entries id1 stamp es =
     (list_ex (\<lambda>e. en_ID e = id1 \<and> en_RevokedAt e = []) es,
      map (\<lambda>e. if en_ID e = id1 \<and> en_RevokedAt e = [] then e\<lparr>en_RevokedAt := stamp\<rparr> else e) es)"

record acquire_io =
  aq_mkdir :: "go_error option"
  aq_attempts :: "nat \<Rightarrow> attempt_io"
  aq_others :: "nat \<Rightarrow> vault \<Rightarrow> vault"
  aq_start :: instant
  aq_wall :: "nat \<Rightarrow> instant"

record op_io =
  op_acquire :: acquire_io
  op_load :: "go_error option"
  op_save :: "go_error option"
  op_release :: guard_io

definition hold ::
  "lease_env \<Rightarrow> op_io \<Rightarrow> instant \<Rightarrow> (vault \<Rightarrow> (go_error + 'r) \<times> vault) \<Rightarrow> vault
    \<Rightarrow> ((go_error + 'r) \<times> vault) option" where
  \<comment> \<open>take the lease, run the section, and the deferred \<open>release\<close>\<close>
  "hold e io now section v = do {
     (r, v1) \<leftarrow> Acquire e (aq_mkdir (op_acquire io)) (aq_attempts (op_acquire io)) (aq_others (op_acquire io))
       (aq_start (op_acquire io)) (aq_wall (op_acquire io)) now v;
     (case r of Inl x \<Rightarrow> Some (Inl x, v1)
      | Inr body \<Rightarrow> (let (res, v2) = section v1 in do {
          (_, v3) \<leftarrow> Releaser (op_release io) (le_removal e) (DefaultRemovalOptions (le_removal e)) body (False, v2);
          Some (res, v3) })) }"

definition Store_Append ::
  "lease_env \<Rightarrow> op_io \<Rightarrow> store \<Rightarrow> instant \<Rightarrow> instant \<Rightarrow> entry \<Rightarrow> vault
    \<Rightarrow> ((go_error + entry) \<times> vault) option" where
  \<comment> \<open>\<open>now\<close> is the reading the lease is stamped with, \<open>minted\<close> the one the entry is\<close>
  "Store_Append e io s now minted x = hold e io now (\<lambda>v. case Load (op_load io) v of Inl err \<Rightarrow> (Inl err, v)
     | Inr g \<Rightarrow> AppendLocked s minted (op_save io) g x v)"

definition Store_Revoke ::
  "lease_env \<Rightarrow> op_io \<Rightarrow> store \<Rightarrow> instant \<Rightarrow> instant \<Rightarrow> string \<Rightarrow> vault
    \<Rightarrow> ((go_error + bool \<times> go_error option) \<times> vault) option" where
  \<comment> \<open>Go returns true beside the error of \<open>Save\<close>\<close>
  "Store_Revoke e io s now revoked id1 = hold e io now (\<lambda>v. case Load (op_load io) v of Inl err \<Rightarrow> (Inl err, v)
     | Inr g \<Rightarrow> (let (found, es) = revoke_entries id1 (local_rfc3339 (st_zone s) revoked) (lg_Entries g) in
         if \<not> found then (Inr (False, None), v)
         else (let (x, v') = Save (op_save io) (g\<lparr>lg_Entries := es\<rparr>) v in (Inr (True, x), v'))))"

definition ItemAtom :: "string \<Rightarrow> string \<Rightarrow> atom" where
  "ItemAtom provider stableID = \<lparr>at_Provider = provider, at_Kind = ''stable_id'', at_Value = stableID\<rparr>"

definition NormalizeIdentity :: "unicode \<Rightarrow> string \<Rightarrow> string \<Rightarrow> string" where
  "NormalizeIdentity u kind raw = Normalize u kind raw"

definition ProviderMatches :: "string \<Rightarrow> string \<Rightarrow> bool" where
  "ProviderMatches entryProvider memoryProvider \<longleftrightarrow> entryProvider = [] \<or> entryProvider = memoryProvider"

end
