(* ===== verification/GovernancePolicy.thy ===== *)
theory GovernancePolicy
  imports GovernanceStore
begin

text \<open>
  What the governance ledger decides, internal/governance/policy.go, with the readers of memory
  metadata it calls from internal/graph. A \<open>map[string]any\<close> is an association list and a value of
  it an \<open>any\<close>, with the dynamic types the code tests for; a nil map is \<open>None\<close>. Where the code
  sorts what it collected in a map, no two elements are equal under the order, so any sort gives
  the same list.
\<close>

subsection \<open>Metadata\<close>

datatype any =
    AString string
  | AStrings "string list"
  | AList "any list"
  | AMap "(string \<times> any) list"
  | AStringMap "(string \<times> string) list"
  | AStringMaps "(string \<times> string) list list"
  | AOther

type_synonym meta = "(string \<times> any) list option"

definition as_string :: "any option \<Rightarrow> string" where
  \<comment> \<open>\<open>v, _ := x.(string)\<close>\<close>
  "as_string x = (case x of Some (AString s) \<Rightarrow> s | _ \<Rightarrow> [])"

definition field :: "(string \<times> string) list \<Rightarrow> string \<Rightarrow> string" where
  "field r k = (case map_of r k of None \<Rightarrow> [] | Some v \<Rightarrow> v)"

definition metaStrings :: "any option \<Rightarrow> string list" where
  "metaStrings v = (case v of
       Some (AStrings t) \<Rightarrow> filter (\<lambda>s. s \<noteq> []) t
     | Some (AList t) \<Rightarrow> filter (\<lambda>s. s \<noteq> []) (map (\<lambda>e. as_string (Some e)) t)
     | Some (AString t) \<Rightarrow> if t \<noteq> [] then [t] else []
     | _ \<Rightarrow> [])"

definition metaPairs :: "any option \<Rightarrow> (string \<times> string) list" where
  "metaPairs v = (case v of
       Some (AStringMaps items) \<Rightarrow> map (\<lambda>p. (field p ''handle'', field p ''name'')) items
     | Some (AList items) \<Rightarrow> concat (map (\<lambda>it. case it of
           AMap p \<Rightarrow> [(as_string (map_of p ''handle''), as_string (map_of p ''name''))]
         | AStringMap p \<Rightarrow> [(field p ''handle'', field p ''name'')]
         | _ \<Rightarrow> []) items)
     | _ \<Rightarrow> [])"

definition personID :: "unicode \<Rightarrow> string \<Rightarrow> string" where
  "personID u identity = ''person:'' @ ToLower u (TrimSpace identity)"

subsection \<open>Vocabulary\<close>

abbreviation ParentStableIDKey :: string where "ParentStableIDKey \<equiv> ''governance_parent_stable_id''"
abbreviation ParentProviderKey :: string where "ParentProviderKey \<equiv> ''governance_parent_provider''"
abbreviation ParentAtomsKey :: string where "ParentAtomsKey \<equiv> ''governance_parent_atoms''"
abbreviation AtomStableID :: string where "AtomStableID \<equiv> ''stable_id''"
abbreviation AtomHandle :: string where "AtomHandle \<equiv> ''handle''"
abbreviation AtomAddress :: string where "AtomAddress \<equiv> ''address''"
abbreviation KindForget :: string where "KindForget \<equiv> ''forget''"
abbreviation KindPrune :: string where "KindPrune \<equiv> ''prune''"
abbreviation KindSourceScope :: string where "KindSourceScope \<equiv> ''source_scope''"
abbreviation KindRedact :: string where "KindRedact \<equiv> ''redact''"
abbreviation KindMergeConfirm :: string where "KindMergeConfirm \<equiv> ''merge_confirm''"
abbreviation KindTeachCommitment :: string where "KindTeachCommitment \<equiv> ''teach_commitment''"
abbreviation KindTeachMemory :: string where "KindTeachMemory \<equiv> ''teach_memory''"
abbreviation KindEvalConsent :: string where "KindEvalConsent \<equiv> ''eval_consent''"
abbreviation ActionSuppress :: string where "ActionSuppress \<equiv> ''suppress''"
abbreviation ActionRecord :: string where "ActionRecord \<equiv> ''record''"
abbreviation DecisionConfirm :: string where "DecisionConfirm \<equiv> ''confirm''"
abbreviation DecisionReject :: string where "DecisionReject \<equiv> ''reject''"

definition Revoked :: "entry \<Rightarrow> bool" where "Revoked e \<longleftrightarrow> en_RevokedAt e \<noteq> []"

subsection \<open>Suppression\<close>

definition ActiveSuppress :: "ledger \<Rightarrow> entry list" where
  "ActiveSuppress g = filter (\<lambda>e. if Revoked e \<or> en_Action e \<noteq> ActionSuppress then False
     else en_Kind e = KindForget \<or> en_Kind e = KindPrune \<or> en_Kind e = KindSourceScope) (lg_Entries g)"

definition atom_less :: "atom \<Rightarrow> atom \<Rightarrow> bool" where
  "atom_less a b \<longleftrightarrow> (if at_Kind a \<noteq> at_Kind b then at_Kind a < at_Kind b else at_Value a < at_Value b)"

definition add_atom :: "unicode \<Rightarrow> string \<Rightarrow> string \<Rightarrow> string \<Rightarrow> atom list" where
  "add_atom u provider kind raw = (let v = NormalizeIdentity u kind raw in
     if v \<noteq> [] then [\<lparr>at_Provider = provider, at_Kind = kind, at_Value = v\<rparr>] else [])"

definition CounterpartyAtoms :: "unicode \<Rightarrow> string \<Rightarrow> meta \<Rightarrow> atom list" where
  "CounterpartyAtoms u provider meta = (case meta of None \<Rightarrow> []
     | Some m \<Rightarrow> sort_by atom_less (remdups (
         if provider = ''imessage'' \<or> provider = ''whatsapp'' then
           concat (map (\<lambda>(h, _). add_atom u provider AtomHandle h) (metaPairs (map_of m ''participants'')))
         else
           concat (map (\<lambda>key. concat (map (add_atom u provider AtomAddress) (metaStrings (map_of m key))))
             [''from'', ''to'', ''cc'', ''attendees''])
           @ (case map_of m ''organizer'' of Some (AString org) \<Rightarrow> add_atom u provider AtomAddress org | _ \<Rightarrow> []))))"

definition parent_atom :: "unicode \<Rightarrow> string \<Rightarrow> string \<Rightarrow> string \<Rightarrow> atom list" where
  "parent_atom u provider kind value = (let value = NormalizeIdentity u kind value in
     if (kind = AtomHandle \<or> kind = AtomAddress) \<and> value \<noteq> []
     then [\<lparr>at_Provider = provider, at_Kind = kind, at_Value = value\<rparr>] else [])"

fun dedup_sorted :: "atom list \<Rightarrow> atom list \<Rightarrow> atom list" where
  \<comment> \<open>the loop over the sorted atoms; \<open>dedup\<close> is what was kept, last first\<close>
  "dedup_sorted dedup [] = rev dedup"
| "dedup_sorted dedup (a # as) =
     (if dedup \<noteq> [] \<and> at_Kind (hd dedup) = at_Kind a \<and> at_Value (hd dedup) = at_Value a
      then dedup_sorted dedup as else dedup_sorted (a # dedup) as)"

definition ParentContext :: "unicode \<Rightarrow> meta \<Rightarrow> string \<times> string \<times> atom list" where
  "ParentContext u meta = (case meta of None \<Rightarrow> ([], [], [])
     | Some m \<Rightarrow>
         (let provider = as_string (map_of m ParentProviderKey);
              stableID = as_string (map_of m ParentStableIDKey);
              row = (\<lambda>r. parent_atom u provider (field r ''kind'') (field r ''value''));
              atoms = (case map_of m ParentAtomsKey of
                  Some (AStringMaps rows) \<Rightarrow> concat (map row rows)
                | Some (AList rows) \<Rightarrow> concat (map (\<lambda>raw. case raw of
                      AMap r \<Rightarrow> parent_atom u provider (as_string (map_of r ''kind'')) (as_string (map_of r ''value''))
                    | AStringMap r \<Rightarrow> row r
                    | _ \<Rightarrow> []) rows)
                | _ \<Rightarrow> [])
          in (provider, stableID, dedup_sorted [] (sort_by atom_less atoms))))"

definition suppress_hit :: "unicode \<Rightarrow> string \<Rightarrow> string \<Rightarrow> meta \<Rightarrow> entry \<Rightarrow> bool" where
  \<comment> \<open>the body of the loop in \<open>DecideSuppress\<close>\<close>
  "suppress_hit u provider stableID meta e =
     (let item = ItemAtom provider stableID; cps = CounterpartyAtoms u provider meta;
          (pp, pid, pc) = ParentContext u meta; a = en_Atom e in
      if at_Kind a = AtomStableID then
        (ProviderMatches (at_Provider a) provider \<and> at_Value a = at_Value item)
        \<or> (pid \<noteq> [] \<and> ProviderMatches (at_Provider a) pp \<and> at_Value a = pid)
      else if at_Kind a = AtomHandle \<or> at_Kind a = AtomAddress then
        (length cps = 1 \<and> at_Kind (hd cps) = at_Kind a \<and> ProviderMatches (at_Provider a) provider
          \<and> at_Value (hd cps) = at_Value a)
        \<or> (length pc = 1 \<and> at_Kind (hd pc) = at_Kind a \<and> ProviderMatches (at_Provider a) pp
          \<and> at_Value (hd pc) = at_Value a)
      else False)"

definition DecideSuppress :: "unicode \<Rightarrow> ledger \<Rightarrow> string \<Rightarrow> string \<Rightarrow> meta \<Rightarrow> bool \<times> string" where
  "DecideSuppress u g provider stableID meta =
     (case find (suppress_hit u provider stableID meta) (ActiveSuppress g) of
        Some e \<Rightarrow> (True, en_ID e) | None \<Rightarrow> (False, []))"

record mapped_memory =
  mm_Provider :: string
  mm_StableID :: string
  mm_Meta :: meta

definition Suppresses :: "unicode \<Rightarrow> ledger \<Rightarrow> mapped_memory \<Rightarrow> bool \<times> string" where
  "Suppresses u g m = DecideSuppress u g (mm_Provider m) (mm_StableID m) (mm_Meta m)"

subsection \<open>Merges and brief lines\<close>

definition AtomPersonID :: "unicode \<Rightarrow> atom \<Rightarrow> string" where
  "AtomPersonID u a = (if (at_Kind a = AtomHandle \<or> at_Kind a = AtomAddress) \<and> at_Value a \<noteq> []
     then personID u (at_Value a) else [])"

definition MergePairKey :: "string \<Rightarrow> string \<Rightarrow> string" where
  "MergePairKey a b = (let (a, b) = (if b < a then (b, a) else (a, b)) in a @ [CHR 0x00] @ b)"

definition BriefLineDecisionKey :: "atom \<Rightarrow> atom \<Rightarrow> string" where
  "BriefLineDecisionKey a b = at_Provider a @ [CHR 0x00] @ at_Value a @ [CHR 0x00] @ at_Provider b
     @ [CHR 0x00] @ at_Kind b @ [CHR 0x00] @ at_Value b"

definition BriefLineDecisions :: "unicode \<Rightarrow> ledger \<Rightarrow> string \<rightharpoonup> string" where
  "BriefLineDecisions u g = foldl (\<lambda>out e.
     (case en_Atom2 e of None \<Rightarrow> out
      | Some a2 \<Rightarrow>
          if Revoked e \<or> en_Kind e \<noteq> KindRedact \<or> en_Action e \<noteq> ActionRecord then out
          else if at_Kind (en_Atom e) \<noteq> AtomStableID \<or> TrimSpace (at_Value (en_Atom e)) = [] then out
          else if at_Kind a2 \<noteq> AtomHandle \<and> at_Kind a2 \<noteq> AtomAddress then out
          else (let a = a2\<lparr>at_Value := NormalizeIdentity u (at_Kind a2) (at_Value a2)\<rparr> in
            if at_Value a = [] \<or> (en_Decision e \<noteq> DecisionConfirm \<and> en_Decision e \<noteq> DecisionReject) then out
            else out(BriefLineDecisionKey (en_Atom e) a \<mapsto> en_Decision e)))) Map.empty (lg_Entries g)"

definition ActiveMergeConfirms :: "ledger \<Rightarrow> entry list" where
  "ActiveMergeConfirms g =
     filter (\<lambda>e. \<not> Revoked e \<and> en_Kind e = KindMergeConfirm \<and> en_Atom2 e \<noteq> None) (lg_Entries g)"

record confirmed_merge =
  cm_A :: string
  cm_B :: string
  cm_GovID :: string

definition merge_less :: "confirmed_merge \<Rightarrow> confirmed_merge \<Rightarrow> bool" where
  "merge_less x y \<longleftrightarrow> (if cm_A x \<noteq> cm_A y then cm_A x < cm_A y else cm_B x < cm_B y)"

definition merge_row :: "unicode \<Rightarrow> entry \<Rightarrow> (string \<times> string \<times> confirmed_merge) option" where
  \<comment> \<open>the key an entry writes, its verdict, and the pair with the deciding entry\<close>
  "merge_row u e = (let a = AtomPersonID u (en_Atom e); b = AtomPersonID u (the (en_Atom2 e)) in
     if a = [] \<or> b = [] \<or> a = b then None
     else Some (MergePairKey a b, en_Decision e, \<lparr>cm_A = a, cm_B = b, cm_GovID = en_ID e\<rparr>))"

definition merge_rows :: "unicode \<Rightarrow> entry list \<Rightarrow> (string \<times> string \<times> confirmed_merge) list" where
  \<comment> \<open>the maps \<open>verdict\<close>, \<open>ids\<close> and \<open>gov\<close>, which are written together, as one association list\<close>
  "merge_rows u es = foldl (\<lambda>rows e. case merge_row u e of None \<Rightarrow> rows
     | Some (k, v) \<Rightarrow> AList.update k v rows) [] es"

definition MergeDecisions :: "unicode \<Rightarrow> ledger \<Rightarrow> confirmed_merge list \<times> string list" where
  \<comment> \<open>the second component is the set \<open>decided\<close>\<close>
  "MergeDecisions u g = (let rows = merge_rows u (ActiveMergeConfirms g) in
     (sort_by merge_less (map (snd \<circ> snd) (filter (\<lambda>(k, d, m). d = DecisionConfirm) rows)), map fst rows))"

subsection \<open>Teaching and consent\<close>

definition teachMemoryDecisionValid :: "string \<Rightarrow> bool" where
  "teachMemoryDecisionValid d \<longleftrightarrow> d = ''correct'' \<or> d = ''supersede'' \<or> d = ''retract''"

definition teachCommitmentDecisionValid :: "string \<Rightarrow> bool" where
  "teachCommitmentDecisionValid d \<longleftrightarrow> d = ''not_a_commitment'' \<or> d = ''wrong_person''
     \<or> d = ''wrong_direction'' \<or> d = ''already_closed'' \<or> d = ''duplicate'' \<or> d = ''useful''"

definition teach_sets :: "entry list \<Rightarrow> string set \<times> string set \<times> string set" where
  \<comment> \<open>\<open>hidden\<close>, \<open>ever\<close> and \<open>active\<close> after the loop\<close>
  "teach_sets es = foldl (\<lambda>(hidden, ever, active) e.
     if en_Kind e \<noteq> KindTeachMemory \<or> en_Action e \<noteq> ActionRecord \<or> \<not> teachMemoryDecisionValid (en_Decision e)
     then (hidden, ever, active)
     else (let ever = (if en_ReplacementID e \<noteq> [] then insert (en_ReplacementID e) ever else ever) in
       if Revoked e then (hidden, ever, active)
       else (if en_TargetID e \<noteq> [] then insert (en_TargetID e) hidden else hidden, ever,
             if en_ReplacementID e \<noteq> [] then insert (en_ReplacementID e) active else active))) ({}, {}, {}) es"

definition MemoryVisible :: "ledger \<Rightarrow> string \<Rightarrow> bool" where
  "MemoryVisible g i = (let (hidden, ever, active) = teach_sets (lg_Entries g) in
     i \<notin> hidden \<and> (i \<notin> ever \<or> i \<in> active))"

definition TeachingEntries :: "ledger \<Rightarrow> entry list" where
  "TeachingEntries g = filter (\<lambda>e. en_Kind e = KindTeachCommitment \<or> en_Kind e = KindTeachMemory
     \<or> en_Kind e = KindEvalConsent) (lg_Entries g)"

definition EvalConsentEnabled :: "ledger \<Rightarrow> bool" where
  "EvalConsentEnabled g = foldl (\<lambda>enabled e.
     if Revoked e \<or> en_Kind e \<noteq> KindEvalConsent \<or> en_Action e \<noteq> ActionRecord then enabled
     else if en_Decision e = ''enable'' then True
     else if en_Decision e = ''disable'' then False
     else enabled) False (lg_Entries g)"

definition ActiveTeachCommitments :: "ledger \<Rightarrow> entry list" where
  "ActiveTeachCommitments g = filter (\<lambda>e. \<not> Revoked e \<and> en_Kind e = KindTeachCommitment
     \<and> en_Action e = ActionRecord \<and> teachCommitmentDecisionValid (en_Decision e)) (lg_Entries g)"

end
