(* ===== verification/LeaseLaw.thy ===== *)
theory LeaseLaw
  imports LeaseFile
begin

text \<open>
  The contract between a lease file and the code that works under it. The provider promises that
  publishing succeeds only on a free file and that breaking removes the very bytes it was given
  or nothing; from that the client gets that no two holders of a fresh lease are ever about. The
  client's view is a function from its processes to the bytes each holds.
\<close>

definition lease_ok :: "('p \<Rightarrow> string option) \<Rightarrow> (string \<Rightarrow> bool) \<Rightarrow> string option \<Rightarrow> bool" where
  "lease_ok held fresh c \<longleftrightarrow> (\<forall>p b. held p = Some b \<longrightarrow> fresh b \<longrightarrow>
     c = Some b \<and> (\<forall>q. q \<noteq> p \<longrightarrow> held q \<noteq> Some b))"

lemma lease_okD:
  "lease_ok held fresh c \<Longrightarrow> held p = Some b \<Longrightarrow> fresh b \<Longrightarrow> c = Some b"
  "lease_ok held fresh c \<Longrightarrow> held p = Some b \<Longrightarrow> fresh b \<Longrightarrow> held q = Some b \<Longrightarrow> q = p"
  unfolding lease_ok_def by blast+

lemma lease_ok_ages: "lease_ok held fresh c \<Longrightarrow> (\<And>b. fresh' b \<Longrightarrow> fresh b) \<Longrightarrow> lease_ok held fresh' c"
  by (auto simp: lease_ok_def)

lemma lease_ok_drop: "lease_ok held fresh c \<Longrightarrow> lease_ok (held(p := None)) fresh c"
  by (auto simp: lease_ok_def)

locale lease_contract =
  fixes content :: "'d \<Rightarrow> string option"
    and publish :: "'io \<Rightarrow> string \<Rightarrow> 'd \<Rightarrow> ((bool \<times> 'e) \<times> 'd) option"
    and break_lease :: "'io \<Rightarrow> string \<Rightarrow> 'd \<Rightarrow> ((bool \<times> 'e) \<times> 'd) option"
  assumes publish_yes: "publish io b d = Some ((True, e), d') \<Longrightarrow> content d = None \<and> content d' = Some b"
    and publish_no: "publish io b d = Some ((False, e), d') \<Longrightarrow> content d' = content d"
    and break_own: "break_lease io b d = Some ((gone, e), d') \<Longrightarrow>
      content d' = content d \<or> content d = Some b \<and> content d' = None"
begin

lemma nobody_fresh:
  assumes "lease_ok held fresh (content d)" "publish io b d = Some ((True, e), d')" "held p = Some b'"
  shows "\<not> fresh b'"
  using assms publish_yes lease_okD(1) by fastforce

lemma taken:
  assumes "lease_ok held fresh (content d)" "publish io b d = Some ((True, e), d')"
  shows "lease_ok (held(p := Some b)) fresh (content d')"
  using publish_yes [OF assms(2)] nobody_fresh [OF assms] by (auto simp: lease_ok_def)

lemma published:
  assumes "lease_ok held fresh (content d)" "publish io b d = Some ((yes, e), d')"
  shows "lease_ok held fresh (content d')"
  using assms nobody_fresh [OF assms(1)] publish_no by (cases yes) (auto simp: lease_ok_def)

lemma stale_broken:
  assumes "lease_ok held fresh (content d)" "break_lease io b d = Some ((gone, e), d')" "\<not> fresh b"
  shows "lease_ok held fresh (content d')"
  using assms break_own [OF assms(2)] by (auto simp: lease_ok_def)

lemma given_back:
  assumes "lease_ok held fresh (content d)" "break_lease io b d = Some ((gone, e), d')" "held p = Some b"
  shows "lease_ok (held(p := None)) fresh (content d')"
  using assms(1) break_own [OF assms(2)] lease_okD(2) [OF assms(1) _ _ assms(3)]
  by (auto simp: lease_ok_def dest: lease_okD(1) [OF assms(1)])

lemma exclusive:
  assumes "lease_ok held fresh (content d)" "held p = Some b" "held q = Some b'" "fresh b" "fresh b'"
  shows "p = q"
  using assms lease_okD by (metis option.inject)

end

interpretation lease: lease_contract ld_lease "\<lambda>(io, e, o1). Publish io"
  "\<lambda>(io, e, o1). Break io e o1"
  by unfold_locales (auto dest!: Publish_cases Break_effect)

text \<open>The rules on the operations themselves.\<close>

lemmas lease_taken = lease.taken [where io = "(io, e, o1)" for io e o1, simplified]
lemmas lease_published = lease.published [where io = "(io, e, o1)" for io e o1, simplified]
lemmas lease_stale_broken = lease.stale_broken [where io = "(io, e, o1)" for io e o1, simplified]
lemmas lease_given_back = lease.given_back [where io = "(io, e, o1)" for io e o1, simplified]

end
