(* ===== verification/GovernanceSteps.thy ===== *)
theory GovernanceSteps
  imports GovernanceStore LeaseLaw
begin

text \<open>
  Many processes on one governance ledger. A process stamps its lease with the clock when it
  starts, tries to publish it, may find another's bytes stale and break them, and once it holds
  the lease reads the ledger, saves it changed and gives the lease back; it may die anywhere.
  Each step is one call of the store or of the lease file, so the steps of different processes
  interleave as the calls do, and each meets whatever the filesystem answers. \<open>late\<close> says
  whether a process may save after its own lease has gone stale; the log records the saves that
  succeeded.
\<close>

datatype intent = ToAppend entry | ToRevoke string

datatype phase =
    Idle
  | Trying intent instant
  | Reaping intent instant string
  | Holding intent string
  | Loaded intent string ledger
  | Leaving string

datatype commit = Appended entry | Withdrawn string string

record 'p ledger_system =
  sy_vault :: vault
  sy_clock :: instant
  sy_phase :: "'p \<Rightarrow> phase"
  sy_log :: "commit list"

fun held_by :: "phase \<Rightarrow> string option" where
  "held_by (Holding i b) = Some b"
| "held_by (Loaded i b g) = Some b"
| "held_by (Leaving b) = Some b"
| "held_by _ = None"

fun apply_commit :: "entry list \<Rightarrow> commit \<Rightarrow> entry list" where
  "apply_commit es (Appended e) = es @ [e]"
| "apply_commit es (Withdrawn id1 stamp) = snd (revoke_entries id1 stamp es)"

definition ledger_entries :: "vault \<Rightarrow> entry list option" where
  \<comment> \<open>what a reader of the file gets; \<open>None\<close> from a corrupt file\<close>
  "ledger_entries v = (case Load None v of Inl _ \<Rightarrow> None | Inr g \<Rightarrow> Some (lg_Entries g))"

definition go :: "'p \<Rightarrow> phase \<Rightarrow> 'p ledger_system \<Rightarrow> 'p ledger_system" where
  "go p ph s = s\<lparr>sy_phase := (sy_phase s)(p := ph)\<rparr>"

inductive ledger_step ::
  "(string \<Rightarrow> lease_body option) \<Rightarrow> ('p \<Rightarrow> int) \<Rightarrow> ('p \<Rightarrow> store) \<Rightarrow> bool
    \<Rightarrow> 'p ledger_system \<Rightarrow> 'p ledger_system \<Rightarrow> bool"
  for unmarshal pid st late where
  tick: "sy_clock s \<le> t \<Longrightarrow> ledger_step unmarshal pid st late s (s\<lparr>sy_clock := t\<rparr>)"
| start: "sy_phase s p = Idle \<Longrightarrow> ledger_step unmarshal pid st late s (go p (Trying i (sy_clock s)) s)"
| publish: "sy_phase s p = Trying i now \<Longrightarrow>
     Publish io (lease_text (pid p) now) (sy_vault s) = Some ((yes, err), v) \<Longrightarrow>
     ph = (if err \<noteq> None then Idle else if yes then Holding i (lease_text (pid p) now) else Trying i now) \<Longrightarrow>
     ledger_step unmarshal pid st late s (go p ph (s\<lparr>sy_vault := v\<rparr>))"
| retry: "sy_phase s p = Trying i now \<Longrightarrow>
     Publish io (lease_text (pid p) now) (sy_vault s) = Some ((yes, Some err), v) \<Longrightarrow>
     ledger_step unmarshal pid st late s (s\<lparr>sy_vault := v\<rparr>)"
| probe: "sy_phase s p = Trying i now \<Longrightarrow> read_lease fault (sy_vault s) = Inr data \<Longrightarrow>
     lease_stale unmarshal now LeaseTTL data \<Longrightarrow>
     ledger_step unmarshal pid st late s (go p (Reaping i now data) s)"
| reap: "sy_phase s p = Reaping i now data \<Longrightarrow> Break io e o1 data (sy_vault s) = Some ((gone, err), v) \<Longrightarrow>
     ph = Trying i now \<or> ph = Idle \<Longrightarrow>
     ledger_step unmarshal pid st late s (go p ph (s\<lparr>sy_vault := v\<rparr>))"
| load: "sy_phase s p = Holding i b \<Longrightarrow> Load fault (sy_vault s) = r \<Longrightarrow>
     ph = (case r of Inl _ \<Rightarrow> Leaving b | Inr g \<Rightarrow> Loaded i b g) \<Longrightarrow>
     ledger_step unmarshal pid st late s (go p ph s)"
| append: "sy_phase s p = Loaded (ToAppend x) b g \<Longrightarrow> late \<or> \<not> lease_stale unmarshal (sy_clock s) LeaseTTL b \<Longrightarrow>
     AppendLocked (st p) (sy_clock s) fault g x (sy_vault s) = (r, v) \<Longrightarrow>
     ledger_step unmarshal pid st late s (go p (Leaving b) (s\<lparr>sy_vault := v,
       sy_log := sy_log s @ (case r of Inl _ \<Rightarrow> [] | Inr e \<Rightarrow> [Appended e])\<rparr>))"
| revoke: "sy_phase s p = Loaded (ToRevoke id1) b g \<Longrightarrow> late \<or> \<not> lease_stale unmarshal (sy_clock s) LeaseTTL b \<Longrightarrow>
     stamp = local_rfc3339 (st_zone (st p)) (sy_clock s) \<Longrightarrow>
     revoke_entries id1 stamp (lg_Entries g) = (True, es) \<Longrightarrow>
     Save fault (g\<lparr>lg_Entries := es\<rparr>) (sy_vault s) = (err, v) \<Longrightarrow>
     ledger_step unmarshal pid st late s (go p (Leaving b) (s\<lparr>sy_vault := v,
       sy_log := sy_log s @ (if err = None then [Withdrawn id1 stamp] else [])\<rparr>))"
| not_found: "sy_phase s p = Loaded (ToRevoke id1) b g \<Longrightarrow>
     \<not> fst (revoke_entries id1 stamp (lg_Entries g)) \<Longrightarrow>
     ledger_step unmarshal pid st late s (go p (Leaving b) s)"
| release: "sy_phase s p = Leaving b \<Longrightarrow> Releaser io e o1 b (False, sy_vault s) = Some (True, v) \<Longrightarrow>
     ledger_step unmarshal pid st late s (go p Idle (s\<lparr>sy_vault := v\<rparr>))"
| crash: "ledger_step unmarshal pid st late s (go p Idle s)"

subsection \<open>Time and staleness\<close>

lemma stale_later: "lease_stale unmarshal now ttl b \<Longrightarrow> now \<le> t \<Longrightarrow> lease_stale unmarshal t ttl b"
  by (auto simp: lease_stale_def time_sub_def split: option.splits if_splits)

subsection \<open>The invariant\<close>

definition holders :: "'p ledger_system \<Rightarrow> 'p \<Rightarrow> string option" where
  "holders s p = held_by (sy_phase s p)"

definition fresh :: "(string \<Rightarrow> lease_body option) \<Rightarrow> 'p ledger_system \<Rightarrow> string \<Rightarrow> bool" where
  "fresh unmarshal s b \<longleftrightarrow> \<not> lease_stale unmarshal (sy_clock s) LeaseTTL b"

fun stamped :: "(string \<Rightarrow> lease_body option) \<Rightarrow> instant \<Rightarrow> phase \<Rightarrow> bool" where
  \<comment> \<open>a process's stamp is not ahead of the clock, and what it means to break was stale then\<close>
  "stamped unmarshal c (Trying i now) = (now \<le> c)"
| "stamped unmarshal c (Reaping i now data) = (now \<le> c \<and> lease_stale unmarshal now LeaseTTL data)"
| "stamped unmarshal c _ = True"

definition current :: "vault \<Rightarrow> phase \<Rightarrow> bool" where
  \<comment> \<open>the ledger a process has read is the one on disk\<close>
  "current v ph = (case ph of Loaded i b g \<Rightarrow> Load None v = Inr g | _ \<Rightarrow> True)"

definition orderly :: "(string \<Rightarrow> lease_body option) \<Rightarrow> 'p ledger_system \<Rightarrow> bool" where
  "orderly unmarshal s \<longleftrightarrow> lease_ok (holders s) (fresh unmarshal s) (ld_lease (sy_vault s))
     \<and> (\<forall>p. stamped unmarshal (sy_clock s) (sy_phase s p))
     \<and> (\<forall>p b. held_by (sy_phase s p) = Some b \<longrightarrow> fresh unmarshal s b \<longrightarrow> current (sy_vault s) (sy_phase s p))"

lemma go_simps [simp]:
  "sy_vault (go p ph s) = sy_vault s" "sy_clock (go p ph s) = sy_clock s" "sy_log (go p ph s) = sy_log s"
  "sy_phase (go p ph s) = (sy_phase s)(p := ph)" "fresh unmarshal (go p ph s) = fresh unmarshal s"
  "holders (go p ph s) = (holders s)(p := held_by ph)"
  by (auto simp: go_def fresh_def holders_def)

lemma fresh_frame [simp]:
  "fresh unmarshal (s\<lparr>sy_vault := v\<rparr>) = fresh unmarshal s" "fresh unmarshal (s\<lparr>sy_log := l\<rparr>) = fresh unmarshal s"
  "holders (s\<lparr>sy_vault := v\<rparr>) = holders s" "holders (s\<lparr>sy_log := l\<rparr>) = holders s"
  "holders (s\<lparr>sy_clock := t\<rparr>) = holders s"
  by (auto simp: fresh_def holders_def)

end
