(* ===== verification/LeaseClaims.thy ===== *)
theory LeaseClaims
  imports LeaseFile
begin

text \<open>
  What the lease file promises: the removal loop returns, and a transition changes the lease
  only in the way its caller may rely on.
\<close>

subsection \<open>The removal loop returns\<close>

definition keeps_time :: "(nat \<Rightarrow> instant) \<Rightarrow> (nat \<Rightarrow> duration) \<Rightarrow> bool" where
  \<comment> \<open>the clock never runs back, and \<open>Sleep(d)\<close> lasts at least \<open>d\<close>: the readings of attempt \<open>n\<close>
      before and after its sleep are the ones at \<open>2n + 1\<close> and \<open>2n + 2\<close>\<close>
  "keeps_time now backoff \<longleftrightarrow> (\<forall>n. now n \<le> now (Suc n)) \<and> (\<forall>n. now (2 * n + 1) + backoff n \<le> now (2 * n + 2))"

lemma keeps_time_progress:
  assumes "keeps_time now backoff" "\<And>n. millisecond \<le> backoff n"
  shows "now 0 + int n * millisecond \<le> now (2 * n)"
proof (induction n)
  case (Suc n)
  have "now (2 * n) \<le> now (2 * n + 1)" "now (2 * n + 1) + backoff n \<le> now (2 * n + 2)"
    using assms(1) by (simp_all add: keeps_time_def)
  moreover have "2 * Suc n = 2 * n + 2" by simp
  ultimately show ?case using Suc assms(2) [of n] by (simp add: distrib_right)
qed simp

lemma remove_attempts_return:
  assumes "keeps_time now backoff" "\<And>n. millisecond \<le> backoff n"
    "deadline \<le> now 0 + int N * millisecond" "n < N" "\<And>k. k < N \<Longrightarrow> fault' k = fault k"
  shows "(\<exists>r. remove_attempts retryable backoff now fault deadline n d = Some r)
     \<and> remove_attempts retryable backoff now fault' deadline n d
       = remove_attempts retryable backoff now fault deadline n d"
  using assms(4)
proof (induction "N - n" arbitrary: n d)
  case (Suc m)
  have f: "fault' n = fault n" using assms(5) Suc.prems by simp
  obtain x d' where x: "os_Remove_lease (fault n) d = (x, d')" by force
  show ?case
  proof (cases "now (2 * n + 2) < deadline")
    case True
    have "now 0 + int (Suc n) * millisecond \<le> now (2 * n + 2)"
      using keeps_time_progress [OF assms(1,2), of "Suc n"] by simp
    with True assms(3) have "int (Suc n) * millisecond < int N * millisecond" by linarith
    then have "Suc n < N" by (simp add: millisecond_def)
    with Suc.hyps(1) [of "Suc n"] Suc.hyps(2) show ?thesis
      by (subst (1 2 3) remove_attempts.simps) (auto simp: x f split: option.split)
  next
    case False
    then show ?thesis
      by (subst (1 2 3) remove_attempts.simps) (auto simp: x f split: option.split)
  qed
qed simp

lemma defaultBackoff_positive: "millisecond \<le> defaultBackoff rand n"
  by (simp add: defaultBackoff_def Let_def millisecond_def)

lemma removal_returns_both:
  assumes "keeps_time (re_now e) (defaultBackoff (re_rand e))"
    and "\<And>k. k < 500 \<Longrightarrow> gi_remove io' k = gi_remove io k"
  shows "\<exists>err d'. removeGuarded io e (DefaultRemovalOptions e) d = Some (err, d')
     \<and> removeGuarded io' e (DefaultRemovalOptions e) d = Some (err, d')
     \<and> (d' = d \<or> err = None \<and> d' = d\<lparr>ld_lease := None\<rparr>)"
proof -
  have "re_now e 0 + RemovalTimeout \<le> re_now e 0 + int 500 * millisecond"
    by (simp add: RemovalTimeout_def)
  from remove_attempts_return [OF assms(1) defaultBackoff_positive this _ _, where n = 0 and fault = "gi_remove io"
      and fault' = "gi_remove io'" and d = d and retryable = "re_sharing e"] assms(2)
  obtain r where "removeGuarded io e (DefaultRemovalOptions e) d = Some r"
    "removeGuarded io' e (DefaultRemovalOptions e) d = Some r"
    unfolding removeGuarded_def Let_def
    by (simp add: normalizeRemoval_def DefaultRemovalOptions_def RemovalTimeout_def millisecond_def) metis
  with removeGuarded_effect [of io e _ d "fst r" "snd r"] show ?thesis by (cases r) auto
qed

lemmas default_removal_returns = removal_returns_both [where io' = io and io = io for io, OF _ refl]

text \<open>C26: With the options the program uses, removing a lease file returns: whatever the
  filesystem answers, if the clock does not run back and a sleep lasts as long as it was asked
  to, the loop makes at most 500 attempts (what the filesystem would answer later is never
  asked for), and it gives either an error with the file as it was, or no error with the file
  as it was or gone.\<close>

theorem removal_returns:
  assumes "keeps_time (re_now e) (defaultBackoff (re_rand e))"
    and "\<And>k. k < 500 \<Longrightarrow> gi_remove io' k = gi_remove io k"
  shows "\<exists>err d'. removeGuarded io e (DefaultRemovalOptions e) d = Some (err, d')
     \<and> removeGuarded io' e (DefaultRemovalOptions e) d = Some (err, d')
     \<and> (d' = d \<or> err = None \<and> d' = d\<lparr>ld_lease := None\<rparr>)"
  using removal_returns_both [OF assms] .

subsection \<open>A lease that is not yours\<close>

text \<open>C27: A fresh lease of another run stands. While the lease file holds bytes that name a run other
  than the caller's and that are not stale, publishing over it fails, a sweep does not break it, a
  heartbeat does not renew it in the caller's name and a release by the caller leaves it: each of
  these gives the file back as it was.\<close>

theorem other_lease_stands:
  assumes "ld_lease d = Some b" "unmarshal b = Some x" "lb_RunID x \<noteq> []" "lb_RunID x \<noteq> owner"
    and "\<not> lease_stale unmarshal now ttl b"
  shows "(Publish io body d = Some ((yes, err), d1) \<longrightarrow> \<not> yes \<and> d1 = d)
    \<and> (Reap unmarshal probe io e o1 now ttl d = Some (r, d2) \<longrightarrow> d2 = d)
    \<and> (Heartbeat unmarshal io owner t d = Some (owned, d3) \<longrightarrow> \<not> owned \<and> d3 = d)
    \<and> (Release unmarshal io e o1 owner d = Some d4 \<longrightarrow> d4 = d)"
proof (intro conjI impI)
  assume "Publish io body d = Some ((yes, err), d1)"
  from Publish_cases [OF this] assms(1) show "\<not> yes" "d1 = d" by auto
next
  have rd: "read_lease f d = Inr b \<or> (\<exists>err. f = Some err \<and> read_lease f d = Inl err)" for f
    using assms(1) by (cases f) (simp_all add: read_lease_def)
  { assume "Reap unmarshal probe io e o1 now ttl d = Some (r, d2)"
    then show "d2 = d" using rd [of probe] assms(5) by (auto simp: Reap_def split: if_splits) }
  { assume "Heartbeat unmarshal io owner t d = Some (owned, d3)"
    then show "\<not> owned" "d3 = d" using rd [of "gi_read io"] assms(2,4)
      by (auto simp: Heartbeat_def WithGuard_def bind_eq_Some_conv split: option.splits) }
  { assume "Release unmarshal io e o1 owner d = Some d4"
    then show "d4 = d" using rd [of "gi_read io"] assms(2-4)
      by (auto simp: Release_def WithGuard_def bind_eq_Some_conv split: option.splits) }
qed

subsection \<open>Examples\<close>

definition busy_env :: removal_env where
  \<comment> \<open>a clock that advances 32 ms between readings, and errors that may be retried\<close>
  "busy_env = \<lparr>re_now = (\<lambda>n. int n * 32 * millisecond), re_rand = (\<lambda>_. 0), re_sharing = (\<lambda>_. True)\<rparr>"

definition busy_io :: guard_io where
  "busy_io = guard_io_ok\<lparr>gi_remove := (\<lambda>_. Some (OtherError ''busy''))\<rparr>"

lemma busy_keeps_time: "keeps_time (re_now busy_env) (defaultBackoff (re_rand busy_env))"
proof -
  have "int (2 * n + 1) * 32 * 1000000 + 1000000 \<le> int (2 * n + 2) * 32 * 1000000" for n by simp
  then show ?thesis
    by (simp add: keeps_time_def busy_env_def defaultBackoff_def millisecond_def Let_def distrib_right)
qed

theorem removal_returns_witness:
  "\<exists>r. removeGuarded busy_io busy_env (DefaultRemovalOptions busy_env) \<lparr>ld_lease = Some ''x''\<rparr> = Some r"
  using removal_returns [OF busy_keeps_time, of busy_io busy_io "\<lparr>ld_lease = Some ''x''\<rparr>"] by blast

definition example_unmarshal :: "string \<Rightarrow> lease_body option" where
  \<comment> \<open>reads the stamp, the twenty bytes before the closing quote and brace, and one run's name\<close>
  "example_unmarshal b = Some \<lparr>lb_RunID = ''run'', lb_PID = 7, lb_AcquiredAt = rev (take 20 (drop 2 (rev b)))\<rparr>"

lemma example_not_stale:
  "\<not> lease_stale example_unmarshal 0 (30 * second) (x @ ''1970-01-01T00:00:00Z\"}'')"
proof -
  have "parse_rfc3339 ''1970-01-01T00:00:00Z'' = Some 0" by code_simp
  then show ?thesis by (simp add: lease_stale_def example_unmarshal_def time_sub_def second_def)
qed

definition example_lease :: string where
  "example_lease = ''{\"acquired_at\":\"'' @ ''1970-01-01T00:00:00Z\"}''"

theorem other_lease_stands_witness:
  "\<exists>r d1. Publish guard_io_ok ''mine'' \<lparr>ld_lease = Some example_lease\<rparr> = Some (r, d1) \<and> \<not> fst r"
proof -
  let ?d = "\<lparr>ld_lease = Some example_lease\<rparr>"
  obtain x where x: "example_unmarshal example_lease = Some x" "lb_RunID x \<noteq> []" "lb_RunID x \<noteq> ''me''"
    by (simp add: example_unmarshal_def)
  have "\<not> lease_stale example_unmarshal 0 (30 * second) example_lease"
    unfolding example_lease_def by (rule example_not_stale)
  note stands = other_lease_stands [OF _ x this, of ?d]
  obtain yes err d1 where "Publish guard_io_ok ''mine'' ?d = Some ((yes, err), d1)"
    using Publish_returns by (metis surj_pair)
  then show ?thesis using stands [of guard_io_ok "''mine''" yes err d1] by simp
qed

end
