(* ===== verification/GovernanceClaims.thy ===== *)
theory GovernanceClaims
  imports GovernanceSteps LeaseClaims
begin

text \<open>
  The governance ledger is atomic: under the lease, whatever the processes do and whatever the
  filesystem answers, the ledger file is what the successful saves make of it one after the
  other. The invariant of every step is \<open>orderly\<close>; the lease part of it is the contract of
  LeaseLaw.
\<close>

lemma Load_frame [simp]: "Load f (v\<lparr>ld_lease := x\<rparr>) = Load f v"
  by (simp add: Load_def split: option.split)

lemma Publish_vault: "Publish io b v = Some ((yes, err), v') \<Longrightarrow> Load f v' = Load f v"
  by (auto dest!: Publish_cases)

lemma Break_vault: "Break io e o1 b v = Some ((gone, err), v') \<Longrightarrow> Load f v' = Load f v"
  by (auto dest!: Break_effect)

lemma Releaser_runs:
  assumes "Releaser io e o1 b (False, v) = Some (x, v')"
  obtains gone err where "Break io e o1 b v = Some ((gone, err), v')"
  using assms by (auto simp: Releaser_def bind_eq_Some_conv)

lemma Save_lease: "Save fault g v = (err, v') \<Longrightarrow> ld_lease v' = ld_lease v"
  by (auto simp: Save_def Let_def split: option.splits)

lemma Save_loads:
  assumes "Save fault g v = (err, v')"
  shows "err \<noteq> None \<Longrightarrow> v' = v" "err = None \<Longrightarrow> \<exists>g'. Load None v' = Inr g' \<and> lg_Entries g' = lg_Entries g"
  using assms by (auto simp: Save_def Load_def Let_def split: option.splits)

lemma current_frame: "(\<And>f. Load f v' = Load f v) \<Longrightarrow> current v' ph = current v ph"
  by (simp add: current_def split: phase.split)

text \<open>A step that leaves the ledger alone, changes the phase of one process and keeps the lease
  contract keeps the invariant.\<close>

lemma orderly_go:
  assumes "orderly unmarshal s"
    and "lease_ok ((holders s)(p := held_by ph)) (fresh unmarshal s) (ld_lease v)"
    and "\<And>f. Load f v = Load f (sy_vault s)"
    and "stamped unmarshal (sy_clock s) ph"
    and "\<And>b. held_by ph = Some b \<Longrightarrow> fresh unmarshal s b \<Longrightarrow> current (sy_vault s) ph"
  shows "orderly unmarshal (go p ph (s\<lparr>sy_vault := v\<rparr>))"
  using assms unfolding orderly_def by (auto simp: current_frame [OF assms(3)])

lemma orderly_free:
  assumes "orderly unmarshal s" "held_by ph = None" "stamped unmarshal (sy_clock s) ph"
  shows "orderly unmarshal (go p ph s)"
  using orderly_go [OF assms(1), of p ph "sy_vault s"] assms by (simp add: orderly_def lease_ok_drop)

lemma orderly_same_bytes:
  assumes "orderly unmarshal s" "held_by (sy_phase s p) = Some b" "held_by ph = Some b"
    "fresh unmarshal s b \<Longrightarrow> current (sy_vault s) ph" "stamped unmarshal (sy_clock s) ph"
  shows "orderly unmarshal (go p ph s)"
proof -
  have "(holders s)(p := Some b) = holders s" using assms(2) by (auto simp: holders_def)
  then show ?thesis
    using orderly_go [OF assms(1), of p ph "sy_vault s"] assms by (simp add: orderly_def)
qed

lemma orderly_save:
  assumes "orderly unmarshal s" "sy_phase s p = Loaded i b g" "fresh unmarshal s b" "ld_lease v = ld_lease (sy_vault s)"
  shows "orderly unmarshal (go p (Leaving b) (s\<lparr>sy_vault := v, sy_log := l\<rparr>))"
proof -
  have h: "holders s p = Some b" using assms(2) by (simp add: holders_def)
  then have "(holders s)(p := Some b) = holders s" by auto
  moreover have "q = p" if "held_by (sy_phase s q) = Some b'" "fresh unmarshal s b'" for q b'
    using lease.exclusive [of "holders s" "fresh unmarshal s" "sy_vault s" q b' p b] that h assms(1,3)
    by (simp add: orderly_def holders_def)
  ultimately show ?thesis
    using assms(1,4) unfolding orderly_def by (auto simp: current_def)
qed

lemma orderly_step:
  assumes "ledger_step unmarshal pid st False s s'" "orderly unmarshal s"
  shows "orderly unmarshal s'"
proof -
  have ok: "lease_ok (holders s) (fresh unmarshal s) (ld_lease (sy_vault s))"
    using assms(2) by (simp add: orderly_def)
  show ?thesis
    using assms(1)
proof cases
  case (tick t)
  have "fresh unmarshal s b" if "fresh unmarshal (s\<lparr>sy_clock := t\<rparr>) b" for b
    using that stale_later [OF _ tick(2)] by (auto simp: fresh_def)
  moreover have "stamped unmarshal t ph" if "stamped unmarshal (sy_clock s) ph" for ph
    using that tick(2) by (cases ph) auto
  moreover have "lease_ok (holders s) (fresh unmarshal (s\<lparr>sy_clock := t\<rparr>)) (ld_lease (sy_vault s))"
    using assms(2) lease_ok_ages calculation(1) by (auto simp: orderly_def)
  ultimately show ?thesis using assms(2) by (simp add: tick(1) orderly_def)
next
  case (start p i)
  then show ?thesis using orderly_free [OF assms(2)] by simp
next
  case (publish p i now io yes err v ph)
  have st: "stamped unmarshal (sy_clock s) (Trying i now)" using assms(2) publish(2) by (metis orderly_def)
  note pub = lease_published [OF ok publish(3)] lease_taken [OF ok, where d' = v and p = p]
  show ?thesis
  proof (cases "err = None \<and> yes")
    case True
    then show ?thesis
      using orderly_go [OF assms(2), of p ph v] pub(2) publish Publish_vault [OF publish(3)] by (simp add: current_def)
  next
    case False
    then have "held_by ph = None" "stamped unmarshal (sy_clock s) ph" using publish(4) st by auto
    then show ?thesis unfolding publish(1)
      using orderly_go [OF assms(2), of p ph v] lease_ok_drop [OF pub(1)] Publish_vault [OF publish(3)] by simp
  qed
next
  case (retry p i now io yes err v)
  have "lease_ok (holders s) (fresh unmarshal s) (ld_lease v)"
    using lease_published [OF ok retry(3)] .
  then show ?thesis unfolding retry(1)
    using assms(2) current_frame [OF Publish_vault [OF retry(3)]] by (auto simp: orderly_def)
next
  case (probe p i now fault data)
  then have "stamped unmarshal (sy_clock s) (Trying i now)" using assms(2) by (metis orderly_def)
  then show ?thesis unfolding probe(1) by (intro orderly_free [OF assms(2)]) (use probe(4) in auto)
next
  case (reap p i now data io e o1 gone err v ph)
  then have st: "stamped unmarshal (sy_clock s) (Reaping i now data)" using assms(2) by (metis orderly_def)
  then have "\<not> fresh unmarshal s data" by (auto simp: fresh_def intro: stale_later)
  then have "lease_ok (holders s) (fresh unmarshal s) (ld_lease v)"
    using lease_stale_broken [OF ok reap(3)] by simp
  from lease_ok_drop [OF this, of p] have "lease_ok ((holders s)(p := None)) (fresh unmarshal s) (ld_lease v)" .
  moreover have "held_by ph = None" "stamped unmarshal (sy_clock s) ph" using reap(4) st by auto
  ultimately show ?thesis unfolding reap(1)
    using orderly_go [OF assms(2), of p ph v] Break_vault [OF reap(3)] by auto
next
  case (load p i b fault r ph)
  have "current (sy_vault s) ph"
    using load(3,4) by (auto simp: current_def Load_def split: sum.splits option.splits)
  then show ?thesis unfolding load(1)
    using load(2,4) by (intro orderly_same_bytes [OF assms(2)]) (auto split: sum.splits)
next
  case (append p x b g fault r v)
  have "ld_lease v = ld_lease (sy_vault s)"
    using append(4) Save_lease by (auto simp: AppendLocked_def Let_def split: prod.splits option.splits)
  then show ?thesis unfolding append(1) using append(3) by (intro orderly_save [OF assms(2) append(2)]) (auto simp: fresh_def)
next
  case (revoke p id1 b g stamp es fault err v)
  then show ?thesis unfolding revoke(1)
    using Save_lease [OF revoke(6)] by (intro orderly_save [OF assms(2) revoke(2)]) (auto simp: fresh_def)
next
  case (not_found p id1 b g stamp)
  then show ?thesis using orderly_same_bytes [OF assms(2), of p b] by (simp add: current_def)
next
  case (release p b io e o1 v)
  obtain gone err where br: "Break io e o1 b (sy_vault s) = Some ((gone, err), v)"
    using Releaser_runs [OF release(3)] .
  have "lease_ok ((holders s)(p := None)) (fresh unmarshal s) (ld_lease v)"
    using lease_given_back [OF ok br] release(2) by (simp add: holders_def)
  then show ?thesis unfolding release(1)
    using orderly_go [OF assms(2), of p Idle v] Break_vault [OF br] by simp
next
  case (crash p)
  then show ?thesis using orderly_free [OF assms(2)] by simp
qed
qed

subsection \<open>Runs\<close>

definition quiet_start :: "'p ledger_system \<Rightarrow> bool" where
  "quiet_start s \<longleftrightarrow> sy_phase s = (\<lambda>_. Idle) \<and> sy_log s = []"

lemma quiet_orderly: "quiet_start s \<Longrightarrow> orderly unmarshal s"
  by (simp add: quiet_start_def orderly_def lease_ok_def holders_def)

lemma run_orderly:
  assumes "(ledger_step unmarshal pid st False)\<^sup>*\<^sup>* s0 s" "quiet_start s0"
  shows "orderly unmarshal s"
  using assms by (induction rule: rtranclp_induct) (auto intro: quiet_orderly orderly_step)

definition logged_onto :: "entry list option \<Rightarrow> 'p ledger_system \<Rightarrow> bool" where
  "logged_onto es0 s \<longleftrightarrow> ledger_entries (sy_vault s) = map_option (\<lambda>es. foldl apply_commit es (sy_log s)) es0"

lemma ledger_entries_frame: "(\<And>f. Load f v' = Load f v) \<Longrightarrow> ledger_entries v' = ledger_entries v"
  by (simp add: ledger_entries_def)

lemma save_commits:
  assumes "orderly unmarshal s" "sy_phase s p = Loaded i b g" "fresh unmarshal s b" "logged_onto es0 s"
    "Save fault (g\<lparr>lg_Entries := apply_commit (lg_Entries g) c\<rparr>) (sy_vault s) = (err, v)"
  shows "logged_onto es0 (go p ph (s\<lparr>sy_vault := v, sy_log := sy_log s @ (if err = None then [c] else [])\<rparr>))"
proof -
  have l: "Load None (sy_vault s) = Inr g"
    using assms(1,2,3) by (fastforce simp: orderly_def current_def dest: spec [of _ p])
  then have "ledger_entries (sy_vault s) = Some (lg_Entries g)" by (simp add: ledger_entries_def)
  moreover have "ledger_entries v = Some (apply_commit (lg_Entries g) c)" if "err = None"
    using Save_loads(2) [OF assms(5) that] by (auto simp: ledger_entries_def)
  moreover have "v = sy_vault s" if "err \<noteq> None" using Save_loads(1) [OF assms(5) that] .
  ultimately show ?thesis using assms(4) by (cases es0) (auto simp: logged_onto_def)
qed

lemma logged_step:
  assumes "ledger_step unmarshal pid st False s s'" "orderly unmarshal s" "logged_onto es0 s"
  shows "logged_onto es0 s'"
  using assms(1)
proof cases
  case (append p x b g fault r v)
  obtain err where sv: "Save fault (g\<lparr>lg_Entries := apply_commit (lg_Entries g) (Appended (mint (st p) (sy_clock s) x))\<rparr>)
      (sy_vault s) = (err, v)" "(case r of Inl _ \<Rightarrow> [] | Inr e \<Rightarrow> [Appended e])
        = (if err = None then [Appended (mint (st p) (sy_clock s) x)] else [])"
    using append(4) by (auto simp: AppendLocked_def Let_def split: prod.splits option.splits)
  show ?thesis unfolding append(1) sv(2)
    using append(3) by (intro save_commits [OF assms(2) append(2) _ assms(3) sv(1)]) (simp add: fresh_def)
next
  case (revoke p id1 b g stamp es fault err v)
  have "es = apply_commit (lg_Entries g) (Withdrawn id1 stamp)" using revoke(5) by simp
  then show ?thesis unfolding revoke(1) using revoke(3,6)
    by (intro save_commits [OF assms(2) revoke(2) _ assms(3)]) (simp_all add: fresh_def)
next
  case (publish p i now io yes err v ph)
  then show ?thesis using assms(3) ledger_entries_frame [OF Publish_vault [OF publish(3)]] by (simp add: logged_onto_def)
next
  case (retry p i now io yes err v)
  then show ?thesis using assms(3) ledger_entries_frame [OF Publish_vault [OF retry(3)]] by (simp add: logged_onto_def)
next
  case (reap p i now data io e o1 gone err v ph)
  then show ?thesis using assms(3) ledger_entries_frame [OF Break_vault [OF reap(3)]] by (simp add: logged_onto_def)
next
  case (release p b io e o1 v)
  obtain gone err where "Break io e o1 b (sy_vault s) = Some ((gone, err), v)" using Releaser_runs [OF release(3)] .
  from ledger_entries_frame [OF Break_vault [OF this]] show ?thesis using assms(3) by (simp add: release(1) logged_onto_def)
qed (use assms(3) in \<open>auto simp: logged_onto_def\<close>)

lemma run_logged:
  assumes "(ledger_step unmarshal pid st False)\<^sup>*\<^sup>* s0 s" "quiet_start s0"
  shows "ledger_entries (sy_vault s)
    = map_option (\<lambda>es. foldl apply_commit es (sy_log s)) (ledger_entries (sy_vault s0))"
proof -
  have "logged_onto (ledger_entries (sy_vault s0)) s0"
    using assms(2) by (simp add: quiet_start_def logged_onto_def option.map_ident)
  moreover from assms(1) have "logged_onto (ledger_entries (sy_vault s0)) s"
    using calculation assms(2)
    by (induction rule: rtranclp_induct) (auto intro: logged_step dest: run_orderly)
  ultimately show ?thesis by (simp add: logged_onto_def)
qed

text \<open>C2: The governance ledger refines an atomic list of decisions. However many processes
  append and revoke, in whatever order their file operations interleave, and whatever the
  filesystem answers, while no process saves after its own lease has gone stale: the entries on
  disk are the entries there were at the start with the successful saves applied one after the
  other, in the order they happened. No append is lost, none is doubled, none is reordered; a
  corrupt ledger stays as it is.\<close>

theorem ledger_is_atomic:
  assumes "(ledger_step unmarshal pid st False)\<^sup>*\<^sup>* s0 s" "quiet_start s0"
  shows "ledger_entries (sy_vault s)
    = map_option (\<lambda>es. foldl apply_commit es (sy_log s)) (ledger_entries (sy_vault s0))"
  using run_logged [OF assms] .


subsection \<open>Taking the lease\<close>

definition quiet_attempt :: attempt_io where
  "quiet_attempt = \<lparr>ai_publish = guard_io_ok, ai_probe = None, ai_break = guard_io_ok\<rparr>"

lemma guard_io_ok_simps [simp]:
  "gi_enter guard_io_ok = None" "gi_leave guard_io_ok = None" "gi_read guard_io_ok = None"
  "gi_stage guard_io_ok = None" "gi_link guard_io_ok = None" "gi_remove guard_io_ok = (\<lambda>_. None)"
  by (simp_all add: guard_io_ok_def)

lemma Publish_ok:
  "Publish guard_io_ok b d = Some (case ld_lease d of None \<Rightarrow> ((True, None), d\<lparr>ld_lease := Some b\<rparr>)
     | Some _ \<Rightarrow> ((False, None), d))"
  by (simp add: Publish_def WithGuard_def PublishGuarded_def join_error_def split: option.split)

lemma Break_ok:
  assumes "ld_lease d = Some b"
  shows "Break guard_io_ok e o1 b d = Some ((True, None), d\<lparr>ld_lease := None\<rparr>)"
  using assms
  by (simp add: Break_def WithGuard_def read_lease_def join_error_def removeGuarded_def Let_def
      remove_attempts.simps os_Remove_lease_def)

text \<open>C24: An abandoned lease holds nobody up: when the lease file has bytes a reader finds stale
  (a process that died over \<open>LeaseTTL\<close> ago, or bytes that are no lease), the filesystem answers and
  nobody else takes it, one call of \<open>Acquire\<close> breaks it on its first attempt and has the lease on
  its second, without sleeping.\<close>

theorem abandoned_lease_is_taken:
  assumes "ld_lease d = Some b" "lease_stale (le_unmarshal e) now LeaseTTL b"
    and "io 0 = quiet_attempt" "io 1 = quiet_attempt" "\<And>x. others 0 x = x"
    and "wall 0 \<le> start + AcquireTimeout"
  shows "Acquire e None io others start wall now d
    = Some (Inr (lease_text (le_pid e) now), d\<lparr>ld_lease := Some (lease_text (le_pid e) now)\<rparr>)"
proof -
  have "acquire_attempt e (io 0) now 0 d = Some (Again 0, d\<lparr>ld_lease := None\<rparr>)"
    using assms(1,2) Break_ok [OF assms(1)]
    by (simp add: assms(3) quiet_attempt_def acquire_attempt_def Publish_ok Reap_def read_lease_def)
  moreover have "acquire_attempt e (io (Suc 0)) now (Suc 0) (d\<lparr>ld_lease := None\<rparr>)
      = Some (Acquired (lease_text (le_pid e) now), d\<lparr>ld_lease := Some (lease_text (le_pid e) now)\<rparr>)"
    by (simp add: assms(4) [unfolded One_nat_def] quiet_attempt_def acquire_attempt_def Publish_ok)
  ultimately show ?thesis
    using assms(5,6) by (simp add: Acquire_def acquire_attempts.simps [of e io others wall _ now])
qed

text \<open>C25: Waiting for the lease ends: if the clock passes every instant and each removal's sleeps
  last as long as they were asked to, \<open>Acquire\<close> returns, with the lease or with an error, whatever
  the filesystem answers and whatever the other processes do to the lease file meanwhile.\<close>

theorem acquire_returns:
  assumes "\<forall>t. \<exists>n. t < wall n" "\<forall>n. 0 \<le> le_backoff e n" "mono wall"
    and "keeps_time (re_now (le_removal e)) (defaultBackoff (re_rand (le_removal e)))"
  shows "\<exists>r d'. Acquire e mkdir io others start wall now d = Some (r, d')"
proof -
  have rm: "\<exists>err d'. removeGuarded g (le_removal e) (DefaultRemovalOptions (le_removal e)) x = Some (err, d')" for g x
    using default_removal_returns [OF assms(4)] by blast
  have br: "\<exists>r. Break g (le_removal e) (DefaultRemovalOptions (le_removal e)) b x = Some r" for g b x
    using rm [of g x] by (auto simp: Break_def WithGuard_def split: option.split sum.split)
  have at: "\<exists>r d'. acquire_attempt e a now n x = Some (r, d')" for a n x
  proof -
    obtain p err x' where p: "Publish (ai_publish a) (lease_text (le_pid e) now) x = Some ((p, err), x')"
      using Publish_returns by (metis surj_pair)
    have "\<exists>q. Reap (le_unmarshal e) (ai_probe a) (ai_break a) (le_removal e)
        (DefaultRemovalOptions (le_removal e)) now LeaseTTL x' = Some q"
      using br by (auto simp: Reap_def split: sum.split)
    then obtain q where "Reap (le_unmarshal e) (ai_probe a) (ai_break a) (le_removal e)
        (DefaultRemovalOptions (le_removal e)) now LeaseTTL x' = Some q" ..
    with p show ?thesis
      by (cases q rule: prod.exhaust, cases "fst q") (auto simp: acquire_attempt_def split: option.split)
  qed
  obtain N where N: "start + AcquireTimeout < wall N" using assms(1) by blast
  have "\<exists>r d'. acquire_attempts e io others wall (start + AcquireTimeout) now n x = Some (r, d')" for n x
  proof (induction "Suc N - n" arbitrary: n x rule: less_induct)
    case less
    obtain r x' where r: "acquire_attempt e (io n) now n x = Some (r, x')" using at by blast
    show ?case
    proof (cases r)
      case (Again w)
      show ?thesis
      proof (cases "n \<le> N")
        case True
        with less [of "Suc n"] show ?thesis
          by (subst acquire_attempts.simps) (auto simp: r Again)
      next
        case False
        have "0 \<le> w" using r Again assms(2)
          by (auto simp: acquire_attempt_def bind_eq_Some_conv split: option.splits if_splits)
        moreover have "wall N \<le> wall n" using False assms(3) by (simp add: monoD)
        ultimately show ?thesis using N by (subst acquire_attempts.simps) (auto simp: r Again)
      qed
    qed (subst acquire_attempts.simps, simp add: r)+
  qed
  then show ?thesis by (auto simp: Acquire_def split: option.split)
qed

subsection \<open>Examples\<close>

definition forget_entry :: entry where
  "forget_entry = \<lparr>en_ID = ''gov_1'', en_Kind = ''forget'', en_Atom = ItemAtom ''gmail'' ''m1'',
     en_Action = ''suppress'', en_Reason = [], en_Atom2 = None, en_Decision = [], en_TargetID = [],
     en_CommitmentID = [], en_ReplacementID = [], en_CorrectedAtom = None, en_CorrectedDirection = [],
     en_DuplicateOf = [], en_CreatedAt = ''1970-01-01T00:00:00Z'', en_CreatedBy = ''me'', en_RevokedAt = []\<rparr>"

definition plain_store :: store where
  "plain_store = \<lparr>st_NewID = None, st_CreatedBy = None, st_zone = 0\<rparr>"

definition at_rest :: "unit ledger_system" where
  "at_rest = \<lparr>sy_vault = \<lparr>ld_lease = None, va_ledger = None\<rparr>, sy_clock = 0, sy_phase = (\<lambda>_. Idle), sy_log = []\<rparr>"

abbreviation example_step :: "unit ledger_system \<Rightarrow> unit ledger_system \<Rightarrow> bool" where
  "example_step \<equiv> ledger_step example_unmarshal (\<lambda>_. 7) (\<lambda>_. plain_store) False"

definition holding :: "unit ledger_system" where
  "holding = at_rest\<lparr>sy_vault := \<lparr>ld_lease = Some (lease_text 7 0), va_ledger = None\<rparr>,
     sy_phase := (\<lambda>_. Holding (ToAppend forget_entry) (lease_text 7 0))\<rparr>"

definition saved :: "unit ledger_system" where
  "saved = at_rest\<lparr>sy_vault := \<lparr>ld_lease = Some (lease_text 7 0),
       va_ledger = Some (LedgerFile \<lparr>lg_Schema = 1, lg_Entries = [forget_entry]\<rparr>)\<rparr>,
     sy_phase := (\<lambda>_. Leaving (lease_text 7 0)), sy_log := [Appended forget_entry]\<rparr>"

lemma quiet_at_rest: "quiet_start at_rest"
  by (simp add: quiet_start_def at_rest_def)

lemma run_holding: "example_step\<^sup>*\<^sup>* at_rest holding"
proof -
  let ?t = "go () (Trying (ToAppend forget_entry) 0) at_rest"
  have "example_step at_rest ?t"
    using ledger_step.start [of at_rest "()" example_unmarshal "\<lambda>_. 7" "\<lambda>_. plain_store" False "ToAppend forget_entry"]
    by (simp add: at_rest_def)
  moreover have "example_step ?t (go () (Holding (ToAppend forget_entry) (lease_text 7 0))
      (?t\<lparr>sy_vault := \<lparr>ld_lease = Some (lease_text 7 0), va_ledger = None\<rparr>\<rparr>))"
    by (rule ledger_step.publish [where io = guard_io_ok and yes = True and err = None])
      (simp_all add: at_rest_def Publish_ok)
  moreover have "go () (Holding (ToAppend forget_entry) (lease_text 7 0))
      (?t\<lparr>sy_vault := \<lparr>ld_lease = Some (lease_text 7 0), va_ledger = None\<rparr>\<rparr>) = holding"
    by (auto simp: holding_def go_def at_rest_def)
  ultimately show ?thesis by (metis rtranclp.simps)
qed

lemma example_lease_fresh: "\<not> lease_stale example_unmarshal 0 LeaseTTL (lease_text 7 0)"
proof -
  have "lease_text 7 0 = ''{\"pid\":7,\"acquired_at\":\"'' @ ''1970-01-01T00:00:00Z\"}''" by code_simp
  then show ?thesis using example_not_stale [of "''{\"pid\":7,\"acquired_at\":\"''"] by (simp add: LeaseTTL_def)
qed

lemma run_saved: "example_step\<^sup>*\<^sup>* at_rest saved"
proof -
  let ?l = "go () (Loaded (ToAppend forget_entry) (lease_text 7 0) empty_ledger) holding"
  have l: "example_step holding ?l"
    by (rule ledger_step.load [where fault = None and r = "Inr empty_ledger"])
      (simp_all add: holding_def at_rest_def Load_def)
  have "mint plain_store 0 forget_entry = forget_entry"
    by (simp add: mint_def forget_entry_def plain_store_def)
  then have ap: "AppendLocked plain_store 0 None empty_ledger forget_entry (sy_vault ?l)
      = (Inr forget_entry, (sy_vault ?l)\<lparr>va_ledger := Some (LedgerFile \<lparr>lg_Schema = 1, lg_Entries = [forget_entry]\<rparr>)\<rparr>)"
    by (simp add: AppendLocked_def Save_def empty_ledger_def GovernanceSchemaVersion_def)
  have "example_step ?l (go () (Leaving (lease_text 7 0)) (?l\<lparr>sy_vault := sy_vault saved,
      sy_log := sy_log ?l @ (case Inr forget_entry of Inl (_ :: go_error) \<Rightarrow> [] | Inr e \<Rightarrow> [Appended e])\<rparr>))"
    by (rule ledger_step.append [where fault = None])
      (use ap example_lease_fresh in \<open>simp_all add: holding_def saved_def at_rest_def\<close>)
  also have "go () (Leaving (lease_text 7 0)) (?l\<lparr>sy_vault := sy_vault saved,
      sy_log := sy_log ?l @ (case Inr forget_entry of Inl (_ :: go_error) \<Rightarrow> [] | Inr e \<Rightarrow> [Appended e])\<rparr>) = saved"
    by (auto simp: go_def holding_def saved_def at_rest_def)
  finally have "example_step ?l saved" .
  from rtranclp.rtrancl_into_rtrancl [OF rtranclp.rtrancl_into_rtrancl [OF run_holding l] this]
  show ?thesis .
qed

theorem ledger_is_atomic_witness:
  "ledger_entries (sy_vault saved) = Some [forget_entry]"
  using ledger_is_atomic [OF run_saved quiet_at_rest]
  by (simp add: saved_def at_rest_def ledger_entries_def Load_def empty_ledger_def)


definition example_env :: lease_env where
  "example_env = \<lparr>le_unmarshal = (\<lambda>_. None), le_removal = busy_env, le_pid = 7, le_backoff = (\<lambda>_. millisecond)\<rparr>"

theorem abandoned_lease_is_taken_witness:
  "Acquire example_env None (\<lambda>_. quiet_attempt) (\<lambda>_ x. x) 0 (\<lambda>_. 0) 0 \<lparr>ld_lease = Some ''junk''\<rparr>
    = Some (Inr (lease_text 7 0), \<lparr>ld_lease = Some (lease_text 7 0)\<rparr>)"
proof -
  have "lease_stale (le_unmarshal example_env) 0 LeaseTTL ''junk''" by (simp add: example_env_def lease_stale_def)
  then show ?thesis
    using abandoned_lease_is_taken [of "\<lparr>ld_lease = Some ''junk''\<rparr>" "''junk''" example_env 0
        "\<lambda>_. quiet_attempt" "\<lambda>_ x. x" "\<lambda>_. 0" 0]
    by (simp add: AcquireTimeout_def second_def example_env_def)
qed

theorem acquire_returns_witness:
  "\<exists>r d'. Acquire example_env None (\<lambda>_. quiet_attempt) (\<lambda>_ x. x\<lparr>ld_lease := Some ''taken''\<rparr>) 0 int 0
     \<lparr>ld_lease = Some ''junk''\<rparr> = Some (r, d')"
proof -
  have "\<exists>n. t < int n" for t :: instant
    by (rule exI [of _ "nat (t + 1)"]) simp
  then show ?thesis
    using acquire_returns [of int example_env None "\<lambda>_. quiet_attempt"
        "\<lambda>_ x. x\<lparr>ld_lease := Some ''taken''\<rparr>" 0 0 "\<lparr>ld_lease = Some ''junk''\<rparr>"] busy_keeps_time
    by (simp add: example_env_def millisecond_def mono_def)
qed

end
