(* ===== verification/GovernanceEffect.thy ===== *)
theory GovernanceEffect
  imports GovernancePolicy GovernanceClaims
begin

text \<open>
  What the owner's decisions bring about: a committed suppression is in force until it is
  revoked, one person's suppression does not swallow a shared conversation, the last word on a
  merge counts, and a superseded memory and its replacement swap places.
\<close>

subsection \<open>Suppression\<close>

lemma apply_keeps:
  "e \<in> set es \<Longrightarrow> (\<And>stamp. c \<noteq> Withdrawn (en_ID e) stamp) \<Longrightarrow> e \<in> set (apply_commit es c)"
  by (cases c) (auto simp: revoke_entries_def image_iff)

lemma foldl_keeps:
  "e \<in> set es \<Longrightarrow> (\<And>c stamp. c \<in> set cs \<Longrightarrow> c \<noteq> Withdrawn (en_ID e) stamp) \<Longrightarrow> e \<in> set (foldl apply_commit es cs)"
  by (induction cs arbitrary: es) (simp_all add: apply_keeps)

lemma find_hit: "e \<in> set es \<Longrightarrow> P e \<Longrightarrow> find P es \<noteq> None"
  by (auto simp: find_None_iff)

lemma suppressed_item:
  assumes "e \<in> set (lg_Entries g)" "en_RevokedAt e = []" "en_Action e = ActionSuppress"
    "en_Kind e \<in> {KindForget, KindPrune, KindSourceScope}"
    "at_Kind (en_Atom e) = AtomStableID" "ProviderMatches (at_Provider (en_Atom e)) provider"
    "at_Value (en_Atom e) = stableID"
  shows "fst (DecideSuppress u g provider stableID meta)"
proof -
  have "e \<in> set (ActiveSuppress g)" using assms(1-4) by (auto simp: ActiveSuppress_def Revoked_def)
  moreover have "suppress_hit u provider stableID meta e"
    using assms(5-7) by (simp add: suppress_hit_def ItemAtom_def split: prod.split)
  ultimately have "find (suppress_hit u provider stableID meta) (ActiveSuppress g) \<noteq> None" by (rule find_hit)
  then show ?thesis by (auto simp: DecideSuppress_def)
qed


text \<open>C29: A person's suppression does not swallow a shared conversation. When an item has not exactly
  one counterparty and neither has its parent, \<open>DecideSuppress\<close> suppresses it only for an entry on
  the ledger, in force, that names the item or its parent by stable identifier; an entry for a
  handle or an address never does.\<close>

theorem shared_item_needs_its_own_entry:
  assumes "DecideSuppress u g provider stableID meta = (True, i)"
    and "length (CounterpartyAtoms u provider meta) \<noteq> 1"
    and "ParentContext u meta = (pp, pid, pc)" "length pc \<noteq> 1"
  shows "\<exists>e \<in> set (lg_Entries g). en_ID e = i \<and> en_RevokedAt e = [] \<and> at_Kind (en_Atom e) = AtomStableID
     \<and> (at_Value (en_Atom e) = stableID \<or> pid \<noteq> [] \<and> at_Value (en_Atom e) = pid)"
proof -
  obtain e where e: "find (suppress_hit u provider stableID meta) (ActiveSuppress g) = Some e" "en_ID e = i"
    using assms(1) by (auto simp: DecideSuppress_def split: option.splits)
  from find_Some_iff [THEN iffD1, OF e(1)] have "e \<in> set (ActiveSuppress g)" "suppress_hit u provider stableID meta e"
    by auto
  with e(2) assms(2-4) show ?thesis
    by (auto simp: ActiveSuppress_def Revoked_def suppress_hit_def ItemAtom_def Let_def split: if_splits)
qed

subsection \<open>Merges\<close>

lemma merge_rows_distinct: "distinct (map fst (merge_rows u es))"
proof -
  have "distinct (map fst rows) \<Longrightarrow> distinct (map fst (foldl (\<lambda>rows e. case merge_row u e of None \<Rightarrow> rows
     | Some (k, v) \<Rightarrow> AList.update k v rows) rows es))" for rows
    by (induction es arbitrary: rows) (auto split: option.split prod.split simp: distinct_update)
  from this [of "[]"] show ?thesis by (simp add: merge_rows_def)
qed

definition last_word :: "unicode \<Rightarrow> string \<Rightarrow> entry list \<Rightarrow> (string \<times> confirmed_merge) option" where
  \<comment> \<open>what the last of the entries about the pair \<open>k\<close> says\<close>
  "last_word u k es = (let about = filter (\<lambda>e. map_option fst (merge_row u e) = Some k) es in
     if about = [] then None else map_option snd (merge_row u (last about)))"

lemma merge_rows_last: "map_of (merge_rows u es) k = last_word u k es"
proof (induction es rule: rev_induct)
  case (snoc e es)
  have "merge_rows u (es @ [e]) = (case merge_row u e of None \<Rightarrow> merge_rows u es
     | Some (k, v) \<Rightarrow> AList.update k v (merge_rows u es))"
    unfolding merge_rows_def by simp
  with snoc show ?case
    by (cases "merge_row u e") (auto simp: last_word_def update_conv' Let_def)
qed (simp add: merge_rows_def last_word_def)

lemma MergePairKey_commute: "MergePairKey a b = MergePairKey b a"
  by (auto simp: MergePairKey_def)


subsection \<open>Teaching\<close>

definition teaches :: "entry \<Rightarrow> bool" where
  "teaches e \<longleftrightarrow> en_Kind e = KindTeachMemory \<and> en_Action e = ActionRecord \<and> teachMemoryDecisionValid (en_Decision e)"

lemma teach_sets_meaning:
  "teach_sets es =
     ({i. i \<noteq> [] \<and> (\<exists>e \<in> set es. teaches e \<and> \<not> Revoked e \<and> en_TargetID e = i)},
      {i. i \<noteq> [] \<and> (\<exists>e \<in> set es. teaches e \<and> en_ReplacementID e = i)},
      {i. i \<noteq> [] \<and> (\<exists>e \<in> set es. teaches e \<and> \<not> Revoked e \<and> en_ReplacementID e = i)})"
proof (induction es rule: rev_induct)
  case (snoc e es)
  have "teach_sets (es @ [e]) = (case teach_sets es of (hidden, ever, active) \<Rightarrow>
     if \<not> teaches e then (hidden, ever, active)
     else (let ever = (if en_ReplacementID e \<noteq> [] then insert (en_ReplacementID e) ever else ever) in
       if Revoked e then (hidden, ever, active)
       else (if en_TargetID e \<noteq> [] then insert (en_TargetID e) hidden else hidden, ever,
             if en_ReplacementID e \<noteq> [] then insert (en_ReplacementID e) active else active)))"
    by (simp add: teach_sets_def teaches_def split: prod.split)
  then show ?case unfolding snoc by (auto simp: Let_def)
qed (simp add: teach_sets_def)

text \<open>C31: A replaced memory and its replacement swap places with the decision. For an entry that
  teaches a replacement, where no other entry mentions the two memories: while the entry is in
  force the replacement is visible and the target is not; once it is revoked the target is visible
  and the replacement is not.\<close>

theorem replacement_swaps_visibility:
  assumes "lg_Entries g = pre @ e # post"
    and "en_Kind e = KindTeachMemory" "en_Action e = ActionRecord" "teachMemoryDecisionValid (en_Decision e)"
    and "en_TargetID e \<noteq> []" "en_ReplacementID e \<noteq> []" "en_TargetID e \<noteq> en_ReplacementID e"
    and "\<forall>x \<in> set (pre @ post). en_TargetID x \<notin> {en_TargetID e, en_ReplacementID e}
       \<and> en_ReplacementID x \<notin> {en_TargetID e, en_ReplacementID e}"
  shows "MemoryVisible g (en_TargetID e) = Revoked e \<and> MemoryVisible g (en_ReplacementID e) = (\<not> Revoked e)"
proof -
  have "teaches e" using assms(2-4) by (simp add: teaches_def)
  with assms(5-8) show ?thesis
    unfolding MemoryVisible_def teach_sets_meaning assms(1) by auto
qed

subsection \<open>Examples\<close>


definition forgetful :: ledger where "forgetful = \<lparr>lg_Schema = 1, lg_Entries = [forget_entry]\<rparr>"

theorem shared_item_needs_its_own_entry_witness:
  "DecideSuppress ascii_only forgetful ''gmail'' ''m1'' None = (True, ''gov_1'')
    \<and> (\<exists>e \<in> set (lg_Entries forgetful). en_ID e = ''gov_1'' \<and> at_Kind (en_Atom e) = AtomStableID)"
proof -
  have d: "DecideSuppress ascii_only forgetful ''gmail'' ''m1'' None = (True, ''gov_1'')"
    by (simp add: DecideSuppress_def ActiveSuppress_def forgetful_def forget_entry_def Revoked_def
        suppress_hit_def ItemAtom_def ProviderMatches_def ParentContext_def)
  have "length (CounterpartyAtoms ascii_only ''gmail'' None) \<noteq> 1" "ParentContext ascii_only None = ([], [], [])"
    by (simp_all add: CounterpartyAtoms_def ParentContext_def)
  from shared_item_needs_its_own_entry [OF d this] d show ?thesis by auto
qed

definition merge_entry :: "string \<Rightarrow> string \<Rightarrow> entry" where
  "merge_entry i d = forget_entry\<lparr>en_ID := i, en_Kind := KindMergeConfirm, en_Decision := d,
     en_Atom := \<lparr>at_Provider = [], at_Kind = AtomHandle, at_Value = ''+1''\<rparr>,
     en_Atom2 := Some \<lparr>at_Provider = [], at_Kind = AtomAddress, at_Value = ''a@b''\<rparr>\<rparr>"

definition merge_ledger :: ledger where
  "merge_ledger = \<lparr>lg_Schema = 1, lg_Entries = [merge_entry ''g1'' DecisionConfirm, merge_entry ''g2'' DecisionReject]\<rparr>"


definition correction_entry :: entry where
  "correction_entry = forget_entry\<lparr>en_Kind := KindTeachMemory, en_Action := ActionRecord, en_Decision := ''supersede'',
     en_TargetID := ''mem_old'', en_ReplacementID := ''mem_new''\<rparr>"

theorem replacement_swaps_visibility_witness:
  "\<not> MemoryVisible \<lparr>lg_Schema = 1, lg_Entries = [correction_entry]\<rparr> ''mem_old''
    \<and> MemoryVisible \<lparr>lg_Schema = 1, lg_Entries = [correction_entry]\<rparr> ''mem_new''"
  using replacement_swaps_visibility [of "\<lparr>lg_Schema = 1, lg_Entries = [correction_entry]\<rparr>" "[]" correction_entry "[]"]
  by (simp add: correction_entry_def forget_entry_def Revoked_def teachMemoryDecisionValid_def)

end
