(* ===== verification/GovernanceLimits.thy ===== *)
theory GovernanceLimits
  imports GovernanceEffect
begin

text \<open>
  Where the guarantee of the governance ledger ends. The store neither renews its lease nor looks
  at it again before it saves, so a process that was stopped for longer than \<open>LeaseTTL\<close> between
  reading the ledger and saving it writes over what another process saved meanwhile.
\<close>

definition second_entry :: entry where
  "second_entry = forget_entry\<lparr>en_ID := ''gov_2''\<rparr>"

definition two_at_rest :: "bool ledger_system" where
  "two_at_rest = \<lparr>sy_vault = \<lparr>ld_lease = None, va_ledger = None\<rparr>, sy_clock = 0, sy_phase = (\<lambda>_. Idle), sy_log = []\<rparr>"

abbreviation late_step :: "bool ledger_system \<Rightarrow> bool ledger_system \<Rightarrow> bool" where
  "late_step \<equiv> ledger_step example_unmarshal (\<lambda>p. if p then 8 else 7) (\<lambda>_. plain_store) True"

definition mid_run :: "phase \<Rightarrow> phase \<Rightarrow> instant \<Rightarrow> string option \<Rightarrow> ledger_file option \<Rightarrow> commit list \<Rightarrow> bool ledger_system" where
  "mid_run p q t b f l = \<lparr>sy_vault = \<lparr>ld_lease = b, va_ledger = f\<rparr>, sy_clock = t,
     sy_phase = (\<lambda>x. if x then q else p), sy_log = l\<rparr>"

abbreviation ledger_of :: "entry list \<Rightarrow> ledger" where
  "ledger_of es \<equiv> \<lparr>lg_Schema = 1, lg_Entries = es\<rparr>"

lemma mid_run_parts [simp]:
  "sy_phase (mid_run p q t b f l) False = p" "sy_phase (mid_run p q t b f l) True = q"
  "sy_clock (mid_run p q t b f l) = t" "sy_log (mid_run p q t b f l) = l"
  "sy_vault (mid_run p q t b f l) = \<lparr>ld_lease = b, va_ledger = f\<rparr>"
  by (simp_all add: mid_run_def)

lemma mid_run_moves:
  "go False p' ((mid_run p q t b f l)\<lparr>sy_vault := \<lparr>ld_lease = b', va_ledger = f'\<rparr>, sy_log := l'\<rparr>) = mid_run p' q t b' f' l'"
  "go True q' ((mid_run p q t b f l)\<lparr>sy_vault := \<lparr>ld_lease = b', va_ledger = f'\<rparr>, sy_log := l'\<rparr>) = mid_run p q' t b' f' l'"
  "go False p' ((mid_run p q t b f l)\<lparr>sy_vault := \<lparr>ld_lease = b', va_ledger = f'\<rparr>\<rparr>) = mid_run p' q t b' f' l"
  "go True q' ((mid_run p q t b f l)\<lparr>sy_vault := \<lparr>ld_lease = b', va_ledger = f'\<rparr>\<rparr>) = mid_run p q' t b' f' l"
  "go False p' (mid_run p q t b f l) = mid_run p' q t b f l"
  "go True q' (mid_run p q t b f l) = mid_run p q' t b f l"
  "(mid_run p q t b f l)\<lparr>sy_clock := t'\<rparr> = mid_run p q t' b f l"
  by (auto simp: mid_run_def go_def)

text \<open>The steps, for each of the two processes.\<close>

lemma start_1: "late_step (mid_run Idle q t b f l) (mid_run (Trying i t) q t b f l)"
  using ledger_step.start [where s = "mid_run Idle q t b f l" and p = False] by (simp add: mid_run_moves)

lemma start_2: "late_step (mid_run p Idle t b f l) (mid_run p (Trying i t) t b f l)"
  using ledger_step.start [where s = "mid_run p Idle t b f l" and p = True] by (simp add: mid_run_moves)

lemma wait: "t \<le> t' \<Longrightarrow> late_step (mid_run p q t b f l) (mid_run p q t' b f l)"
  using ledger_step.tick [where s = "mid_run p q t b f l" and t = t'] by (simp add: mid_run_moves)

lemma take_free_1:
  "late_step (mid_run (Trying i now) q t None f l) (mid_run (Holding i (lease_text 7 now)) q t (Some (lease_text 7 now)) f l)"
  using ledger_step.publish [where s = "mid_run (Trying i now) q t None f l" and p = False and io = guard_io_ok
      and pid = "\<lambda>p. if p then 8 else 7" and yes = True and err = None and i = i and now = now
      and v = "\<lparr>ld_lease = Some (lease_text 7 now), va_ledger = f\<rparr>", OF _ _ refl]
  by (simp add: Publish_ok mid_run_moves)

lemma take_free_2:
  "late_step (mid_run p (Trying i now) t None f l) (mid_run p (Holding i (lease_text 8 now)) t (Some (lease_text 8 now)) f l)"
  using ledger_step.publish [where s = "mid_run p (Trying i now) t None f l" and p = True and io = guard_io_ok
      and pid = "\<lambda>p. if p then 8 else 7" and yes = True and err = None and i = i and now = now
      and v = "\<lparr>ld_lease = Some (lease_text 8 now), va_ledger = f\<rparr>", OF _ _ refl]
  by (simp add: Publish_ok mid_run_moves)

lemma read_ledger_1:
  "late_step (mid_run (Holding i b) q t x None l) (mid_run (Loaded i b (ledger_of [])) q t x None l)"
  using ledger_step.load [where s = "mid_run (Holding i b) q t x None l" and p = False and fault = None, OF _ refl refl]
  by (simp add: mid_run_moves Load_def empty_ledger_def GovernanceSchemaVersion_def)

lemma read_ledger_2:
  "late_step (mid_run p (Holding i b) t x None l) (mid_run p (Loaded i b (ledger_of [])) t x None l)"
  using ledger_step.load [where s = "mid_run p (Holding i b) t x None l" and p = True and fault = None, OF _ refl refl]
  by (simp add: mid_run_moves Load_def empty_ledger_def GovernanceSchemaVersion_def)

lemma append_first_1:
  assumes "mint plain_store t x = x"
  shows "late_step (mid_run (Loaded (ToAppend x) b (ledger_of [])) q t c f l)
      (mid_run (Leaving b) q t c (Some (LedgerFile (ledger_of [x]))) (l @ [Appended x]))"
  using ledger_step.append [where s = "mid_run (Loaded (ToAppend x) b (ledger_of [])) q t c f l" and p = False
      and fault = None and late = True and st = "\<lambda>_. plain_store" and r = "Inr x"
      and v = "\<lparr>ld_lease = c, va_ledger = Some (LedgerFile (ledger_of [x]))\<rparr>"]
  by (simp add: assms mid_run_moves AppendLocked_def Save_def)

lemma append_first_2:
  assumes "mint plain_store t x = x"
  shows "late_step (mid_run p (Loaded (ToAppend x) b (ledger_of [])) t c f l)
      (mid_run p (Leaving b) t c (Some (LedgerFile (ledger_of [x]))) (l @ [Appended x]))"
  using ledger_step.append [where s = "mid_run p (Loaded (ToAppend x) b (ledger_of [])) t c f l" and p = True
      and fault = None and late = True and st = "\<lambda>_. plain_store" and r = "Inr x"
      and v = "\<lparr>ld_lease = c, va_ledger = Some (LedgerFile (ledger_of [x]))\<rparr>"]
  by (simp add: assms mid_run_moves AppendLocked_def Save_def)

lemma find_stale_2:
  assumes "lease_stale example_unmarshal now LeaseTTL b"
  shows "late_step (mid_run p (Trying i now) t (Some b) f l) (mid_run p (Reaping i now b) t (Some b) f l)"
  using ledger_step.probe [where s = "mid_run p (Trying i now) t (Some b) f l" and p = True and fault = None and data = b] assms
  by (simp add: mid_run_moves read_lease_def)

lemma break_stale_2:
  "late_step (mid_run p (Reaping i now b) t (Some b) f l) (mid_run p (Trying i now) t None f l)"
  using ledger_step.reap [where s = "mid_run p (Reaping i now b) t (Some b) f l" and p = True and io = guard_io_ok
      and data = b and gone = True and err = None and ph = "Trying i now" and i = i and now = now
      and v = "\<lparr>ld_lease = None, va_ledger = f\<rparr>"]
  by (simp add: mid_run_moves Break_ok)


end
