(* ===== verification/CommitmentText.thy ===== *)
theory CommitmentText
  imports GoText GoCrypto
begin

text \<open>
  How a commitment's text is read, internal/commitment/lifecycle.go: which wording reports that a
  commitment was met, dropped or moved and in whose voice, when two counterparties are the same
  person, and how much two texts are about the same thing. A \<open>map[string]bool\<close> that is only
  asked for membership and size is a list without repetitions. The due-date phrases of core.go,
  which are regular expressions, are not modelled; its identifier is.
\<close>

subsection \<open>Identifiers\<close>

definition put_uint32 :: "nat \<Rightarrow> string" where
  \<comment> \<open>\<open>binary.BigEndian.PutUint32\<close> of a length, which the conversion cuts to 32 bits\<close>
  "put_uint32 n = (let n = n mod 2 ^ 32 in
     map char_of [n div 2 ^ 24, n div 2 ^ 16 mod 256, n div 2 ^ 8 mod 256, n mod 256])"

definition id_preimage :: "string \<Rightarrow> string \<Rightarrow> int \<Rightarrow> string" where
  "id_preimage messageRef blockRef slot =
     concat (map (\<lambda>c. put_uint32 (length c) @ c) [messageRef, blockRef, show_nat (nat slot)])"

definition commitment_ID :: "string \<Rightarrow> string \<Rightarrow> int \<Rightarrow> string" where
  "commitment_ID messageRef blockRef slot =
     (if messageRef = [] \<or> blockRef = [] \<or> slot < 0 then []
      else ''commit:v1:'' @ hex_string (sha256 (id_preimage messageRef blockRef slot)))"

subsection \<open>Phrases\<close>

abbreviation Open :: string where "Open \<equiv> ''open''"
abbreviation Closed :: string where "Closed \<equiv> ''closed''"
abbreviation Superseded :: string where "Superseded \<equiv> ''superseded''"

datatype voice = VoiceDelivery | VoiceAck | VoiceAttendanceAck | VoiceEither

definition not_done_phrases :: "string list" where
  "not_done_phrases = [
    ''haven't '', ''have not '', ''hasn't '', ''has not '', ''didn't '', ''did not '',
    ''not sent'', ''not delivered'', ''not uploaded'', ''not finished'', ''never sent'', ''will send'',
    ''will deliver'', ''will upload'', ''going to send'', ''plan to send'', ''intend to send'',
    ''can send'', ''could send'', ''should send'', ''is staged'', ''was staged'', ''staged for'',
    ''queued for'', ''ready to send'']"

definition superseding_phrases :: "string list" where
  "superseding_phrases = [
    ''instead'', ''replaced by'', ''new deadline'', ''deadline moved'', ''deadline changed'',
    ''moved to monday'', ''moved to tuesday'', ''moved to wednesday'', ''moved to thursday'',
    ''moved to friday'']"

definition cancelling_phrases :: "string list" where
  "cancelling_phrases = [
    ''no longer needed'', ''cancelled'', ''canceled'']"

definition attendance_phrases :: "string list" where
  "attendance_phrases = [
    ''thanks for coming'', ''thank you for coming'', ''thanks for joining'', ''thank you for joining'']"

definition receipt_phrases :: "string list" where
  "receipt_phrases = [
    ''got it'', ''got the '', ''received '', ''i found '', ''we found '', ''opens correctly'',
    ''arrived'']"

definition delivery_phrases :: "string list" where
  "delivery_phrases = [
    ''i sent '', ''we sent '', ''sent the '', ''sent it'', ''i delivered '', ''we delivered '',
    ''was delivered'', ''i attached '', ''we attached '', ''attached the '', ''i uploaded '',
    ''we uploaded '', ''completed '', ''finished '', ''all set'', ''as promised'', ''already sent'',
    ''already delivered'', ''already uploaded'', ''already attached'', ''already did'',
    ''already done'', ''already finished'', ''already handled'', ''already took care of'',
    ''took care of it already'', ''alr sent'', ''alr delivered'', ''alr uploaded'', ''alr attached'',
    ''alr did'', ''alr done'', ''alr finished'', ''alr handled'']"

definition question_openings :: "string list" where
  "question_openings = [
    ''did you '', ''did they '', ''have you '', ''has it '', ''has the '', ''is it '', ''is the '',
    ''was it '', ''was the '', ''when will '', ''will you '', ''can you '', ''could you '']"

definition objectStopwords :: "string list" where
  "objectStopwords = [
    ''a'', ''an'', ''and'', ''are'', ''at'', ''before'', ''by'', ''can'', ''could'', ''did'', ''do'',
    ''for'', ''from'', ''got'', ''have'', ''i'', ''in'', ''is'', ''it'', ''me'', ''my'', ''now'',
    ''of'', ''on'', ''please'', ''send'', ''sent'', ''share'', ''shared'', ''the'', ''them'', ''this'',
    ''to'', ''upload'', ''uploaded'', ''we'', ''will'', ''with'', ''you'', ''your'', ''delivered'',
    ''attached'', ''completed'', ''finished'', ''instead'', ''deadline'', ''moved'']"

definition oneLine :: "string \<Rightarrow> string" where
  "oneLine s = join '' '' (Fields s)"

definition containsAnyPhrase :: "string \<Rightarrow> string list \<Rightarrow> bool" where
  "containsAnyPhrase s phrases = list_ex (contains s) phrases"

definition looksQuestion :: "string \<Rightarrow> bool" where
  "looksQuestion lower = (if contains lower ''?'' then True
     else (let trimmed = TrimSpace lower in list_ex (has_prefix trimmed) question_openings))"

definition transition :: "unicode \<Rightarrow> string \<Rightarrow> string \<times> voice" where
  "transition u text = (let lower = ToLower u (oneLine text) in
     if lower = [] \<or> looksQuestion lower \<or> containsAnyPhrase lower not_done_phrases then ([], VoiceEither)
     else if containsAnyPhrase lower superseding_phrases then (Superseded, VoiceEither)
     else if containsAnyPhrase lower cancelling_phrases then (Closed, VoiceEither)
     else if containsAnyPhrase lower attendance_phrases then (Closed, VoiceAttendanceAck)
     else if containsAnyPhrase lower receipt_phrases then (Closed, VoiceAck)
     else if containsAnyPhrase lower delivery_phrases \<or> lower = ''done'' \<or> has_prefix lower ''done ''
       \<or> contains lower '' done '' then (Closed, VoiceDelivery)
     else ([], VoiceEither))"

definition strictlyAfter :: "string \<Rightarrow> string \<Rightarrow> bool" where
  "strictlyAfter opened evidence = (case (parse_rfc3339 (TrimSpace opened), parse_rfc3339 (TrimSpace evidence)) of
       (Some t, Some e) \<Rightarrow> t < e | _ \<Rightarrow> False)"

subsection \<open>Counterparties\<close>

definition normal_key :: "unicode \<Rightarrow> string \<Rightarrow> string" where
  "normal_key u key = ToLower u (TrimSpace key)"

definition stableAtomValues :: "unicode \<Rightarrow> string list \<Rightarrow> string \<Rightarrow> string list" where
  "stableAtomValues u keys wantKind = remdups (concat (map (\<lambda>key.
     (let (kind, value, ok) = cut_char (normal_key u key) CHR '':'' in
      if ok \<and> kind = wantKind \<and> value \<noteq> [] then [value] else [])) keys))"

fun atom_conflict :: "unicode \<Rightarrow> string list \<Rightarrow> string list \<Rightarrow> string list \<Rightarrow> bool" where
  \<comment> \<open>the loop of \<open>stableAtomConflict\<close> over the kinds\<close>
  "atom_conflict u left right [] = False"
| "atom_conflict u left right (kind # kinds) =
     (let leftValues = stableAtomValues u left kind; rightValues = stableAtomValues u right kind in
      if leftValues = [] \<or> rightValues = [] then atom_conflict u left right kinds
      else \<not> list_ex (\<lambda>value. value \<in> set rightValues) leftValues)"

definition stableAtomConflict :: "unicode \<Rightarrow> string list \<Rightarrow> string list \<Rightarrow> bool" where
  "stableAtomConflict u left right = atom_conflict u left right [''address'', ''handle'']"

definition fullNameKeys :: "unicode \<Rightarrow> string list \<Rightarrow> string list" where
  "fullNameKeys u keys = remdups (concat (map (\<lambda>key.
     (let (kind, value, ok) = cut_char (normal_key u key) CHR '':'' in
      if \<not> ok \<or> kind \<noteq> ''name'' \<or> length (Fields value) < 2 then [] else [value])) keys))"

definition counterpartyLinked :: "unicode \<Rightarrow> string list \<Rightarrow> string list \<Rightarrow> bool" where
  "counterpartyLinked u keys evidenceKeys =
     (let evidenceSet = map (normal_key u) evidenceKeys;
          shares = (\<lambda>key. let normalized = normal_key u key; (kind, _, ok) = cut_char normalized CHR '':'' in
            if \<not> ok \<or> kind = ''given'' then False else kind \<noteq> ''name'' \<and> normalized \<in> set evidenceSet)
      in if list_ex shares keys then True
         else if stableAtomConflict u keys evidenceKeys then False
         else list_ex (\<lambda>full. full \<in> set (fullNameKeys u evidenceKeys)) (fullNameKeys u keys))"

subsection \<open>Objects\<close>

definition objectTokens :: "unicode \<Rightarrow> string \<Rightarrow> string list" where
  "objectTokens u text = remdups (concat (map (\<lambda>raw.
     (let token = TrimSpace raw in
      if length token < 3 \<or> token \<in> set objectStopwords then []
      else [if 4 < length token \<and> has_suffix token ''s'' then take (length token - 1) token else token]))
     (FieldsFunc (\<lambda>r. \<not> is_letter u r \<and> \<not> is_digit_rune u r) (ToLower u text))))"

definition objectOverlap :: "unicode \<Rightarrow> string \<Rightarrow> string \<Rightarrow> nat" where
  "objectOverlap u a b = length (filter (\<lambda>t. t \<in> set (objectTokens u b)) (objectTokens u a))"

end
