(* ===== verification/Disposition.thy ===== *)
theory Disposition
  imports GovernancePolicy "HOL-Library.Product_Lexorder"
begin

text \<open>
  Corrections, internal/disposition/disposition.go: which of the owner's own correction records
  says what about a memory. The result maps the scope and identifier of a memory to the verdict
  in force. The main fact is that \<open>Project\<close> picks, for each memory, the correction with
  authority that comes last by instant and then by identifier, so the order in which the records
  are read does not matter.
\<close>

record memory =
  me_ID :: string
  me_Scope :: string
  me_Type :: string
  me_Source :: string
  me_CreatedAt :: string
  me_Provider :: string
  me_ProviderID :: string
  me_DeletedAt :: string
  me_Owner :: string
  me_Meta :: meta

record disposition =
  di_Value :: string
  di_CorrectionID :: string
  di_At :: string

type_synonym key = "string \<times> string" \<comment> \<open>scope, identifier\<close>

definition Valid :: "string \<Rightarrow> bool" where
  "Valid value \<longleftrightarrow> value = ''not-context'' \<or> value = ''keep'' \<or> value = ''done'' \<or> value = ''outdated''"

definition ValidateFields :: "string \<Rightarrow> string \<Rightarrow> go_error option" where
  "ValidateFields target value =
     (if target \<noteq> [] \<and> TrimSpace target \<noteq> target then Some (OtherError ''target must be an exact memory id'')
      else if value \<noteq> [] \<and> \<not> Valid value then Some (OtherError ''invalid disposition'')
      else if value \<noteq> [] \<and> target = [] then Some (OtherError ''disposition requires target'')
      else None)"

definition meta_field :: "meta \<Rightarrow> string \<Rightarrow> string option" where
  \<comment> \<open>\<open>v, ok := m[k].(string)\<close>; a nil map has no keys\<close>
  "meta_field m k = (case Option.bind m (\<lambda>f. map_of f k) of Some (AString s) \<Rightarrow> Some s | _ \<Rightarrow> None)"

definition ValidateTarget :: "memory \<Rightarrow> memory \<Rightarrow> go_error option" where
  "ValidateTarget correction target = (case meta_field (me_Meta correction) ''target'' of
       None \<Rightarrow> Some (OtherError ''correction requires target'')
     | Some i \<Rightarrow>
         if i = [] then Some (OtherError ''correction requires target'')
         else if me_ID target \<noteq> i \<or> me_DeletedAt target \<noteq> [] \<or> me_Owner target \<noteq> [] then
           Some (OtherError ''target must be an existing local memory'')
         else if me_Scope correction \<noteq> me_Scope target then Some (OtherError ''target must be in the correction's scope'')
         else None)"

definition connector_families :: "string list" where
  "connector_families = [''gmail'', ''imessage'', ''whatsapp'', ''calendar'', ''applecalendar'', ''applecal'', ''github'']"

definition IsLocalAuthored :: "unicode \<Rightarrow> memory \<Rightarrow> bool" where
  "IsLocalAuthored u m =
     (if me_Provider m \<noteq> [] \<or> me_ProviderID m \<noteq> [] \<or> me_Owner m \<noteq> [] then False
      else (let source = ToLower u (TrimSpace (me_Source m)); family = fst (cut_char source CHR '':'') in
        family \<notin> set connector_families))"

definition project_targets :: "memory list \<Rightarrow> key \<rightharpoonup> memory" where
  "project_targets records = foldl (\<lambda>targets m.
     if me_Owner m = [] \<and> me_DeletedAt m = [] \<and> me_ID m \<noteq> [] then targets((me_Scope m, me_ID m) \<mapsto> m)
     else targets) Map.empty records"

definition authority :: "unicode \<Rightarrow> instant \<Rightarrow> (key \<rightharpoonup> memory) \<Rightarrow> memory \<Rightarrow> (key \<times> instant \<times> disposition) option" where
  \<comment> \<open>the checks of the second loop, down to the ones against what was found before: the memory a
      record speaks about, its instant and its verdict, or \<open>None\<close> where the loop continues\<close>
  "authority u now targets c =
     (if me_Type c \<noteq> ''correction'' \<or> me_Provider c \<noteq> [] \<or> me_ProviderID c \<noteq> [] \<or> \<not> IsLocalAuthored u c
        \<or> me_Owner c \<noteq> [] \<or> me_DeletedAt c \<noteq> [] \<or> me_ID c = [] then None
      else case (meta_field (me_Meta c) ''target'', meta_field (me_Meta c) ''disposition'') of
        (Some i, Some value) \<Rightarrow>
          if i = [] \<or> \<not> Valid value \<or> ValidateFields i value \<noteq> None then None
          else (case targets (me_Scope c, i) of None \<Rightarrow> None
            | Some target \<Rightarrow>
                if ValidateTarget c target \<noteq> None then None
                else (case parse_rfc3339 (me_CreatedAt c) of None \<Rightarrow> None
                  | Some at \<Rightarrow>
                      if now < at then None
                      else (case parse_rfc3339 (me_CreatedAt target) of None \<Rightarrow> None
                        | Some targetAt \<Rightarrow>
                            if at < targetAt then None
                            else Some ((me_Scope c, i), at,
                              \<lparr>di_Value = value, di_CorrectionID = me_ID c, di_At = me_CreatedAt c\<rparr>))))
      | _ \<Rightarrow> None)"

definition project_step ::
  "(key \<times> instant \<times> disposition) option \<Rightarrow> (key \<rightharpoonup> instant \<times> disposition) \<Rightarrow> (key \<rightharpoonup> instant \<times> disposition)" where
  \<comment> \<open>the end of the loop body; \<open>out\<close> and \<open>times\<close>, which are written together, are one map\<close>
  "project_step a out = (case a of None \<Rightarrow> out
     | Some (key, at, d) \<Rightarrow> (case out key of
         Some (t, previous) \<Rightarrow>
           if at < t \<or> (at = t \<and> di_CorrectionID d \<le> di_CorrectionID previous) then out
           else out(key \<mapsto> (at, d))
       | None \<Rightarrow> out(key \<mapsto> (at, d))))"

definition Project :: "unicode \<Rightarrow> memory list \<Rightarrow> instant \<Rightarrow> key \<rightharpoonup> disposition" where
  "Project u records now =
     (let targets = project_targets records;
          out = foldl (\<lambda>out c. project_step (authority u now targets c) out) Map.empty records
      in (\<lambda>k. map_option snd (out k)))"

subsection \<open>The choice\<close>

definition rank :: "instant \<times> disposition \<Rightarrow> instant \<times> string" where
  "rank x = (fst x, di_CorrectionID (snd x))"

definition chosen :: "(key \<times> instant \<times> disposition) set \<Rightarrow> key \<Rightarrow> instant \<times> disposition \<Rightarrow> bool" where
  "chosen rows k x \<longleftrightarrow> (k, x) \<in> rows \<and> (\<forall>y. (k, y) \<in> rows \<longrightarrow> rank y \<le> rank x)"

definition rows_of :: "(key \<times> instant \<times> disposition) option list \<Rightarrow> (key \<times> instant \<times> disposition) set" where
  "rows_of as = {r. Some r \<in> set as}"

lemma project_step_chosen:
  assumes "\<And>k. out k = None \<longleftrightarrow> (\<forall>x. (k, x) \<notin> rows)" "\<And>k x. out k = Some x \<Longrightarrow> chosen rows k x"
  shows "project_step (Some (key, row)) out k = None \<longleftrightarrow> (\<forall>x. (k, x) \<notin> insert (key, row) rows)"
    "project_step (Some (key, row)) out k = Some x \<Longrightarrow> chosen (insert (key, row) rows) k x"
proof -
  obtain at d where row: "row = (at, d)" by force
  show "project_step (Some (key, row)) out k = None \<longleftrightarrow> (\<forall>x. (k, x) \<notin> insert (key, row) rows)"
    using assms(1) by (auto simp: project_step_def row split: option.splits)
  assume x: "project_step (Some (key, row)) out k = Some x"
  show "chosen (insert (key, row) rows) k x"
  proof (cases "k = key")
    case False
    then show ?thesis using x assms(2) [of k x]
      by (auto simp: project_step_def row chosen_def split: option.splits if_splits)
  next
    case True
    show ?thesis
    proof (cases "out key")
      case None
      then have "x = (at, d)" using x True by (simp add: project_step_def row)
      then show ?thesis using assms(1) [of key] None True by (auto simp: chosen_def row)
    next
      case (Some y)
      have c: "chosen rows key y" using assms(2) Some .
      have le: "x = y \<and> rank row \<le> rank y \<or> x = row \<and> rank y \<le> rank row"
        using x True Some by (cases y) (auto simp: project_step_def row rank_def less_eq_prod_def split: if_splits)
      then show ?thesis using c True unfolding chosen_def by (auto intro: order_trans)
    qed
  qed
qed

lemma project_fold_chosen:
  "(foldl (\<lambda>out a. project_step a out) Map.empty as k = None \<longleftrightarrow> (\<forall>x. (k, x) \<notin> rows_of as))
   \<and> (foldl (\<lambda>out a. project_step a out) Map.empty as k = Some x \<longrightarrow> chosen (rows_of as) k x)"
proof (induction as arbitrary: k x rule: rev_induct)
  case (snoc a as)
  let ?out = "foldl (\<lambda>out a. project_step a out) Map.empty as"
  show ?case
  proof (cases a)
    case None
    then show ?thesis using snoc by (auto simp: project_step_def rows_of_def)
  next
    case (Some r)
    obtain key row where r: "r = (key, row)" by (metis surj_pair)
    have "rows_of (as @ [a]) = insert (key, row) (rows_of as)" by (auto simp: rows_of_def Some r)
    with project_step_chosen [of ?out "rows_of as" key row] snoc show ?thesis
      by (simp add: Some r)
  qed
qed (simp add: rows_of_def)

definition local_live :: "memory \<Rightarrow> bool" where
  "local_live m \<longleftrightarrow> me_Owner m = [] \<and> me_DeletedAt m = [] \<and> me_ID m \<noteq> []"

definition memory_key :: "memory \<Rightarrow> key" where "memory_key m = (me_Scope m, me_ID m)"

definition well_keyed :: "memory list \<Rightarrow> bool" where
  \<comment> \<open>no two local records that are not deleted share a scope and an identifier\<close>
  "well_keyed records \<longleftrightarrow> distinct (map memory_key (filter local_live records))"

lemma project_targets_map_of:
  "project_targets records = map_of (rev (map (\<lambda>m. (memory_key m, m)) (filter local_live records)))"
proof (induction records rule: rev_induct)
  case (snoc m records)
  have "project_targets (records @ [m]) = (if local_live m then (project_targets records)(memory_key m \<mapsto> m) else project_targets records)"
    by (simp add: project_targets_def local_live_def memory_key_def)
  with snoc show ?case by (auto simp: map_add_def fun_eq_iff)
qed (simp add: project_targets_def)

lemma well_keyed_same: "well_keyed records \<Longrightarrow> m \<in> set records \<Longrightarrow> n \<in> set records \<Longrightarrow> local_live m \<Longrightarrow> local_live n
    \<Longrightarrow> memory_key m = memory_key n \<Longrightarrow> m = n"
  by (auto simp: well_keyed_def distinct_map inj_on_def)

lemma project_targets_permuted:
  assumes "mset records = mset records'" "well_keyed records"
  shows "project_targets records' = project_targets records"
proof -
  have m: "mset (filter local_live records) = mset (filter local_live records')" using assms(1) by simp
  have "well_keyed records'" using assms(2) m unfolding well_keyed_def by (metis mset_eq_imp_distinct_iff mset_map)
  then have d: "distinct (map fst (map (\<lambda>m. (memory_key m, m)) (filter local_live rs)))" if "rs = records \<or> rs = records'" for rs
    using assms(2) that by (auto simp: well_keyed_def comp_def)
  have "set (filter local_live records) = set (filter local_live records')" using m by (metis set_mset_mset)
  then have "set (map (\<lambda>m. (memory_key m, m)) (filter local_live records'))
      = set (map (\<lambda>m. (memory_key m, m)) (filter local_live records))" by (simp del: set_filter)
  then have "map_of (map (\<lambda>m. (memory_key m, m)) (filter local_live records'))
      = map_of (map (\<lambda>m. (memory_key m, m)) (filter local_live records))"
    using map_of_inject_set [OF d [of records'] d [of records]] by simp
  moreover have "map_of (rev xs) = map_of xs" if "distinct (map fst xs)" for xs :: "(key \<times> memory) list"
    by (intro iffD2 [OF map_of_inject_set]) (use that in \<open>auto simp: rev_map [symmetric]\<close>)
  ultimately show ?thesis unfolding project_targets_map_of using d [of records] d [of records'] by simp
qed

lemma authority_row:
  assumes "authority u now targets c = Some (k, x)"
  shows "local_live c" "fst k = me_Scope c" "di_CorrectionID (snd x) = me_ID c"
  using assms
  by (auto simp: authority_def local_live_def split: if_splits option.splits)

lemma Project_chosen:
  fixes u now records
  defines "rows \<equiv> {r. \<exists>c \<in> set records. authority u now (project_targets records) c = Some r}"
  shows "Project u records now k = None \<longleftrightarrow> (\<forall>x. (k, x) \<notin> rows)"
    and "Project u records now k = Some d \<Longrightarrow> \<exists>at. chosen rows k (at, d)"
proof -
  let ?as = "map (authority u now (project_targets records)) records"
  have p: "Project u records now k = map_option snd (foldl (\<lambda>out a. project_step a out) Map.empty ?as k)" for k
    by (simp add: Project_def Let_def foldl_map)
  have r: "rows_of ?as = rows" by (auto simp: rows_of_def rows_def image_iff) metis+
  show "Project u records now k = None \<longleftrightarrow> (\<forall>x. (k, x) \<notin> rows)"
    using project_fold_chosen [of ?as k] by (simp add: p r)
  show "\<exists>at. chosen rows k (at, d)" if "Project u records now k = Some d"
    using project_fold_chosen [of ?as k] that by (auto simp: p r)
qed

definition authority_rows :: "unicode \<Rightarrow> instant \<Rightarrow> memory list \<Rightarrow> (key \<times> instant \<times> disposition) set" where
  "authority_rows u now records = {r. \<exists>c \<in> set records. authority u now (project_targets records) c = Some r}"

lemma chosen_once:
  assumes "well_keyed records" "chosen (authority_rows u now records) k x" "chosen (authority_rows u now records) k y"
  shows "x = y"
proof -
  let ?a = "authority u now (project_targets records)"
  obtain c c' where c: "c \<in> set records" "?a c = Some (k, x)" "c' \<in> set records" "?a c' = Some (k, y)"
    using assms(2,3) unfolding chosen_def authority_rows_def by blast
  have "rank x = rank y" using assms(2,3) unfolding chosen_def by (meson antisym)
  then have "memory_key c = memory_key c'"
    using authority_row [OF c(2)] authority_row [OF c(4)] by (simp add: memory_key_def rank_def)
  moreover have "local_live c" "local_live c'" using authority_row(1) c(2,4) by blast+
  ultimately have "c = c'" using well_keyed_same [OF assms(1) c(1,3)] by blast
  with c show "x = y" by simp
qed

lemma Project_Some:
  assumes "well_keyed records"
  shows "Project u records now k = Some d \<longleftrightarrow> (\<exists>at. chosen (authority_rows u now records) k (at, d))"
proof
  show "\<exists>at. chosen (authority_rows u now records) k (at, d)" if "Project u records now k = Some d"
    using Project_chosen(2) [OF that] unfolding authority_rows_def .
  assume "\<exists>at. chosen (authority_rows u now records) k (at, d)"
  then obtain at where at: "chosen (authority_rows u now records) k (at, d)" ..
  then have "Project u records now k \<noteq> None"
    using Project_chosen(1) [of u records now k] unfolding authority_rows_def chosen_def by blast
  then obtain d' at' where "Project u records now k = Some d'" "chosen (authority_rows u now records) k (at', d')"
    using Project_chosen(2) [of u records now k] unfolding authority_rows_def by blast
  with chosen_once [OF assms at] show "Project u records now k = Some d" by auto
qed

lemma Project_permuted:
  assumes "well_keyed records" "mset records = mset records'"
  shows "Project u records' now = Project u records now"
proof (rule ext)
  fix k
  have "well_keyed records'" using assms unfolding well_keyed_def
    by (metis mset_eq_imp_distinct_iff mset_filter mset_map)
  moreover have "authority_rows u now records' = authority_rows u now records"
    unfolding authority_rows_def project_targets_permuted [OF assms(2,1)] mset_eq_setD [OF assms(2)] by (rule refl)
  ultimately have "Project u records' now k = Some d \<longleftrightarrow> Project u records now k = Some d" for d
    using assms(1) by (simp add: Project_Some)
  then show "Project u records' now k = Project u records now k" by (metis not_None_eq)
qed

lemma chosen_last:
  "chosen (authority_rows u now records) k (at, d) \<longleftrightarrow>
    (\<exists>c \<in> set records. authority u now (project_targets records) c = Some (k, at, d)
      \<and> (\<forall>c' \<in> set records. \<forall>at' d'. authority u now (project_targets records) c' = Some (k, at', d')
          \<longrightarrow> at' < at \<or> at' = at \<and> me_ID c' \<le> me_ID c))"
proof -
  let ?a = "authority u now (project_targets records)"
  have rk: "rank (at', d') \<le> rank (at, d) \<longleftrightarrow> at' < at \<or> at' = at \<and> me_ID c' \<le> me_ID c"
    if "?a c = Some (k, at, d)" "?a c' = Some (k, at', d')" for c c' at' d'
    using authority_row(3) [OF that(1)] authority_row(3) [OF that(2)] by (auto simp: rank_def)
  have "chosen (authority_rows u now records) k (at, d) \<longleftrightarrow> (\<exists>c \<in> set records. ?a c = Some (k, at, d)
    \<and> (\<forall>c' \<in> set records. \<forall>at' d'. ?a c' = Some (k, at', d') \<longrightarrow> rank (at', d') \<le> rank (at, d)))"
    unfolding chosen_def authority_rows_def by auto
  also have "\<dots> \<longleftrightarrow> (\<exists>c \<in> set records. ?a c = Some (k, at, d)
    \<and> (\<forall>c' \<in> set records. \<forall>at' d'. ?a c' = Some (k, at', d') \<longrightarrow> at' < at \<or> at' = at \<and> me_ID c' \<le> me_ID c))"
    using rk by (simp cong: conj_cong imp_cong)
  finally show ?thesis .
qed

text \<open>C13: A memory's verdict is its latest correction, in whatever order the records are read. Where no
  two local records that are not deleted share a scope and an identifier, \<open>Project\<close> gives a memory
  the verdict \<open>d\<close> exactly when \<open>d\<close> is what a correction with authority over it says, and every
  other correction with authority over it comes earlier, or at the same instant under a smaller
  identifier; and any rearrangement of the records gives the same result.\<close>

theorem latest_correction_wins:
  assumes "well_keyed records" "mset records = mset records'"
  shows "Project u records' now = Project u records now
    \<and> (Project u records now k = Some d \<longleftrightarrow>
        (\<exists>c \<in> set records. \<exists>at. authority u now (project_targets records) c = Some (k, at, d)
          \<and> (\<forall>c' \<in> set records. \<forall>at' d'. authority u now (project_targets records) c' = Some (k, at', d')
              \<longrightarrow> at' < at \<or> at' = at \<and> me_ID c' \<le> me_ID c)))"
  unfolding Project_permuted [OF assms] Project_Some [OF assms(1)] chosen_last by blast

subsection \<open>Examples\<close>

definition note_memory :: memory where
  "note_memory = \<lparr>me_ID = ''mem_1'', me_Scope = ''home'', me_Type = ''note'', me_Source = ''cli'',
     me_CreatedAt = ''1970-01-01T00:00:00Z'', me_Provider = [], me_ProviderID = [], me_DeletedAt = [],
     me_Owner = [], me_Meta = None\<rparr>"

definition correction_memory :: "string \<Rightarrow> string \<Rightarrow> string \<Rightarrow> memory" where
  "correction_memory i at verdict = note_memory\<lparr>me_ID := i, me_Type := ''correction'', me_CreatedAt := at,
     me_Meta := Some [(''target'', AString ''mem_1''), (''disposition'', AString verdict)]\<rparr>"

definition corrected :: "memory list" where
  "corrected = [correction_memory ''mem_3'' ''1970-01-01T00:00:00Z'' ''done'', note_memory,
     correction_memory ''mem_2'' ''1970-01-01T00:00:00Z'' ''keep'']"

lemma corrected_verdict:
  "Project ascii_only corrected 0 (''home'', ''mem_1'')
    = Some \<lparr>di_Value = ''done'', di_CorrectionID = ''mem_3'', di_At = ''1970-01-01T00:00:00Z''\<rparr>"
proof -
  have "parse_rfc3339 ''1970-01-01T00:00:00Z'' = Some 0" by code_simp
  moreover have "TrimSpace ''mem_1'' = ''mem_1''" "TrimSpace ''cli'' = ''cli''" "ToLower ascii_only ''cli'' = ''cli''"
    by (simp_all add: TrimSpace_plain ToLower_lower byte_def)
  ultimately show ?thesis
    by (simp add: Project_def project_targets_def corrected_def correction_memory_def note_memory_def authority_def
        IsLocalAuthored_def connector_families_def cut_char_def meta_field_def Valid_def ValidateFields_def
        ValidateTarget_def project_step_def second_def)
qed

theorem latest_correction_wins_witness:
  "Project ascii_only (rev corrected) 0 (''home'', ''mem_1'')
    = Some \<lparr>di_Value = ''done'', di_CorrectionID = ''mem_3'', di_At = ''1970-01-01T00:00:00Z''\<rparr>"
proof -
  have "well_keyed corrected"
    by (simp add: well_keyed_def corrected_def correction_memory_def note_memory_def local_live_def memory_key_def)
  then show ?thesis using latest_correction_wins [of corrected "rev corrected"] corrected_verdict by simp
qed

end
