(* ===== verification/EvidenceCitation.thy ===== *)
theory EvidenceCitation
  imports Disposition
begin

text \<open>
  Citations, internal/evidence/citation.go: the four fields that say where a piece of evidence
  comes from, trimmed and checked by the only constructor. A memory's citation fills the channel
  and the source from the memory itself where the caller gives none, and writes its date in UTC.
\<close>

record citation =
  ct_memoryID :: string
  ct_channel :: string
  ct_source :: string
  ct_date :: string

definition no_citation :: citation where
  \<comment> \<open>the zero value\<close>
  "no_citation = \<lparr>ct_memoryID = [], ct_channel = [], ct_source = [], ct_date = []\<rparr>"

definition Citation_Validate :: "citation \<Rightarrow> go_error option" where
  "Citation_Validate c =
     (if ct_memoryID c = [] then Some (OtherError ''missing memory_id'')
      else if ct_channel c = [] then Some (OtherError ''missing channel'')
      else if ct_source c = [] then Some (OtherError ''missing source'')
      else if ct_date c = [] then Some (OtherError ''missing date'')
      else (case parse_rfc3339 (ct_date c) of None \<Rightarrow> Some (OtherError ''invalid date'') | Some _ \<Rightarrow> None))"

definition NewCitation :: "string \<Rightarrow> string \<Rightarrow> string \<Rightarrow> string \<Rightarrow> go_error + citation" where
  "NewCitation memoryID channel source date =
     (let c = \<lparr>ct_memoryID = TrimSpace memoryID, ct_channel = TrimSpace channel, ct_source = TrimSpace source,
            ct_date = TrimSpace date\<rparr>
      in case Citation_Validate c of Some e \<Rightarrow> Inl e | None \<Rightarrow> Inr c)"

definition ForMemory :: "memory \<Rightarrow> string \<Rightarrow> string \<Rightarrow> go_error + citation" where
  "ForMemory m source date =
     (let channel = TrimSpace (me_Provider m);
          channel = (if channel = [] then TrimSpace (me_Type m) else channel);
          source = TrimSpace source;
          source = (if source = [] then
              (let source = TrimSpace (me_Source m) in
               if source = [] then (if me_Provider m \<noteq> [] then me_Provider m else me_Type m) else source)
            else source);
          channel = (if channel = [] then source else channel);
          date = (case parse_rfc3339 (TrimSpace date) of Some t \<Rightarrow> format_rfc3339 t | None \<Rightarrow> date)
      in NewCitation (me_ID m) channel source date)"


text \<open>What \<open>format_rfc3339\<close> writes has nothing to trim.\<close>

lemma plain_digit: "n < 10 \<Longrightarrow> 32 < byte (digit_char n) \<and> byte (digit_char n) < 128"
  by (simp add: byte_def digit_char_def)

lemma plain_two: "n < 100 \<Longrightarrow> list_all (\<lambda>c. 32 < byte c \<and> byte c < 128) (two n)"
  using plain_digit by (simp add: two_def)

lemma plain_show_nat: "list_all (\<lambda>c. 32 < byte c \<and> byte c < 128) (show_nat n)"
proof (induction n rule: show_nat.induct)
  case (1 n)
  then show ?case using plain_digit by (cases "n < 10") (simp_all add: show_nat.simps [of n])
qed

lemma plain_four: "list_all (\<lambda>c. 32 < byte c \<and> byte c < 128) (four n)"
  using plain_digit plain_show_nat by (auto simp: four_def)

lemma TrimSpace_format [simp]: "TrimSpace (format_rfc3339 t) = format_rfc3339 t"
proof (rule TrimSpace_plain)
  obtain y m d where c: "civil_of_days (t div second div 86400) = (y, m, d)" by (metis prod_cases3)
  then have v: "valid_date y m d" using civil_of_days_correct [OF c] by simp
  then have "nat m < 100" "nat d < 100"
    by (auto simp: valid_date_def days_in_def month_len_def split: if_splits)
  moreover have "nat (t div second mod 86400) div 3600 < 100"
    using pos_mod_bound [of 86400 "t div second"] by (simp add: div_less_iff_less_mult nat_less_iff)
  ultimately show "list_all (\<lambda>c. 32 < byte c \<and> byte c < 128) (format_rfc3339 t)"
    using plain_two plain_four by (simp add: format_rfc3339_def Let_def c format_year_def byte_def)
qed

text \<open>A citation is never vague. Where \<open>ForMemory\<close> returns one, it passes its own validation, it names
  the memory, its channel and its source are not empty, and the date given was a real instant, which
  the citation carries in UTC: for the years of four digits, reading the date back gives that instant
  to the second.\<close>

lemma citations_are_definite:
  assumes "ForMemory m source date = Inr c"
  shows "Citation_Validate c = None \<and> ct_memoryID c = TrimSpace (me_ID m) \<and> ct_memoryID c \<noteq> []
    \<and> ct_channel c \<noteq> [] \<and> ct_source c \<noteq> []
    \<and> (\<exists>t. parse_rfc3339 (TrimSpace date) = Some t \<and> ct_date c = format_rfc3339 t
        \<and> (in_years t \<longrightarrow> parse_rfc3339 (ct_date c) = Some (truncate_second t)))"
proof -
  obtain ch so where n: "NewCitation (me_ID m) ch so
      (case parse_rfc3339 (TrimSpace date) of Some t \<Rightarrow> format_rfc3339 t | None \<Rightarrow> date) = Inr c"
    using assms unfolding ForMemory_def Let_def by blast
  then have v: "Citation_Validate c = None" "ct_memoryID c = TrimSpace (me_ID m)"
    "ct_date c = TrimSpace (case parse_rfc3339 (TrimSpace date) of Some t \<Rightarrow> format_rfc3339 t | None \<Rightarrow> date)"
    by (auto simp: NewCitation_def Let_def split: option.splits)
  have ne: "ct_memoryID c \<noteq> []" "ct_channel c \<noteq> []" "ct_source c \<noteq> []" "parse_rfc3339 (ct_date c) \<noteq> None"
    using v(1) by (auto simp: Citation_Validate_def split: if_splits option.splits)
  then obtain t where "parse_rfc3339 (TrimSpace date) = Some t"
    using v(3) by (cases "parse_rfc3339 (TrimSpace date)") auto
  with v ne show ?thesis using parse_format by auto
qed

lemma citations_are_definite_witness:
  "ForMemory note_memory [] ''1970-01-01T00:00:00Z'' = Inr \<lparr>ct_memoryID = ''mem_1'', ct_channel = ''note'',
      ct_source = ''cli'', ct_date = ''1970-01-01T00:00:00Z''\<rparr>
    \<and> (\<exists>t. parse_rfc3339 (TrimSpace ''1970-01-01T00:00:00Z'') = Some t)"
proof -
  have p: "parse_rfc3339 ''1970-01-01T00:00:00Z'' = Some 0" by code_simp
  have f: "format_rfc3339 0 = ''1970-01-01T00:00:00Z''" by code_simp
  have t: "TrimSpace ''1970-01-01T00:00:00Z'' = ''1970-01-01T00:00:00Z''" "TrimSpace ''mem_1'' = ''mem_1''"
    "TrimSpace ''note'' = ''note''" "TrimSpace ''cli'' = ''cli''" "TrimSpace [] = []"
    by (simp_all add: TrimSpace_plain byte_def)
  have "ForMemory note_memory [] ''1970-01-01T00:00:00Z'' = Inr \<lparr>ct_memoryID = ''mem_1'', ct_channel = ''note'',
      ct_source = ''cli'', ct_date = ''1970-01-01T00:00:00Z''\<rparr>"
    by (simp add: ForMemory_def NewCitation_def Citation_Validate_def note_memory_def p f t)
  with citations_are_definite [OF this] show ?thesis by blast
qed

end
