(* ===== verification/Commitments.thy ===== *)
theory Commitments
  imports CommitmentText Identity EvidenceCitation
begin

text \<open>
  The commitment lifecycle, internal/commitment/lifecycle.go: items, the evidence that may close
  them, and the two projections over them. \<open>ProjectLifecycle\<close> takes the result of
  \<open>sort.Slice\<close> as an argument, since Go leaves the order of equal elements open, and
  \<open>ProjectDuplicates\<close> that of \<open>sort.SliceStable\<close>, since its comparison is not an order on every
  input.
\<close>

record span =
  sp_MemoryID :: string
  sp_MessageRef :: string
  sp_BlockRef :: string
  sp_AncestorRefs :: "string list"
  sp_Quote :: string
  sp_OccurredAt :: string

record due =
  du_Kind :: string
  du_At :: string

record cited =
  \<comment> \<open>\<open>commitment.Citation\<close>\<close>
  cc_Citation :: citation
  cc_CommitmentID :: string
  cc_Role :: string
  cc_EvidenceRef :: string

record item =
  it_ID :: string
  it_Owner :: atom
  it_Counterparty :: atom
  it_CounterpartyLabel :: string
  it_CounterpartyKeys :: "string list"
  it_Direction :: string
  it_Summary :: string
  it_OpenedBy :: span
  it_Due :: due
  it_State :: string
  it_ClosureRef :: string
  it_SupersededBy :: string
  it_StateUncertain :: bool
  it_Gap :: string
  it_Citations :: "cited list"
  it_DuplicateOf :: string
  it_ReviewedUseful :: bool

abbreviation OwedBySelf :: string where "OwedBySelf \<equiv> ''owed_by_self''"
abbreviation OwedByCounterparty :: string where "OwedByCounterparty \<equiv> ''owed_by_counterparty''"
abbreviation PartyUnknown :: string where "PartyUnknown \<equiv> []"
abbreviation PartySelf :: string where "PartySelf \<equiv> ''self''"
abbreviation PartyCounterparty :: string where "PartyCounterparty \<equiv> ''counterparty''"

record proof_text =
  \<comment> \<open>\<open>commitment.Evidence\<close>\<close>
  pt_MemoryID :: string
  pt_MessageRef :: string
  pt_BlockRef :: string
  pt_Text :: string
  pt_OccurredAt :: string
  pt_Party :: string
  pt_Authored :: bool
  pt_CounterpartyKeys :: "string list"
  pt_Citation :: citation
  pt_Source :: string
  pt_CitationEvidenceRef :: string

record lifecycle_result =
  lr_Item :: item
  lr_ClosureEvidence :: int

subsection \<open>Lifecycle\<close>

definition closureScore :: "unicode \<Rightarrow> item \<Rightarrow> proof_text \<Rightarrow> string \<Rightarrow> voice \<Rightarrow> nat" where
  "closureScore u c e tr voice =
     (if pt_Party e = PartyUnknown \<or> \<not> strictlyAfter (sp_OccurredAt (it_OpenedBy c)) (pt_OccurredAt e) then 0
      else if sp_MemoryID (it_OpenedBy c) \<noteq> pt_MemoryID e
        \<and> \<not> counterpartyLinked u (it_CounterpartyKeys c) (pt_CounterpartyKeys e) then 0
      else
        (let owner = (if it_Direction c = OwedBySelf then PartySelf else PartyCounterparty) in
         if voice = VoiceDelivery \<and> pt_Party e \<noteq> owner then 0
         else if (voice = VoiceAck \<or> voice = VoiceAttendanceAck) \<and> pt_Party e = owner then 0
         else
           (let overlap = objectOverlap u (it_Summary c @ '' '' @ sp_Quote (it_OpenedBy c)) (pt_Text e);
                same = (sp_MemoryID (it_OpenedBy c) = pt_MemoryID e)
            in if overlap = 0 \<and> (voice = VoiceAttendanceAck \<or> \<not> same) then 0
               else overlap * 10 + (if same then 1 else 0) + (if tr = Superseded then 1 else 0))))"

definition proof_less :: "proof_text \<times> nat \<Rightarrow> proof_text \<times> nat \<Rightarrow> bool" where
  "proof_less a b = (if pt_OccurredAt (fst a) \<noteq> pt_OccurredAt (fst b) then pt_OccurredAt (fst a) < pt_OccurredAt (fst b)
     else if pt_MemoryID (fst a) \<noteq> pt_MemoryID (fst b) then pt_MemoryID (fst a) < pt_MemoryID (fst b)
     else pt_Text (fst a) < pt_Text (fst b))"

fun best_fits :: "(nat \<times> nat) list \<Rightarrow> nat \<Rightarrow> nat list \<Rightarrow> nat \<times> nat list" where
  \<comment> \<open>the loop over the open items, given with their scores, and the best found so far\<close>
  "best_fits [] bestScore best = (bestScore, best)"
| "best_fits ((i, score) # rest) bestScore best =
     (if bestScore < score then best_fits rest score [i]
      else if 0 < score \<and> score = bestScore then best_fits rest bestScore (best @ [i])
      else best_fits rest bestScore best)"

definition ambiguity_gap :: "string \<Rightarrow> nat \<Rightarrow> string" where
  "ambiguity_gap memoryID n = ''Ambiguous state evidence '' @ memoryID @ '' fits '' @ show_nat n
     @ '' open commitments; state left open.''"

definition open_scores :: "unicode \<Rightarrow> proof_text \<Rightarrow> string \<Rightarrow> voice \<Rightarrow> lifecycle_result list \<Rightarrow> (nat \<times> nat) list" where
  "open_scores u e tr voice out =
     map (\<lambda>i. (i, closureScore u (lr_Item (out ! i)) e tr voice))
       (filter (\<lambda>i. it_State (lr_Item (out ! i)) = Open) [0..<length out])"

definition settle_item :: "string \<Rightarrow> proof_text \<times> nat \<Rightarrow> lifecycle_result \<Rightarrow> lifecycle_result" where
  "settle_item tr candidate r =
     (if tr = Superseded then
        r\<lparr>lr_Item := (lr_Item r)\<lparr>it_State := Superseded, it_SupersededBy := pt_MemoryID (fst candidate)\<rparr>\<rparr>
      else
        r\<lparr>lr_Item := (lr_Item r)\<lparr>it_State := Closed, it_ClosureRef := pt_MemoryID (fst candidate)\<rparr>,
          lr_ClosureEvidence := int (snd candidate)\<rparr>)"

definition lifecycle_step :: "unicode \<Rightarrow> lifecycle_result list \<Rightarrow> proof_text \<times> nat \<Rightarrow> lifecycle_result list" where
  \<comment> \<open>the body of the loop over the sorted evidence\<close>
  "lifecycle_step u out candidate =
     (let e = fst candidate; (tr, voice) = transition u (pt_Text e) in
      if tr = [] \<or> \<not> pt_Authored e then out
      else
        (let (bestScore, best) = best_fits (open_scores u e tr voice out) 0 [] in
         if bestScore = 0 then out
         else if length best \<noteq> 1 then
           foldl (\<lambda>out i. out[i := (out ! i)\<lparr>lr_Item := (lr_Item (out ! i))\<lparr>it_Gap :=
             ambiguity_gap (pt_MemoryID e) (length best)\<rparr>\<rparr>]) out best
         else (let i = hd best in out[i := settle_item tr candidate (out ! i)])))"

definition lifecycle_start :: "item list \<Rightarrow> lifecycle_result list" where
  "lifecycle_start items = map (\<lambda>v. \<lparr>lr_Item = v, lr_ClosureEvidence = - 1\<rparr>) items"

definition ProjectLifecycle ::
  "((proof_text \<times> nat) list \<Rightarrow> (proof_text \<times> nat) list) \<Rightarrow> unicode \<Rightarrow> item list \<Rightarrow> proof_text list
    \<Rightarrow> lifecycle_result list" where
  "ProjectLifecycle sort_slice u items evidence =
     foldl (lifecycle_step u) (lifecycle_start items) (sort_slice (zip evidence [0..<length evidence]))"

subsection \<open>Duplicates\<close>

definition atomEqual :: "unicode \<Rightarrow> atom \<Rightarrow> atom \<Rightarrow> bool" where
  "atomEqual u a b \<longleftrightarrow> EqualFold u (TrimSpace (at_Provider a)) (TrimSpace (at_Provider b))
     \<and> EqualFold u (TrimSpace (at_Kind a)) (TrimSpace (at_Kind b))
     \<and> EqualFold u (TrimSpace (at_Value a)) (TrimSpace (at_Value b))"

definition evidenceLess :: "item \<Rightarrow> item \<Rightarrow> bool" where
  "evidenceLess a b = (let x = it_OpenedBy a; y = it_OpenedBy b in
     if sp_OccurredAt x \<noteq> sp_OccurredAt y then
       (case (parse_rfc3339 (sp_OccurredAt x), parse_rfc3339 (sp_OccurredAt y)) of
          (Some s, Some t) \<Rightarrow> if s \<noteq> t then s < t else sp_OccurredAt x < sp_OccurredAt y
        | _ \<Rightarrow> sp_OccurredAt x < sp_OccurredAt y)
     else if sp_MessageRef x \<noteq> sp_MessageRef y then sp_MessageRef x < sp_MessageRef y
     else if sp_BlockRef x \<noteq> sp_BlockRef y then sp_BlockRef x < sp_BlockRef y
     else it_ID a < it_ID b)"

definition dedupCandidate :: "unicode \<Rightarrow> item \<Rightarrow> item \<Rightarrow> bool" where
  "dedupCandidate u a b =
     (if EqualFold u (oneLine (it_Summary a)) (oneLine (it_Summary b)) then True
      else (let left = objectTokens u (it_Summary a); right = objectTokens u (it_Summary b) in
        if left = [] \<or> right = [] then False
        else min (length left) (length right) \<le> objectOverlap u (it_Summary a) (it_Summary b) * 2))"

definition containsFold :: "unicode \<Rightarrow> string list \<Rightarrow> string \<Rightarrow> bool" where
  "containsFold u values want = (if want = [] then False
     else list_ex (\<lambda>v. EqualFold u (TrimSpace v) (TrimSpace want)) values)"

definition strongProvenance :: "unicode \<Rightarrow> item \<Rightarrow> item \<Rightarrow> bool" where
  "strongProvenance u a b = (let x = it_OpenedBy a; y = it_OpenedBy b in
     if sp_MessageRef x \<noteq> [] \<and> sp_MessageRef x = sp_MessageRef y \<and> sp_BlockRef x \<noteq> [] \<and> sp_BlockRef x = sp_BlockRef y
     then True
     else containsFold u (sp_AncestorRefs x) (sp_MessageRef y) \<or> containsFold u (sp_AncestorRefs y) (sp_MessageRef x))"

definition keySetsOverlap :: "unicode \<Rightarrow> string list \<Rightarrow> string list \<Rightarrow> bool" where
  "keySetsOverlap u a b = list_ex (\<lambda>k. normal_key u k \<in> set (map (normal_key u) a)) b"

definition sameLifecycle :: "unicode \<Rightarrow> item \<Rightarrow> item \<Rightarrow> bool" where
  "sameLifecycle u a b =
     (let sameCounterparty = (atomEqual u (it_Counterparty a) (it_Counterparty b)
            \<or> keySetsOverlap u (it_CounterpartyKeys a) (it_CounterpartyKeys b));
          sameOwner = (atomEqual u (it_Owner a) (it_Owner b)
            \<or> (it_Direction a = OwedByCounterparty \<and> it_Direction b = OwedByCounterparty \<and> sameCounterparty))
      in sameOwner \<and> sameCounterparty \<and> it_Direction a = it_Direction b \<and> it_Due a = it_Due b
         \<and> it_State a = it_State b \<and> it_ClosureRef a = it_ClosureRef b)"

record dedup_result =
  dr_Item :: item
  dr_OriginalIndex :: nat
  dr_Supporting :: "nat list"

definition duplicates :: "unicode \<Rightarrow> item \<Rightarrow> item \<Rightarrow> bool" where
  \<comment> \<open>the tests of the inner loop\<close>
  "duplicates u a b \<longleftrightarrow> \<not> (it_ID b = [] \<or> it_DuplicateOf b \<noteq> [] \<or> \<not> dedupCandidate u a b
     \<or> \<not> strongProvenance u a b \<or> \<not> sameLifecycle u a b)"

fun absorb :: "unicode \<Rightarrow> dedup_result \<Rightarrow> dedup_result list \<Rightarrow> dedup_result \<times> dedup_result list" where
  \<comment> \<open>the inner loop: \<open>x\<close> is \<open>out[i]\<close>, the list is what comes after it\<close>
  "absorb u x [] = (x, [])"
| "absorb u x (y # ys) =
     (if duplicates u (dr_Item x) (dr_Item y) then
        (let (x', ys') = absorb u (x\<lparr>dr_Supporting := dr_Supporting x @ [dr_OriginalIndex y]\<rparr>) ys
         in (x', y\<lparr>dr_Item := (dr_Item y)\<lparr>it_DuplicateOf := it_ID (dr_Item x)\<rparr>\<rparr> # ys'))
      else (let (x', ys') = absorb u x ys in (x', y # ys')))"

lemma length_absorb [simp]: "length (snd (absorb u x ys)) = length ys"
  by (induction u x ys rule: absorb.induct) (auto simp: Let_def split: prod.splits)

function mark_duplicates :: "unicode \<Rightarrow> dedup_result list \<Rightarrow> dedup_result list" where
  "mark_duplicates u [] = []"
| "mark_duplicates u (x # xs) =
     (if it_ID (dr_Item x) = [] \<or> it_DuplicateOf (dr_Item x) \<noteq> [] then x # mark_duplicates u xs
      else fst (absorb u x xs) # mark_duplicates u (snd (absorb u x xs)))"
  by pat_completeness auto
termination by (relation "measure (length \<circ> snd)") auto

definition ProjectDuplicates ::
  "(dedup_result list \<Rightarrow> dedup_result list) \<Rightarrow> unicode \<Rightarrow> item list \<Rightarrow> dedup_result list" where
  "ProjectDuplicates stable_sort u items = mark_duplicates u (stable_sort
     (map (\<lambda>(v, i). \<lparr>dr_Item = v, dr_OriginalIndex = i, dr_Supporting = []\<rparr>) (zip items [0..<length items])))"

end
