(* ===== verification/CommitmentClaims.thy ===== *)
theory CommitmentClaims
  imports Commitments
begin

text \<open>
  What the lifecycle projection promises: an item that was not open is left alone, an item is
  closed only on evidence that fits it, evidence that fits two items closes neither, and the
  order in which the evidence arrives does not matter.
\<close>

subsection \<open>The best fit\<close>

definition fit_summary :: "(nat \<times> nat) list \<Rightarrow> nat \<Rightarrow> nat list \<Rightarrow> bool" where
  "fit_summary rows m is \<longleftrightarrow> (\<forall>(i, s) \<in> set rows. s \<le> m)
     \<and> is = (if m = 0 then [] else map fst (filter (\<lambda>(i, s). s = m) rows))"

lemma best_fits_summary:
  "best_fits rows m is = (m', is') \<Longrightarrow> fit_summary done m is \<Longrightarrow> fit_summary (done @ rows) m' is'"
proof (induction rows m "is" arbitrary: "done" rule: best_fits.induct)
  case (2 i score rest m "is")
  have "best_fits rest (if m < score then score else m)
      (if m < score then [i] else if 0 < score \<and> score = m then is @ [i] else is) = (m', is')"
    using 2(4) by (auto split: if_splits)
  moreover have "fit_summary (done @ [(i, score)]) (if m < score then score else m)
      (if m < score then [i] else if 0 < score \<and> score = m then is @ [i] else is)"
    using 2(5) by (auto simp: fit_summary_def filter_empty_conv)
  ultimately show ?case
    using 2(1-3) [of "done @ [(i, score)]"] by (cases "m < score"; cases "0 < score \<and> score = m") auto
qed (simp add: fit_summary_def)

lemma best_fits_of:
  assumes "best_fits rows 0 [] = (m, is)"
  shows "\<forall>(i, s) \<in> set rows. s \<le> m" "0 < m \<Longrightarrow> is = map fst (filter (\<lambda>(i, s). s = m) rows)"
  using best_fits_summary [OF assms, of "[]"] by (simp_all add: fit_summary_def)

lemma best_fits_max: "m = m0 \<or> m \<in> snd ` set rows" if "best_fits rows m0 is0 = (m, is)"
  using that by (induction rows m0 is0 rule: best_fits.induct) (auto split: if_splits)

lemma transition_kinds: "transition u t = (tr, voice) \<Longrightarrow> tr \<noteq> [] \<Longrightarrow> tr = Closed \<or> tr = Superseded"
  by (auto simp: transition_def Let_def split: if_splits)

lemma closureScore_gap [simp]: "closureScore u (c\<lparr>it_Gap := g\<rparr>) e tr voice = closureScore u c e tr voice"
  by (simp add: closureScore_def Let_def)

lemma closureScore_ID [simp]: "closureScore u (c\<lparr>it_ID := i\<rparr>) e tr voice = closureScore u c e tr voice"
  by (simp add: closureScore_def Let_def)

subsection \<open>One step\<close>

definition note_gaps :: "string \<Rightarrow> nat list \<Rightarrow> lifecycle_result list \<Rightarrow> lifecycle_result list" where
  "note_gaps g is out = foldl (\<lambda>out i. out[i := (out ! i)\<lparr>lr_Item := (lr_Item (out ! i))\<lparr>it_Gap := g\<rparr>\<rparr>]) out is"

lemma note_gaps_nth:
  assumes "\<forall>i \<in> set is. i < length out" "j < length out"
  shows "note_gaps g is out ! j = (if j \<in> set is then (out ! j)\<lparr>lr_Item := (lr_Item (out ! j))\<lparr>it_Gap := g\<rparr>\<rparr> else out ! j)"
  using assms by (induction "is" arbitrary: out) (auto simp: note_gaps_def nth_list_update)

lemma length_note_gaps [simp]: "length (note_gaps g is out) = length out"
  by (induction "is" arbitrary: out) (auto simp: note_gaps_def)

text \<open>What a record of evidence does to the items, by the number of items it fits best.\<close>

lemma lifecycle_step_cases:
  assumes "lifecycle_step u out (e, k) = out'"
  obtains (idle) "out' = out"
  | (unclear) g tr voice m "is" where "out' = note_gaps g is out" "transition u (pt_Text e) = (tr, voice)" "0 < m"
      "is = map fst (filter (\<lambda>(i, s). s = m) (open_scores u e tr voice out))" "length is \<noteq> 1"
  | (settled) tr voice m i where "out' = out[i := settle_item tr (e, k) (out ! i)]" "transition u (pt_Text e) = (tr, voice)"
      "tr \<noteq> []" "pt_Authored e" "0 < m" "[i] = map fst (filter (\<lambda>(i, s). s = m) (open_scores u e tr voice out))"
      "\<forall>(i, s) \<in> set (open_scores u e tr voice out). s \<le> m"
proof -
  obtain tr voice where t: "transition u (pt_Text e) = (tr, voice)" by force
  obtain m "is" where b: "best_fits (open_scores u e tr voice out) 0 [] = (m, is)" by force
  note bf = best_fits_of [OF b]
  consider "tr = [] \<or> \<not> pt_Authored e \<or> m = 0" | "tr \<noteq> []" "pt_Authored e" "0 < m" "length is \<noteq> 1"
    | i where "tr \<noteq> []" "pt_Authored e" "0 < m" "is = [i]"
    by (metis One_nat_def length_Suc_conv length_0_conv gr0I)
  then show thesis
  proof cases
    case 1
    then have "out' = out" using assms by (auto simp: lifecycle_step_def t b)
    then show ?thesis by (rule idle)
  next
    case 2
    then have "out' = note_gaps (ambiguity_gap (pt_MemoryID e) (length is)) is out"
      using assms by (auto simp: lifecycle_step_def t b note_gaps_def)
    then show ?thesis using unclear t 2 bf(2) by blast
  next
    case (3 i)
    then have "out' = out[i := settle_item tr (e, k) (out ! i)]"
      using assms by (auto simp: lifecycle_step_def t b)
    then show ?thesis using settled t 3 bf by metis
  qed
qed

lemma open_scores_member:
  "(i, s) \<in> set (open_scores u e tr voice out) \<longleftrightarrow> i < length out \<and> it_State (lr_Item (out ! i)) = Open
     \<and> s = closureScore u (lr_Item (out ! i)) e tr voice"
  by (auto simp: open_scores_def)

lemma best_member:
  assumes "is = map fst (filter (\<lambda>(i, s). s = m) (open_scores u e tr voice out))" "i \<in> set is"
  shows "i < length out" "it_State (lr_Item (out ! i)) = Open" "closureScore u (lr_Item (out ! i)) e tr voice = m"
  using assms open_scores_member by fastforce+

subsection \<open>What closes an item\<close>

definition as_it_was :: "item \<Rightarrow> string \<Rightarrow> lifecycle_result" where
  "as_it_was v g = \<lparr>lr_Item = v\<lparr>it_Gap := g\<rparr>, lr_ClosureEvidence = - 1\<rparr>"

definition settled_by_evidence :: "unicode \<Rightarrow> item \<Rightarrow> (proof_text \<times> nat) set \<Rightarrow> lifecycle_result \<Rightarrow> bool" where
  \<comment> \<open>the item as it was, but for its gap if it was open; or settled by a record that fits it\<close>
  "settled_by_evidence u v evidence r \<longleftrightarrow>
     (\<exists>g. r = as_it_was v g \<and> (it_State v \<noteq> Open \<longrightarrow> g = it_Gap v))
     \<or> (\<exists>g e k tr voice. (e, k) \<in> evidence \<and> it_State v = Open \<and> pt_Authored e \<and> transition u (pt_Text e) = (tr, voice)
        \<and> 0 < closureScore u v e tr voice \<and> (tr = Closed \<or> tr = Superseded)
        \<and> r = settle_item tr (e, k) (as_it_was v g))"

lemma vouched_open:
  assumes "settled_by_evidence u v E r" "it_State (lr_Item r) = Open"
  obtains g where "r = as_it_was v g" "it_State v = Open"
proof -
  have "(\<exists>g. r = as_it_was v g) \<and> it_State v = Open"
    using assms by (auto simp: settled_by_evidence_def settle_item_def as_it_was_def)
  then show thesis using that by blast
qed

lemma vouched_settle:
  assumes "it_State v = Open" "(e, k) \<in> E" "pt_Authored e" "transition u (pt_Text e) = (tr, voice)" "tr \<noteq> []"
    "0 < closureScore u v e tr voice"
  shows "settled_by_evidence u v E (settle_item tr (e, k) (as_it_was v g))"
  unfolding settled_by_evidence_def using assms transition_kinds by blast

lemma vouched_gap:
  "it_State v = Open \<Longrightarrow> settled_by_evidence u v E ((as_it_was v g)\<lparr>lr_Item := (lr_Item (as_it_was v g))\<lparr>it_Gap := g'\<rparr>\<rparr>)"
  by (auto simp: settled_by_evidence_def as_it_was_def)

lemma vouched_step:
  assumes "length out = length items" "\<And>i. i < length items \<Longrightarrow> settled_by_evidence u (items ! i) E (out ! i)" "(e, k) \<in> E"
  shows "length (lifecycle_step u out (e, k)) = length items
    \<and> (\<forall>i < length items. settled_by_evidence u (items ! i) E (lifecycle_step u out (e, k) ! i))"
  using refl [of "lifecycle_step u out (e, k)"]
proof (cases rule: lifecycle_step_cases)
  case idle
  then show ?thesis using assms by simp
next
  case (unclear g tr voice m "is")
  note bm = best_member [OF unclear(4)]
  have g: "\<forall>i \<in> set is. i < length out" using bm(1) by blast
  have "settled_by_evidence u (items ! i) E (note_gaps g is out ! i)" if i: "i < length items" for i
  proof (cases "i \<in> set is")
    case True
    from vouched_open [OF assms(2) [OF i] bm(2) [OF True]]
    obtain g' where "out ! i = as_it_was (items ! i) g'" "it_State (items ! i) = Open" .
    then show ?thesis using True i assms(1) by (simp add: note_gaps_nth [OF g] vouched_gap)
  next
    case False
    then show ?thesis using assms i by (simp add: note_gaps_nth [OF g])
  qed
  then show ?thesis using unclear(1) assms(1) by simp
next
  case (settled tr voice m i)
  note bm = best_member [OF settled(6)]
  have i: "i < length items" "it_State (lr_Item (out ! i)) = Open" "closureScore u (lr_Item (out ! i)) e tr voice = m"
    using bm assms(1) by auto
  from vouched_open [OF assms(2) [OF i(1)] i(2)]
  obtain g where g: "out ! i = as_it_was (items ! i) g" "it_State (items ! i) = Open" .
  moreover from i(3) g settled(5) have "0 < closureScore u (items ! i) e tr voice"
    by (simp add: as_it_was_def)
  ultimately have "settled_by_evidence u (items ! i) E (settle_item tr (e, k) (out ! i))"
    using vouched_settle [OF g(2) assms(3) settled(4,2,3)] by simp
  then have "settled_by_evidence u (items ! j) E (out[i := settle_item tr (e, k) (out ! i)] ! j)" if "j < length items" for j
    using assms(1,2) that i(1) by (cases "j = i") simp_all
  then show ?thesis using assms(1) settled(1) by simp
qed


lemma vouched_steps:
  assumes "length out = length items" "\<forall>i < length items. settled_by_evidence u (items ! i) E (out ! i)" "set es \<subseteq> E"
  shows "length (foldl (lifecycle_step u) out es) = length items
    \<and> (\<forall>i < length items. settled_by_evidence u (items ! i) E (foldl (lifecycle_step u) out es ! i))"
  using assms
proof (induction es arbitrary: out)
  case (Cons e es)
  obtain p k where e: "e = (p, k)" by force
  with Cons.prems have "(p, k) \<in> E" by simp
  from vouched_step [OF Cons.prems(1) Cons.prems(2) [rule_format] this] Cons show ?case
    by (simp add: e)
qed simp

lemma vouched_start: "i < length items \<Longrightarrow> settled_by_evidence u (items ! i) E (lifecycle_start items ! i)"
  unfolding settled_by_evidence_def by (rule disjI1, rule exI [of _ "it_Gap (items ! i)"]) (simp add: lifecycle_start_def as_it_was_def)

lemma lifecycle_vouched:
  assumes "mset (sort_slice (zip evidence [0..<length evidence])) = mset (zip evidence [0..<length evidence])"
  shows "length (ProjectLifecycle sort_slice u items evidence) = length items
    \<and> (\<forall>i < length items. settled_by_evidence u (items ! i) (set (zip evidence [0..<length evidence]))
          (ProjectLifecycle sort_slice u items evidence ! i))"
proof -
  have "set (sort_slice (zip evidence [0..<length evidence])) = set (zip evidence [0..<length evidence])"
    using assms by (metis set_mset_mset)
  then show ?thesis unfolding ProjectLifecycle_def
    by (intro vouched_steps) (simp_all add: vouched_start, simp add: lifecycle_start_def)
qed

text \<open>C32: A commitment is settled only on evidence that fits it. Whatever order the evidence is read in,
  every result of \<open>ProjectLifecycle\<close> is its item as it was, the gap note of an open item apart, or
  an open item that became closed or superseded because of a record among the evidence that is
  authored, whose text speaks of that transition and whose closure score against the item is
  positive; the result then names that record. An item that was not open does not change at all.\<close>

theorem closures_are_vouched:
  assumes "mset (sort_slice (zip evidence [0..<length evidence])) = mset (zip evidence [0..<length evidence])"
  shows "length (ProjectLifecycle sort_slice u items evidence) = length items
    \<and> (\<forall>i < length items. settled_by_evidence u (items ! i) (set (zip evidence [0..<length evidence]))
          (ProjectLifecycle sort_slice u items evidence ! i))"
  using assms by (rule lifecycle_vouched)

subsection \<open>Evidence that fits two items\<close>

text \<open>C33: Evidence that fits two open commitments equally well, and no other better, settles neither:
  the step over it leaves the state, the closing record and the superseding record of every item as
  they were, and notes the ambiguity on both.\<close>

theorem ambiguous_evidence_settles_nothing:
  assumes "transition u (pt_Text e) = (tr, voice)" "tr \<noteq> []" "pt_Authored e" "0 < m" "i \<noteq> j"
    "(i, m) \<in> set (open_scores u e tr voice out)" "(j, m) \<in> set (open_scores u e tr voice out)"
    "\<forall>(k, s) \<in> set (open_scores u e tr voice out). s \<le> m"
  shows "map (\<lambda>r. r\<lparr>lr_Item := (lr_Item r)\<lparr>it_Gap := []\<rparr>\<rparr>) (lifecycle_step u out (e, n))
      = map (\<lambda>r. r\<lparr>lr_Item := (lr_Item r)\<lparr>it_Gap := []\<rparr>\<rparr>) out
    \<and> (\<exists>n'. \<forall>k \<in> {i, j}. it_Gap (lr_Item (lifecycle_step u out (e, n) ! k)) = ambiguity_gap (pt_MemoryID e) n')"
proof -
  obtain m' "is" where b: "best_fits (open_scores u e tr voice out) 0 [] = (m', is)" by force
  note bf = best_fits_of [OF b]
  have m': "m' = m"
    using bf(1) best_fits_max [OF b] assms(4,6,8) by force
  then have "is": "is = map fst (filter (\<lambda>(i, s). s = m) (open_scores u e tr voice out))"
    using bf(2) assms(4) by blast
  with assms(6,7) have ij: "i \<in> set is" "j \<in> set is" by force+
  then have "length is \<noteq> 1" using assms(5) by (auto simp: length_Suc_conv)
  then have step: "lifecycle_step u out (e, n) = note_gaps (ambiguity_gap (pt_MemoryID e) (length is)) is out"
    using assms(1-4) b m' by (simp add: lifecycle_step_def note_gaps_def)
  note bm = best_member [OF "is"]
  have g: "\<forall>i \<in> set is. i < length out" using bm(1) by blast
  have "lr_Item (lifecycle_step u out (e, n) ! k) = (lr_Item (out ! k))\<lparr>it_Gap := ambiguity_gap (pt_MemoryID e) (length is)\<rparr>"
    if "k \<in> set is" for k
    using that g by (simp add: step note_gaps_nth)
  moreover have "map (\<lambda>r. r\<lparr>lr_Item := (lr_Item r)\<lparr>it_Gap := []\<rparr>\<rparr>) (lifecycle_step u out (e, n))
      = map (\<lambda>r. r\<lparr>lr_Item := (lr_Item r)\<lparr>it_Gap := []\<rparr>\<rparr>) out"
    by (rule nth_equalityI) (simp_all add: step note_gaps_nth [OF g])
  ultimately show ?thesis using ij by auto
qed

subsection \<open>The order of the evidence\<close>

lemma note_gaps_items: "map lr_Item (note_gaps g is out) = foldl (\<lambda>vs i. vs[i := (vs ! i)\<lparr>it_Gap := g\<rparr>]) (map lr_Item out) is"
proof (induction "is" arbitrary: out)
  case (Cons i "is")
  have "map lr_Item (out[i := (out ! i)\<lparr>lr_Item := (lr_Item (out ! i))\<lparr>it_Gap := g\<rparr>\<rparr>])
      = (map lr_Item out)[i := (map lr_Item out ! i)\<lparr>it_Gap := g\<rparr>]"
    by (cases "i < length out") (simp_all add: map_update list_update_beyond)
  then show ?case using Cons [of "out[i := (out ! i)\<lparr>lr_Item := (lr_Item (out ! i))\<lparr>it_Gap := g\<rparr>\<rparr>]"]
    by (simp add: note_gaps_def)
qed (simp add: note_gaps_def)

lemma settle_items:
  assumes "i < length out" "map lr_Item out = map lr_Item out'"
  shows "map lr_Item (out[i := settle_item tr (e, k) (out ! i)]) = map lr_Item (out'[i := settle_item tr (e, k') (out' ! i)])"
proof -
  have "lr_Item (out ! i) = lr_Item (out' ! i)" using assms by (metis nth_map length_map)
  then show ?thesis using assms(2) by (simp add: map_update settle_item_def)
qed

lemma lifecycle_step_items:
  "lifecycle_step u out (e, k) =
     (let (tr, voice) = transition u (pt_Text e);
          (m, is) = best_fits (open_scores u e tr voice out) 0 []
      in if tr = [] \<or> \<not> pt_Authored e \<or> m = 0 then out
         else if length is \<noteq> 1 then note_gaps (ambiguity_gap (pt_MemoryID e) (length is)) is out
         else out[hd is := settle_item tr (e, k) (out ! hd is)])"
  by (simp add: lifecycle_step_def note_gaps_def Let_def split: prod.split)

lemma lifecycle_step_index:
  assumes "map lr_Item out = map lr_Item out'"
  shows "map lr_Item (lifecycle_step u out (e, k)) = map lr_Item (lifecycle_step u out' (e, k'))"
proof -
  have len: "length out = length out'" using assms by (rule map_eq_imp_length_eq)
  have at: "lr_Item (out ! i) = lr_Item (out' ! i)" if "i < length out" for i
    using assms that len by (metis nth_map)
  obtain tr voice where t: "transition u (pt_Text e) = (tr, voice)" by force
  have os: "open_scores u e tr voice out = open_scores u e tr voice out'"
    unfolding open_scores_def using len at by (auto intro!: map_cong filter_cong)
  obtain m "is" where b: "best_fits (open_scores u e tr voice out) 0 [] = (m, is)" by force
  have "hd is < length out" if "0 < m" "length is = 1"
    using best_member(1) [OF best_fits_of(2) [OF b that(1)], of "hd is"] that(2) by (cases "is") auto
  then show ?thesis
    using assms settle_items [OF _ assms] by (simp add: lifecycle_step_items t b b [unfolded os] note_gaps_items)
qed

lemma lifecycle_items:
  "map fst es = map fst es' \<Longrightarrow> map lr_Item out = map lr_Item out' \<Longrightarrow>
    map lr_Item (foldl (lifecycle_step u) out es) = map lr_Item (foldl (lifecycle_step u) out' es')"
proof (induction es arbitrary: es' out out')
  case (Cons x xs)
  then obtain y ys where es': "es' = y # ys" "fst x = fst y" "map fst xs = map fst ys" by auto
  moreover have "map lr_Item (lifecycle_step u out x) = map lr_Item (lifecycle_step u out' y)"
    using lifecycle_step_index [OF Cons.prems(2), of u "fst x" "snd x" "snd y"] es'(2)
    by (metis prod.collapse)
  ultimately show ?case using Cons.IH by simp
qed simp

definition proof_order :: "proof_text \<Rightarrow> proof_text \<Rightarrow> bool" where
  "proof_order a b = proof_less (a, 0) (b, 0)"

lemma proof_order_total:
  "\<not> proof_order a b \<Longrightarrow> \<not> proof_order b a \<Longrightarrow>
    pt_OccurredAt a = pt_OccurredAt b \<and> pt_MemoryID a = pt_MemoryID b \<and> pt_Text a = pt_Text b"
  unfolding proof_order_def proof_less_def by (auto simp: not_less split: if_splits)

lemma sorted_evidence:
  assumes "sorts proof_less f"
  shows "sorted_by proof_order (map fst (f es))" "mset (map fst (f es)) = mset (map fst es)"
proof -
  have f: "mset (f es) = mset es" "sorted_by proof_less (f es)" using assms by (simp_all add: sorts_def)
  then show "mset (map fst (f es)) = mset (map fst es)" by (metis mset_map)
  from f(2) show "sorted_by proof_order (map fst (f es))"
    by (simp only: sorted_by_def sorted_wrt_map proof_order_def proof_less_def fst_conv)
qed

text \<open>C34: The order in which evidence is handed over does not matter, nor how the sort breaks ties. Where
  no two different records share their instant, memory and text, any two arrangements of the same
  evidence, each sorted by any routine that sorts by that key, leave the same commitments in the
  same states with the same closing records.\<close>

theorem evidence_order_is_irrelevant:
  assumes "mset evidence = mset evidence'" "sorts proof_less f" "sorts proof_less g"
    "\<forall>a \<in> set evidence. \<forall>b \<in> set evidence. pt_OccurredAt a = pt_OccurredAt b \<longrightarrow> pt_MemoryID a = pt_MemoryID b
      \<longrightarrow> pt_Text a = pt_Text b \<longrightarrow> a = b"
  shows "map lr_Item (ProjectLifecycle f u items evidence) = map lr_Item (ProjectLifecycle g u items evidence')"
proof -
  let ?e = "zip evidence [0..<length evidence]" and ?e' = "zip evidence' [0..<length evidence']"
  have m: "mset (map fst (f ?e)) = mset evidence" "mset (map fst (g ?e')) = mset evidence'"
    using sorted_evidence(2) [OF assms(2), of ?e] sorted_evidence(2) [OF assms(3), of ?e'] by (simp_all add: map_fst_zip del: mset_map)
  then have "set (map fst (f ?e)) = set evidence" by (metis set_mset_mset)
  then have "a = b" if "a \<in> set (map fst (f ?e))" "b \<in> set (map fst (f ?e))" "\<not> proof_order a b" "\<not> proof_order b a" for a b
    using assms(4) proof_order_total [OF that(3,4)] that(1,2) by blast
  note only = this
  have "mset (map fst (f ?e)) = mset (map fst (g ?e'))" using m assms(1) by (simp only:)
  from sorted_unique [OF this sorted_evidence(1) [OF assms(2)] sorted_evidence(1) [OF assms(3)] only]
  have "map fst (f ?e) = map fst (g ?e')".
  then show ?thesis unfolding ProjectLifecycle_def by (rule lifecycle_items) simp
qed

subsection \<open>Duplicates\<close>

lemma absorb_Cons:
  "absorb u x (y # ys) =
    (if duplicates u (dr_Item x) (dr_Item y) then
       (fst (absorb u (x\<lparr>dr_Supporting := dr_Supporting x @ [dr_OriginalIndex y]\<rparr>) ys),
        y\<lparr>dr_Item := (dr_Item y)\<lparr>it_DuplicateOf := it_ID (dr_Item x)\<rparr>\<rparr>
          # snd (absorb u (x\<lparr>dr_Supporting := dr_Supporting x @ [dr_OriginalIndex y]\<rparr>) ys))
     else (fst (absorb u x ys), y # snd (absorb u x ys)))"
  by (simp add: case_prod_unfold Let_def)

lemma absorb_head:
  "dr_Item (fst (absorb u x ys)) = dr_Item x" "dr_OriginalIndex (fst (absorb u x ys)) = dr_OriginalIndex x"
  by (induction ys arbitrary: x) (simp_all add: absorb_Cons del: absorb.simps(2))

lemma absorb_supports: "set (dr_Supporting x) \<subseteq> set (dr_Supporting (fst (absorb u x ys)))"
proof (induction ys arbitrary: x)
  case (Cons y ys)
  from Cons [of "x\<lparr>dr_Supporting := dr_Supporting x @ [dr_OriginalIndex y]\<rparr>"] Cons [of x] show ?case
    by (simp add: absorb_Cons del: absorb.simps(2))
qed simp

definition mark :: "item \<Rightarrow> dedup_result \<Rightarrow> dedup_result" where
  "mark v y = y\<lparr>dr_Item := (dr_Item y)\<lparr>it_DuplicateOf := it_ID v\<rparr>\<rparr>"

lemma absorb_nth:
  assumes "i < length ys"
  shows "if duplicates u (dr_Item x) (dr_Item (ys ! i))
    then snd (absorb u x ys) ! i = mark (dr_Item x) (ys ! i) \<and> dr_OriginalIndex (ys ! i) \<in> set (dr_Supporting (fst (absorb u x ys)))
    else snd (absorb u x ys) ! i = ys ! i"
  using assms
proof (induction ys arbitrary: x i)
  case (Cons y ys)
  let ?x = "x\<lparr>dr_Supporting := dr_Supporting x @ [dr_OriginalIndex y]\<rparr>"
  have s: "dr_OriginalIndex y \<in> set (dr_Supporting (fst (absorb u ?x ys)))"
    using absorb_supports [of ?x u ys] by auto
  show ?case
  proof (cases i)
    case 0
    then show ?thesis using s by (simp only: absorb_Cons) (simp add: mark_def)
  next
    case (Suc k)
    with Cons.prems have "k < length ys" by simp
    then show ?thesis using Cons.IH [of k ?x] Cons.IH [of k x] Suc by (simp only: absorb_Cons) simp
  qed
qed simp

definition star_row :: "unicode \<Rightarrow> dedup_result list \<Rightarrow> dedup_result list \<Rightarrow> nat \<Rightarrow> bool" where
  \<comment> \<open>row \<open>i\<close> is as it was, or newly marked as a duplicate of an earlier row that is none and lists it\<close>
  "star_row u xs out i \<longleftrightarrow> dr_OriginalIndex (out ! i) = dr_OriginalIndex (xs ! i)
     \<and> (dr_Item (out ! i) = dr_Item (xs ! i)
        \<or> it_DuplicateOf (dr_Item (xs ! i)) = []
          \<and> (\<exists>j < i. it_ID (dr_Item (out ! j)) \<noteq> [] \<and> it_DuplicateOf (dr_Item (out ! j)) = []
             \<and> duplicates u (dr_Item (out ! j)) (dr_Item (xs ! i))
             \<and> dr_OriginalIndex (xs ! i) \<in> set (dr_Supporting (out ! j))
             \<and> dr_Item (out ! i) = (dr_Item (xs ! i))\<lparr>it_DuplicateOf := it_ID (dr_Item (out ! j))\<rparr>))"

lemma duplicates_plain: "duplicates u a b \<Longrightarrow> it_DuplicateOf b = []"
  by (simp add: duplicates_def)

lemma length_mark_duplicates [simp]: "length (mark_duplicates u xs) = length xs"
  by (induction u xs rule: mark_duplicates.induct) auto

lemma star_row_Suc: "star_row u xs out k \<Longrightarrow> star_row u (x # xs) (y # out) (Suc k)"
  unfolding star_row_def by (auto intro!: exI [of _ "Suc _"])

lemma mark_duplicates_star: "i < length xs \<Longrightarrow> star_row u xs (mark_duplicates u xs) i"
proof (induction u xs arbitrary: i rule: mark_duplicates.induct)
  case (2 u x xs)
  show ?case
  proof (cases "it_ID (dr_Item x) = [] \<or> it_DuplicateOf (dr_Item x) \<noteq> []")
    case True
    then have out: "mark_duplicates u (x # xs) = x # mark_duplicates u xs" by simp
    show ?thesis
    proof (cases i)
      case 0
      then show ?thesis unfolding out by (simp add: star_row_def)
    next
      case (Suc k)
      then have "star_row u xs (mark_duplicates u xs) k" using 2(1) [OF True] 2(3) by simp
      then show ?thesis unfolding out Suc by (rule star_row_Suc)
    qed
  next
    case False
    let ?ys = "snd (absorb u x xs)" and ?x = "fst (absorb u x xs)"
    have out: "mark_duplicates u (x # xs) = ?x # mark_duplicates u ?ys" using False by simp
    show ?thesis
    proof (cases i)
      case 0
      then show ?thesis by (simp add: out star_row_def absorb_head)
    next
      case (Suc k)
      then have k: "k < length xs" using 2(3) by simp
      then have ih: "star_row u ?ys (mark_duplicates u ?ys) k" using 2(2) [OF False] by simp
      show ?thesis
      proof (cases "duplicates u (dr_Item x) (dr_Item (xs ! k))")
        case True
        with absorb_nth [OF k, where u = u and x = x]
        have y: "?ys ! k = mark (dr_Item x) (xs ! k)" "dr_OriginalIndex (xs ! k) \<in> set (dr_Supporting ?x)" by simp_all
        then have "it_DuplicateOf (dr_Item (?ys ! k)) \<noteq> []" using False by (simp add: mark_def)
        with ih y(1) have r: "dr_OriginalIndex (mark_duplicates u ?ys ! k) = dr_OriginalIndex (xs ! k)"
          "dr_Item (mark_duplicates u ?ys ! k) = (dr_Item (xs ! k))\<lparr>it_DuplicateOf := it_ID (dr_Item x)\<rparr>"
          by (simp_all add: star_row_def mark_def)
        show ?thesis unfolding star_row_def out Suc
          using r y(2) False True duplicates_plain [OF True] absorb_head [of u x xs]
          by (auto intro!: exI [of _ 0])
      next
        case False
        with absorb_nth [OF k, where u = u and x = x] have "?ys ! k = xs ! k" by simp
        with ih have "star_row u xs (mark_duplicates u ?ys) k" by (simp add: star_row_def)
        then show ?thesis unfolding out Suc by (rule star_row_Suc)
      qed
    qed
  qed
qed simp

text \<open>Duplicates form stars, never chains. Whatever permutation the sort gives, every row of
  \<open>ProjectDuplicates\<close> keeps its item, unless it was no duplicate before and is now marked as one of
  an earlier row of the result: that row has an identifier, is itself no duplicate, matched it, and
  lists its index among the rows that support it.\<close>

lemma duplicates_form_stars:
  assumes "mset (stable_sort rows) = mset rows"
    "rows = map (\<lambda>(v, i). \<lparr>dr_Item = v, dr_OriginalIndex = i, dr_Supporting = []\<rparr>) (zip items [0..<length items])"
  shows "mset (map dr_OriginalIndex (ProjectDuplicates stable_sort u items)) = mset [0..<length items]
    \<and> (\<forall>i < length items. star_row u (stable_sort rows) (ProjectDuplicates stable_sort u items) i)"
proof
  have p: "ProjectDuplicates stable_sort u items = mark_duplicates u (stable_sort rows)"
    by (simp add: ProjectDuplicates_def assms(2))
  have len: "length (stable_sort rows) = length items"
    using mset_eq_length [OF assms(1)] by (simp add: assms(2))
  then show "\<forall>i < length items. star_row u (stable_sort rows) (ProjectDuplicates stable_sort u items) i"
    unfolding p by (simp add: mark_duplicates_star)
  have "map dr_OriginalIndex (ProjectDuplicates stable_sort u items) = map dr_OriginalIndex (stable_sort rows)"
    unfolding p using len mark_duplicates_star
    by (intro nth_equalityI) (simp_all add: star_row_def)
  then have "mset (map dr_OriginalIndex (ProjectDuplicates stable_sort u items)) = mset (map dr_OriginalIndex rows)"
    using assms(1) by (metis mset_map)
  also have "map dr_OriginalIndex rows = [0..<length items]"
    by (simp add: assms(2) case_prod_unfold comp_def)
  finally show "mset (map dr_OriginalIndex (ProjectDuplicates stable_sort u items)) = mset [0..<length items]" .
qed

subsection \<open>Examples\<close>

lemma epoch_stamps:
  "parse_rfc3339 ''1970-01-01T00:00:00Z'' = Some 0" "parse_rfc3339 ''1970-01-01T00:00:01Z'' = Some second"
proof -
  have d: "days_of_civil 1970 1 1 = 0" by code_simp
  have v: "valid_date 1970 1 1" by code_simp
  have "four 1970 = ''1970''" "two 1 = ''01''" "two 0 = ''00''" by code_simp+
  then show "parse_rfc3339 ''1970-01-01T00:00:00Z'' = Some 0" "parse_rfc3339 ''1970-01-01T00:00:01Z'' = Some second"
    using parse_stamp [of 1970 1 1 0 0 0] parse_stamp [of 1970 1 1 0 0 1] v by (simp_all add: mk_instant_def d)
qed

lemma oneLine_word:
  assumes "list_all (\<lambda>c. 32 < byte c \<and> byte c < 128) s" "s \<noteq> []"
  shows "oneLine s = s"
proof -
  have a: "ascii s" using assms(1) by (auto simp: ascii_def list_all_iff)
  have "fields_by (\<lambda>p. is_space (rune_of p)) acc (map (\<lambda>c. [c]) s) = (if rev acc @ map (\<lambda>c. [c]) s = [] then [] else [rev acc @ map (\<lambda>c. [c]) s])" for acc
    using assms(1)
  proof (induction s arbitrary: acc)
    case (Cons c s)
    then have "\<not> is_space (rune_of [c])"
      by (auto simp: is_space_def rune_of_def rune_length_def rune_tail_def)
    then show ?case using Cons by simp
  qed simp
  from this [of "[]"] show ?thesis using assms(2)
    by (simp add: oneLine_def Fields_def FieldsFunc_def segments_ascii [OF a])
qed

lemma has_prefix_length: "has_prefix s p \<Longrightarrow> length p \<le> length s"
  by (metis has_prefix_def length_take min.cobounded1)

lemma contains_length: "contains s p \<Longrightarrow> length p \<le> length s"
  by (induction s p rule: contains.induct) (auto dest: has_prefix_length)

lemma long_phrases: "list_all (\<lambda>p. 4 < length p)
    (not_done_phrases @ superseding_phrases @ cancelling_phrases @ attendance_phrases @ receipt_phrases @ delivery_phrases)"
  by code_simp

lemma transition_done: "transition u ''done'' = (Closed, VoiceDelivery)"
proof -
  have o: "oneLine ''done'' = ''done''" by (rule oneLine_word) (simp_all add: byte_def)
  have l: "ToLower u ''done'' = ''done''" by (rule ToLower_lower) (simp add: byte_def)
  have t: "TrimSpace ''done'' = ''done''" by (rule TrimSpace_plain) (simp add: byte_def)
  have "\<not> contains ''done'' p" if "4 < length p" for p
    using contains_length [of "''done''" p] that by auto
  then have "\<not> containsAnyPhrase ''done'' ps" if "list_all (\<lambda>p. 4 < length p) ps" for ps
    using that by (auto simp: containsAnyPhrase_def list_all_iff list_ex_iff)
  moreover have "\<not> looksQuestion ''done''"
    by (simp add: looksQuestion_def t Let_def question_openings_def has_prefix_def)
  ultimately show ?thesis using long_phrases by (simp add: transition_def o l)
qed

lemma EqualFold_refl [simp]: "EqualFold u s s"
  by (simp add: EqualFold_def)

lemma weak_order_proof_less: "weak_order proof_less"
  unfolding weak_order_def proof_less_def by (auto simp: not_less split: if_splits)

definition nobody :: atom where
  "nobody = \<lparr>at_Provider = [], at_Kind = [], at_Value = []\<rparr>"

definition promise :: "string \<Rightarrow> item" where
  "promise i = \<lparr>it_ID = i, it_Owner = nobody, it_Counterparty = nobody, it_CounterpartyLabel = [], it_CounterpartyKeys = [],
     it_Direction = OwedBySelf, it_Summary = ''call'',
     it_OpenedBy = \<lparr>sp_MemoryID = ''mem'', sp_MessageRef = ''msg'', sp_BlockRef = ''0'', sp_AncestorRefs = [],
       sp_Quote = [], sp_OccurredAt = ''1970-01-01T00:00:00Z''\<rparr>,
     it_Due = \<lparr>du_Kind = [], du_At = []\<rparr>, it_State = Open, it_ClosureRef = [], it_SupersededBy = [],
     it_StateUncertain = False, it_Gap = [], it_Citations = [], it_DuplicateOf = [], it_ReviewedUseful = False\<rparr>"

definition quoted_citation :: citation where
  "quoted_citation = \<lparr>ct_memoryID = ''mem'', ct_channel = ''gmail'', ct_source = ''gmail'', ct_date = ''1970-01-01T00:00:01Z''\<rparr>"

definition reported :: proof_text where
  "reported = \<lparr>pt_MemoryID = ''mem'', pt_MessageRef = [], pt_BlockRef = [], pt_Text = ''done'', pt_OccurredAt = ''1970-01-01T00:00:01Z'',
     pt_Party = PartySelf, pt_Authored = True, pt_CounterpartyKeys = [],
     pt_Citation = quoted_citation, pt_Source = [], pt_CitationEvidenceRef = []\<rparr>"

lemma reported_fits: "0 < closureScore ascii_only (promise i) reported Closed VoiceDelivery"
proof -
  have z: "list_all (\<lambda>c. 32 < byte c \<and> byte c < 128) ''1970-01-01T00:00:00Z''"
    "list_all (\<lambda>c. 32 < byte c \<and> byte c < 128) ''1970-01-01T00:00:01Z''"
    by (simp_all add: byte_def)
  show ?thesis
    by (simp add: closureScore_def promise_def reported_def strictlyAfter_def TrimSpace_plain [OF z(1)]
        TrimSpace_plain [OF z(2)] epoch_stamps second_def Let_def)
qed

lemma reported_done: "transition ascii_only (pt_Text reported) = (Closed, VoiceDelivery)"
  by (simp add: reported_def transition_done)

text \<open>A promise and the report that it is done: the report closes it.\<close>

lemma promise_closes:
  "map lr_Item (ProjectLifecycle (sort_by proof_less) ascii_only [promise ''c1''] [reported])
    = [(promise ''c1'')\<lparr>it_State := Closed, it_ClosureRef := ''mem''\<rparr>]"
proof -
  have "open_scores ascii_only reported Closed VoiceDelivery (lifecycle_start [promise ''c1''])
      = [(0, closureScore ascii_only (promise ''c1'') reported Closed VoiceDelivery)]"
    by (simp add: open_scores_def lifecycle_start_def promise_def)
  then show ?thesis using reported_fits [of "''c1''"]
    by (simp add: ProjectLifecycle_def sort_by_def lifecycle_step_items reported_done lifecycle_start_def settle_item_def)
      (simp add: reported_def)
qed

theorem closures_are_vouched_witness:
  "settled_by_evidence ascii_only (promise ''c1'') {(reported, 0)}
      (ProjectLifecycle (sort_by proof_less) ascii_only [promise ''c1''] [reported] ! 0)
    \<and> map (\<lambda>r. it_State (lr_Item r)) (ProjectLifecycle (sort_by proof_less) ascii_only [promise ''c1''] [reported]) = [Closed]"
  using closures_are_vouched [of "sort_by proof_less" "[reported]" ascii_only "[promise ''c1'']"]
    arg_cong [OF promise_closes, of "map it_State"] by (simp add: comp_def)

theorem ambiguous_evidence_settles_nothing_witness:
  "map (\<lambda>r. it_State (lr_Item r))
      (lifecycle_step ascii_only (lifecycle_start [promise ''c1'', promise ''c2'']) (reported, 0)) = [Open, Open]"
proof -
  let ?out = "lifecycle_start [promise ''c1'', promise ''c2'']"
  let ?m = "closureScore ascii_only (promise ''c1'') reported Closed VoiceDelivery"
  have "closureScore ascii_only (promise ''c2'') reported Closed VoiceDelivery = ?m"
    using closureScore_ID [where u = ascii_only and c = "promise ''c1''" and i = "''c2''"] by (simp add: promise_def)
  then have o: "open_scores ascii_only reported Closed VoiceDelivery ?out = [(0, ?m), (1, ?m)]"
    by (simp add: open_scores_def lifecycle_start_def upt_rec) (simp add: promise_def)
  have "map (\<lambda>r. r\<lparr>lr_Item := (lr_Item r)\<lparr>it_Gap := []\<rparr>\<rparr>) (lifecycle_step ascii_only ?out (reported, 0))
      = map (\<lambda>r. r\<lparr>lr_Item := (lr_Item r)\<lparr>it_Gap := []\<rparr>\<rparr>) ?out"
    using ambiguous_evidence_settles_nothing [OF reported_done, of ?m 0 1 ?out 0] reported_fits [of "''c1''"]
    unfolding o by (simp add: reported_def)
  from arg_cong [OF this, of "map (\<lambda>r. it_State (lr_Item r))"] show ?thesis
    by (simp add: comp_def lifecycle_start_def promise_def)
qed

theorem evidence_order_is_irrelevant_witness:
  "map lr_Item (ProjectLifecycle (sort_by proof_less) ascii_only [promise ''c1''] [reported, reported\<lparr>pt_Text := ''no''\<rparr>])
    = map lr_Item (ProjectLifecycle (sort_by proof_less) ascii_only [promise ''c1''] [reported\<lparr>pt_Text := ''no''\<rparr>, reported])"
  by (rule evidence_order_is_irrelevant)
    (auto simp: sorts_sort_by weak_order_proof_less add_mset_commute reported_def)

lemma promises_match: "duplicates ascii_only (promise ''c1'') (promise ''c2'')"
  by (simp add: duplicates_def dedupCandidate_def strongProvenance_def sameLifecycle_def atomEqual_def promise_def)

lemma duplicates_form_stars_witness:
  "(let rows = map (\<lambda>(v, i). \<lparr>dr_Item = v, dr_OriginalIndex = i, dr_Supporting = []\<rparr>) (zip [promise ''c1'', promise ''c2''] [0..<2])
    in (\<forall>i < 2. star_row ascii_only rows (ProjectDuplicates (\<lambda>xs. xs) ascii_only [promise ''c1'', promise ''c2'']) i))
   \<and> map (\<lambda>r. it_DuplicateOf (dr_Item r)) (ProjectDuplicates (\<lambda>xs. xs) ascii_only [promise ''c1'', promise ''c2''])
      = [[], ''c1'']"
proof -
  have "it_ID (promise i) = i" "it_DuplicateOf (promise i) = []" for i by (simp_all add: promise_def)
  then have "map (\<lambda>r. it_DuplicateOf (dr_Item r)) (ProjectDuplicates (\<lambda>xs. xs) ascii_only [promise ''c1'', promise ''c2''])
      = [[], ''c1'']"
    by (simp add: ProjectDuplicates_def promises_match upt_rec)
  then show ?thesis
    using duplicates_form_stars [where stable_sort = "\<lambda>xs. xs" and items = "[promise ''c1'', promise ''c2'']"
        and u = ascii_only, OF refl refl] by (simp add: Let_def numeral_2_eq_2)
qed

end
