(* ===== verification/CommitmentRecords.thy ===== *)
theory CommitmentRecords
  imports CommitmentClaims
begin

text \<open>
  Commitment records, internal/commitment/records.go and model.go: the citations a record carries,
  how two lists of them merge, the removal of repeated identifiers, and the two projections of
  lifecycle.go as the callers use them. \<open>ApplyLifecycle\<close> sorts its evidence in place, so its
  result comes with the evidence as it is left.
\<close>

abbreviation ClosureNone :: string where "ClosureNone \<equiv> ''none''"
abbreviation CitationOpener :: string where "CitationOpener \<equiv> ''opener''"
abbreviation CitationClosure :: string where "CitationClosure \<equiv> ''closure''"
abbreviation CitationSupporting :: string where "CitationSupporting \<equiv> ''supporting''"

definition citationKey :: "cited \<Rightarrow> string" where
  "citationKey c = join [CHR 0x00] [ct_memoryID (cc_Citation c), cc_CommitmentID c, cc_Role c, cc_EvidenceRef c]"

definition MergeCitations :: "cited list \<Rightarrow> cited list \<Rightarrow> cited list" where
  \<comment> \<open>\<open>seen\<close> is the set of the keys of \<open>out\<close> all along\<close>
  "MergeCitations a b = foldl (\<lambda>out c. if citationKey c \<in> citationKey ` set out then out else out @ [c]) a b"

definition unique_step :: "item list \<times> (string \<rightharpoonup> nat) \<Rightarrow> item \<Rightarrow> item list \<times> (string \<rightharpoonup> nat)" where
  "unique_step st r = (case st of (out, seen) \<Rightarrow>
     if it_ID r = [] then (out @ [r], seen)
     else (case seen (it_ID r) of
         Some prior \<Rightarrow>
           (out[prior := (out ! prior)\<lparr>it_Citations := MergeCitations (it_Citations (out ! prior)) (it_Citations r)\<rparr>], seen)
       | None \<Rightarrow> (out @ [r], seen(it_ID r \<mapsto> length out))))"

definition Unique :: "item list \<Rightarrow> item list" where
  "Unique records = fst (foldl unique_step ([], Map.empty) records)"

definition support_citation :: "item \<Rightarrow> cited \<Rightarrow> cited" where
  "support_citation support c = c\<lparr>cc_Role := CitationSupporting, cc_CommitmentID := it_ID support\<rparr>"

definition add_support :: "item list \<Rightarrow> item \<Rightarrow> nat \<Rightarrow> item" where
  "add_support records r support =
     foldl (\<lambda>r c. r\<lparr>it_Citations := MergeCitations (it_Citations r) [support_citation (records ! support) c]\<rparr>)
       r (it_Citations (records ! support))"

definition deduplicate_row :: "item list \<Rightarrow> dedup_result \<Rightarrow> item" where
  "deduplicate_row records p =
     foldl (add_support records) ((records ! dr_OriginalIndex p)\<lparr>it_DuplicateOf := it_DuplicateOf (dr_Item p)\<rparr>)
       (dr_Supporting p)"

definition Deduplicate :: "(dedup_result list \<Rightarrow> dedup_result list) \<Rightarrow> unicode \<Rightarrow> item list \<Rightarrow> item list" where
  "Deduplicate stable_sort u records = map (deduplicate_row records) (ProjectDuplicates stable_sort u records)"

definition apply_row :: "proof_text list \<Rightarrow> item \<Rightarrow> lifecycle_result \<Rightarrow> item" where
  "apply_row evidence r p =
     (let r = r\<lparr>it_State := it_State (lr_Item p), it_ClosureRef := it_ClosureRef (lr_Item p),
            it_SupersededBy := it_SupersededBy (lr_Item p), it_Gap := it_Gap (lr_Item p)\<rparr> in
      if 0 \<le> lr_ClosureEvidence p then
        (let candidate = evidence ! nat (lr_ClosureEvidence p) in
         if ct_memoryID (pt_Citation candidate) \<noteq> [] then
           r\<lparr>it_Citations := MergeCitations (it_Citations r)
             [\<lparr>cc_Citation = pt_Citation candidate, cc_CommitmentID = it_ID r, cc_Role = CitationClosure,
               cc_EvidenceRef = pt_CitationEvidenceRef candidate\<rparr>]\<rparr>
         else r)
      else r)"

definition ApplyLifecycle ::
  "(proof_text list \<Rightarrow> proof_text list) \<Rightarrow> ((proof_text \<times> nat) list \<Rightarrow> (proof_text \<times> nat) list) \<Rightarrow> unicode
    \<Rightarrow> item list \<Rightarrow> proof_text list \<Rightarrow> item list \<times> proof_text list" where
  "ApplyLifecycle sort_evidence sort_slice u records evidence =
     (let evidence = sort_evidence evidence in
      (map2 (apply_row evidence) records (ProjectLifecycle sort_slice u records evidence), evidence))"

subsection \<open>Merging citations\<close>

lemma merge_Cons: "MergeCitations a (c # b) = MergeCitations (if citationKey c \<in> citationKey ` set a then a else a @ [c]) b"
  by (simp add: MergeCitations_def)

lemma merge_Nil [simp]: "MergeCitations a [] = a"
  by (simp add: MergeCitations_def)

lemma merge_extends: "\<exists>more. MergeCitations a b = a @ more \<and> set more \<subseteq> set b"
proof (induction b arbitrary: a)
  case (Cons c b)
  show ?case
  proof (cases "citationKey c \<in> citationKey ` set a")
    case True
    then show ?thesis using Cons [of a] by (auto simp: merge_Cons)
  next
    case False
    obtain more where "MergeCitations (a @ [c]) b = (a @ [c]) @ more" "set more \<subseteq> set b"
      using Cons by blast
    then show ?thesis using False by (intro exI [of _ "c # more"]) (auto simp: merge_Cons)
  qed
qed simp

lemma merge_keys: "citationKey ` set (MergeCitations a b) = citationKey ` set a \<union> citationKey ` set b"
  by (induction b arbitrary: a) (auto simp: merge_Cons)

lemma merge_distinct: "distinct (map citationKey a) \<Longrightarrow> distinct (map citationKey (MergeCitations a b))"
  by (induction b arbitrary: a) (auto simp: merge_Cons)

subsection \<open>Applying the lifecycle\<close>

definition same_obligation :: "item \<Rightarrow> item \<Rightarrow> bool" where
  \<comment> \<open>equal but for the state, what settled it, the gap note and the citations\<close>
  "same_obligation v r \<longleftrightarrow> r = v\<lparr>it_State := it_State r, it_ClosureRef := it_ClosureRef r,
     it_SupersededBy := it_SupersededBy r, it_Gap := it_Gap r, it_Citations := it_Citations r\<rparr>"

definition backed :: "unicode \<Rightarrow> proof_text list \<Rightarrow> item \<Rightarrow> item \<Rightarrow> bool" where
  \<comment> \<open>a record that was open and now is closed rests on authored evidence that fits it, and cites it\<close>
  "backed u evidence v r \<longleftrightarrow> (it_State v = Open \<longrightarrow> it_State r = Closed \<longrightarrow>
     (\<exists>e \<in> set evidence. pt_Authored e \<and> (\<exists>voice. transition u (pt_Text e) = (Closed, voice)
         \<and> 0 < closureScore u v e Closed voice)
       \<and> it_ClosureRef r = pt_MemoryID e
       \<and> (ct_memoryID (pt_Citation e) \<noteq> [] \<longrightarrow>
           citationKey \<lparr>cc_Citation = pt_Citation e, cc_CommitmentID = it_ID v, cc_Role = CitationClosure,
             cc_EvidenceRef = pt_CitationEvidenceRef e\<rparr> \<in> citationKey ` set (it_Citations r))))"

lemma apply_row_vouched:
  assumes "settled_by_evidence u v (set (zip evidence [0..<length evidence])) p"
  shows "same_obligation v (apply_row evidence v p)
    \<and> (\<exists>more. it_Citations (apply_row evidence v p) = it_Citations v @ more)
    \<and> (it_State v \<noteq> Open \<longrightarrow> apply_row evidence v p = v)
    \<and> backed u evidence v (apply_row evidence v p)"
proof -
  consider (kept) g where "p = as_it_was v g" "it_State v \<noteq> Open \<longrightarrow> g = it_Gap v"
    | (closed) g e k voice where "(e, k) \<in> set (zip evidence [0..<length evidence])" "it_State v = Open" "pt_Authored e"
        "transition u (pt_Text e) = (Closed, voice)" "0 < closureScore u v e Closed voice"
        "p = settle_item Closed (e, k) (as_it_was v g)"
    | (superseded) g e k where "it_State v = Open" "p = settle_item Superseded (e, k) (as_it_was v g)"
    using assms unfolding settled_by_evidence_def by blast
  then show ?thesis
  proof cases
    case kept
    then show ?thesis by (simp add: apply_row_def as_it_was_def same_obligation_def backed_def)
  next
    case closed
    then have e: "evidence ! k = e" "e \<in> set evidence" by (auto simp: set_zip)
    obtain more where "MergeCitations (it_Citations v) [\<lparr>cc_Citation = pt_Citation e, cc_CommitmentID = it_ID v,
        cc_Role = CitationClosure, cc_EvidenceRef = pt_CitationEvidenceRef e\<rparr>] = it_Citations v @ more"
      using merge_extends by blast
    note m = this merge_keys [of "it_Citations v" "[\<lparr>cc_Citation = pt_Citation e, cc_CommitmentID = it_ID v,
        cc_Role = CitationClosure, cc_EvidenceRef = pt_CitationEvidenceRef e\<rparr>]"]
    show ?thesis
    proof (cases "ct_memoryID (pt_Citation e) = []")
      case True
      then show ?thesis using closed e
        by (auto simp: apply_row_def as_it_was_def settle_item_def same_obligation_def backed_def)
    next
      case False
      then show ?thesis using closed e m
        by (auto simp: apply_row_def as_it_was_def settle_item_def same_obligation_def backed_def)
    qed
  next
    case superseded
    then show ?thesis
      by (simp add: apply_row_def as_it_was_def settle_item_def same_obligation_def backed_def)
  qed
qed


subsection \<open>Repeated identifiers\<close>

definition uniquely :: "item list \<times> (string \<rightharpoonup> nat) \<Rightarrow> bool" where
  \<comment> \<open>\<open>seen\<close> maps the identifiers of \<open>out\<close> to where they are, each once\<close>
  "uniquely st \<longleftrightarrow> (\<forall>k i. snd st k = Some i \<longleftrightarrow> k \<noteq> [] \<and> i < length (fst st) \<and> it_ID (fst st ! i) = k)"

lemma uniquely_step:
  assumes "uniquely st"
  shows "uniquely (unique_step st r)"
proof -
  obtain out seen where st: "st = (out, seen)" by force
  have u: "seen k = Some i \<longleftrightarrow> k \<noteq> [] \<and> i < length out \<and> it_ID (out ! i) = k" for k i
    using assms by (simp add: st uniquely_def)
  show ?thesis
  proof (cases "it_ID r = []")
    case True
    then show ?thesis using u by (auto simp: st unique_step_def uniquely_def nth_append less_Suc_eq)
  next
    case False
    show ?thesis
    proof (cases "seen (it_ID r)")
      case None
      then have "it_ID (out ! i) \<noteq> it_ID r" if "i < length out" for i
        using u [of "it_ID r" i] False that by auto
      then show ?thesis using u False None
        by (auto simp: st unique_step_def uniquely_def nth_append less_Suc_eq)
    next
      case (Some prior)
      then have p: "prior < length out" using u by blast
      have "it_ID (out[prior := (out ! prior)\<lparr>it_Citations := MergeCitations (it_Citations (out ! prior)) (it_Citations r)\<rparr>] ! i)
          = it_ID (out ! i)" for i
        using p by (cases "i = prior") simp_all
      then show ?thesis using u False by (simp add: st unique_step_def uniquely_def Some)
    qed
  qed
qed

definition ids_once :: "item list \<Rightarrow> bool" where
  "ids_once rs \<longleftrightarrow> sorted_wrt (\<lambda>a b. it_ID a = it_ID b \<longrightarrow> it_ID a = []) rs"

definition keys_under :: "string \<Rightarrow> item list \<Rightarrow> string set" where
  \<comment> \<open>the keys of the citations the records of an identifier carry\<close>
  "keys_under k rs = (\<Union>i \<in> {i. i < length rs \<and> it_ID (rs ! i) = k}. citationKey ` set (it_Citations (rs ! i)))"

lemma keys_under_append: "keys_under k (rs @ [r]) = keys_under k rs \<union> (if it_ID r = k then citationKey ` set (it_Citations r) else {})"
  unfolding keys_under_def by (auto simp: nth_append less_Suc_eq)

lemma keys_under_update:
  assumes "i < length rs" "it_ID r = it_ID (rs ! i)"
    "citationKey ` set (it_Citations r) = citationKey ` set (it_Citations (rs ! i)) \<union> ks"
  shows "keys_under k (rs[i := r]) = keys_under k rs \<union> (if it_ID r = k then ks else {})"
proof (rule set_eqI)
  fix x
  show "x \<in> keys_under k (rs[i := r]) \<longleftrightarrow> x \<in> keys_under k rs \<union> (if it_ID r = k then ks else {})"
    using assms unfolding keys_under_def by (auto simp: nth_list_update split: if_splits)
qed

lemma keys_under_step:
  assumes "uniquely st" "k \<noteq> []"
  shows "keys_under k (fst (unique_step st r)) = keys_under k (fst st) \<union> keys_under k [r]"
proof -
  obtain out seen where st: "st = (out, seen)" by force
  have one: "keys_under k [r] = (if it_ID r = k then citationKey ` set (it_Citations r) else {})"
    using keys_under_append [of k "[]" r] by (simp add: keys_under_def [of k "[]"])
  show ?thesis
  proof (cases "seen (it_ID r)")
    case None
    then have "fst (unique_step st r) = out @ [r]" by (simp add: st unique_step_def)
    then show ?thesis by (simp add: st one keys_under_append)
  next
    case (Some prior)
    with assms(1) have p: "prior < length out" "it_ID (out ! prior) = it_ID r" "it_ID r \<noteq> []"
      by (auto simp: st uniquely_def)
    have "keys_under k (out[prior := (out ! prior)\<lparr>it_Citations := MergeCitations (it_Citations (out ! prior)) (it_Citations r)\<rparr>])
        = keys_under k out \<union> (if it_ID r = k then citationKey ` set (it_Citations r) else {})"
      using keys_under_update [OF p(1), of _ "citationKey ` set (it_Citations r)" k] p(2)
      by (simp add: merge_keys)
    then show ?thesis using p by (simp add: st unique_step_def Some one)
  qed
qed

lemma unique_fold:
  "uniquely st \<Longrightarrow> k \<noteq> [] \<Longrightarrow> uniquely (foldl unique_step st rs)
    \<and> keys_under k (fst (foldl unique_step st rs)) = keys_under k (fst st) \<union> keys_under k rs"
proof (induction rs arbitrary: st rule: rev_induct)
  case Nil
  then show ?case by (simp add: keys_under_def [of k "[]"])
next
  case (snoc r rs)
  then have ih: "uniquely (foldl unique_step st rs)"
    "keys_under k (fst (foldl unique_step st rs)) = keys_under k (fst st) \<union> keys_under k rs" by blast+
  have "keys_under k (rs @ [r]) = keys_under k rs \<union> keys_under k [r]"
    using keys_under_append [of k rs r] keys_under_append [of k "[]" r] by (simp add: keys_under_def [of k "[]"])
  then show ?case using uniquely_step [OF ih(1)] keys_under_step [OF ih(1) snoc.prems(2), of r] ih(2) by auto
qed

lemma uniquely_start: "uniquely ([], Map.empty)"
  by (simp add: uniquely_def)

lemma unique_same:
  "uniquely st \<Longrightarrow> \<forall>r \<in> set rs. it_ID r \<noteq> [] \<longrightarrow> snd st (it_ID r) = None \<Longrightarrow> ids_once rs
    \<Longrightarrow> fst (foldl unique_step st rs) = fst st @ rs"
proof (induction rs arbitrary: st)
  case (Cons r rs)
  obtain out seen where st: "st = (out, seen)" by force
  have s: "fst (unique_step st r) = out @ [r]" "it_ID r \<noteq> [] \<Longrightarrow> snd (unique_step st r) = seen(it_ID r \<mapsto> length out)"
    "it_ID r = [] \<Longrightarrow> snd (unique_step st r) = seen"
    using Cons.prems(2) by (auto simp: st unique_step_def)
  have "\<forall>q \<in> set rs. it_ID q \<noteq> [] \<longrightarrow> snd (unique_step st r) (it_ID q) = None"
  proof (cases "it_ID r = []")
    case True
    then show ?thesis using Cons.prems(2) s(3) by (simp add: st)
  next
    case False
    then have "it_ID q \<noteq> it_ID r" if "q \<in> set rs" for q
      using Cons.prems(3) that by (auto simp: ids_once_def)
    then show ?thesis using Cons.prems(2) s(2) [OF False] by (simp add: st)
  qed
  moreover have "ids_once rs" using Cons.prems(3) by (simp add: ids_once_def)
  ultimately show ?case using Cons.IH [OF uniquely_step [OF Cons.prems(1)], of r] s(1) by (simp add: st)
qed simp

lemma uniquely_once: "uniquely st \<Longrightarrow> ids_once (fst st)"
  unfolding ids_once_def uniquely_def sorted_wrt_iff_nth_less
  by (metis (no_types, lifting) less_trans nat_neq_iff option.inject)

text \<open>\<open>Unique\<close> keeps one record of each identifier and loses no citation: no identifier but the empty
  one occurs twice in what it returns, the records of each identifier carry together exactly the
  citations, by key, that they carried before, and a second pass changes nothing.\<close>

lemma unique_records_keep_their_citations:
  "ids_once (Unique records) \<and> (k \<noteq> [] \<longrightarrow> keys_under k (Unique records) = keys_under k records)
    \<and> Unique (Unique records) = Unique records"
proof -
  have "uniquely (foldl unique_step ([], Map.empty) records)"
    using unique_fold [OF uniquely_start, of "''x''"] by simp
  then have o: "ids_once (Unique records)" unfolding Unique_def by (rule uniquely_once)
  have "keys_under k [] = {}" by (simp add: keys_under_def)
  then have "k \<noteq> [] \<longrightarrow> keys_under k (Unique records) = keys_under k records"
    using unique_fold [OF uniquely_start, of k records] by (simp add: Unique_def)
  moreover have "Unique (Unique records) = Unique records"
    using unique_same [OF uniquely_start _ o] by (simp add: Unique_def [of "Unique records"])
  ultimately show ?thesis using o by blast
qed

subsection \<open>Duplicates\<close>

lemma merge_append: "MergeCitations a (b @ c) = MergeCitations (MergeCitations a b) c"
  by (simp add: MergeCitations_def)

lemma item_same [simp]: "r\<lparr>it_Citations := it_Citations r\<rparr> = r" "r\<lparr>it_DuplicateOf := it_DuplicateOf r\<rparr> = r" for r :: item
  by simp_all

lemma add_support_eq:
  "add_support records r i = r\<lparr>it_Citations := MergeCitations (it_Citations r)
     (map (support_citation (records ! i)) (it_Citations (records ! i)))\<rparr>"
proof -
  have "foldl (\<lambda>r c. r\<lparr>it_Citations := MergeCitations (it_Citations r) [f c]\<rparr>) r cs
      = r\<lparr>it_Citations := MergeCitations (it_Citations r) (map f cs)\<rparr>" for f r cs
  proof (induction cs arbitrary: r)
    case (Cons c cs)
    then show ?case using merge_append [of "it_Citations r" "[f c]" "map f cs"] by simp
  qed simp
  then show ?thesis by (simp add: add_support_def)
qed

definition supporting :: "item list \<Rightarrow> nat list \<Rightarrow> cited list" where
  "supporting records is = concat (map (\<lambda>i. map (support_citation (records ! i)) (it_Citations (records ! i))) is)"

lemma deduplicate_row_eq:
  "deduplicate_row records p = (records ! dr_OriginalIndex p)\<lparr>it_DuplicateOf := it_DuplicateOf (dr_Item p),
     it_Citations := MergeCitations (it_Citations (records ! dr_OriginalIndex p)) (supporting records (dr_Supporting p))\<rparr>"
proof -
  have "foldl (add_support records) r is = r\<lparr>it_Citations := MergeCitations (it_Citations r) (supporting records is)\<rparr>" for r "is"
  proof (induction "is" arbitrary: r)
    case (Cons i "is")
    then show ?case by (simp add: add_support_eq supporting_def merge_append)
  qed (simp add: supporting_def)
  then show ?thesis by (simp add: deduplicate_row_def)
qed

definition rows_of_items :: "item list \<Rightarrow> dedup_result list" where
  "rows_of_items items = map (\<lambda>(v, i). \<lparr>dr_Item = v, dr_OriginalIndex = i, dr_Supporting = []\<rparr>) (zip items [0..<length items])"

lemma rows_of_items_row: "x \<in> set (rows_of_items items) \<Longrightarrow> dr_Item x = items ! dr_OriginalIndex x \<and> dr_OriginalIndex x < length items"
  by (auto simp: rows_of_items_def set_zip)

definition absorbed :: "item list \<Rightarrow> nat list \<Rightarrow> item list \<Rightarrow> nat \<Rightarrow> bool" where
  \<comment> \<open>output \<open>i\<close>, which comes from input \<open>order ! i\<close>, was marked a duplicate of an earlier output that is
      none and that carries its citations as supporting ones\<close>
  "absorbed records order out i \<longleftrightarrow> it_DuplicateOf (records ! (order ! i)) = []
     \<and> (\<exists>j < i. it_ID (out ! j) \<noteq> [] \<and> it_DuplicateOf (out ! j) = [] \<and> it_DuplicateOf (out ! i) = it_ID (out ! j)
        \<and> (\<forall>c \<in> set (it_Citations (records ! (order ! i))).
            citationKey (support_citation (records ! (order ! i)) c) \<in> citationKey ` set (it_Citations (out ! j))))"

definition starred :: "unicode \<Rightarrow> item list \<Rightarrow> dedup_result list \<Rightarrow> nat \<Rightarrow> bool" where
  \<comment> \<open>row \<open>i\<close> of the projection against the record it comes from\<close>
  "starred u records ps i \<longleftrightarrow> (let r = records ! dr_OriginalIndex (ps ! i) in
     dr_Item (ps ! i) = r
     \<or> it_DuplicateOf r = []
       \<and> (\<exists>j < i. it_ID (dr_Item (ps ! j)) \<noteq> [] \<and> it_DuplicateOf (dr_Item (ps ! j)) = []
          \<and> dr_OriginalIndex (ps ! i) \<in> set (dr_Supporting (ps ! j))
          \<and> dr_Item (ps ! i) = r\<lparr>it_DuplicateOf := it_ID (dr_Item (ps ! j))\<rparr>))"

lemma projected_rows:
  assumes "\<And>xs. mset (stable_sort xs) = mset xs" "ps = ProjectDuplicates stable_sort u records"
  shows "length ps = length records" "mset (map dr_OriginalIndex ps) = mset [0..<length records]"
    "i < length records \<Longrightarrow> starred u records ps i"
proof -
  let ?xs = "stable_sort (rows_of_items records)"
  have ps: "ps = mark_duplicates u ?xs" by (simp add: assms(2) ProjectDuplicates_def rows_of_items_def)
  have len: "length ?xs = length records"
    using mset_eq_length [OF assms(1), of "rows_of_items records"] by (simp add: rows_of_items_def)
  then show l: "length ps = length records" by (simp add: ps)
  have star: "star_row u ?xs ps i" if "i < length records" for i
    using mark_duplicates_star [of i ?xs u] that len by (simp add: ps)
  then have idx: "dr_OriginalIndex (ps ! i) = dr_OriginalIndex (?xs ! i)" if "i < length records" for i
    using that by (simp add: star_row_def)
  then have "map dr_OriginalIndex ps = map dr_OriginalIndex ?xs"
    by (intro nth_equalityI) (simp_all add: l len)
  then have "mset (map dr_OriginalIndex ps) = mset (map dr_OriginalIndex (rows_of_items records))"
    using assms(1) by (metis mset_map)
  also have "map dr_OriginalIndex (rows_of_items records) = [0..<length records]"
    by (simp add: rows_of_items_def case_prod_unfold comp_def)
  finally show "mset (map dr_OriginalIndex ps) = mset [0..<length records]" .
  have "set ?xs = set (rows_of_items records)" using assms(1) by (metis set_mset_mset)
  then have "dr_Item (?xs ! i) = records ! dr_OriginalIndex (?xs ! i)" if "i < length records" for i
    using rows_of_items_row [of "?xs ! i" records] that len nth_mem [of i ?xs] by auto
  then show "starred u records ps i" if "i < length records"
    using star [OF that] idx [OF that] that unfolding starred_def star_row_def Let_def by auto
qed

lemma starred_ID: "starred u records ps i \<Longrightarrow> it_ID (dr_Item (ps ! i)) = it_ID (records ! dr_OriginalIndex (ps ! i))"
  by (auto simp: starred_def Let_def)

lemma starred_absorbed:
  assumes "starred u records ps i" "\<And>j. j \<le> i \<Longrightarrow> starred u records ps j" "i < length ps"
    and "order = map dr_OriginalIndex ps" "out = map (deduplicate_row records) ps"
  shows "it_DuplicateOf (dr_Item (ps ! i)) = it_DuplicateOf (records ! (order ! i)) \<or> absorbed records order out i"
proof (cases "dr_Item (ps ! i) = records ! dr_OriginalIndex (ps ! i)")
  case True
  then show ?thesis using assms(3,4) by simp
next
  case False
  with assms(1,3,4) obtain j where j: "j < i" "it_DuplicateOf (records ! (order ! i)) = []"
    "it_ID (dr_Item (ps ! j)) \<noteq> []" "it_DuplicateOf (dr_Item (ps ! j)) = []" "order ! i \<in> set (dr_Supporting (ps ! j))"
    "it_DuplicateOf (dr_Item (ps ! i)) = it_ID (dr_Item (ps ! j))"
    unfolding starred_def Let_def by auto
  then have nth: "out ! k = deduplicate_row records (ps ! k)" if "k \<le> i" for k
    using assms(3,5) that by simp
  have "it_ID (dr_Item (ps ! j)) = it_ID (records ! dr_OriginalIndex (ps ! j))"
    by (rule starred_ID [OF assms(2)]) (use j(1) in simp)
  then have o: "it_ID (out ! j) = it_ID (dr_Item (ps ! j))" "it_DuplicateOf (out ! j) = []"
    "it_DuplicateOf (out ! i) = it_ID (out ! j)"
    using nth [of j] nth [of i] j(1,4,6) by (simp_all add: deduplicate_row_eq)
  have "citationKey (support_citation (records ! (order ! i)) c) \<in> citationKey ` set (it_Citations (out ! j))"
    if "c \<in> set (it_Citations (records ! (order ! i)))" for c
    using that j(1,5) nth [of j] by (auto simp: deduplicate_row_eq merge_keys supporting_def)
  then show ?thesis unfolding absorbed_def using j(1-3) o by metis
qed


subsection \<open>Examples\<close>

definition cited_promise :: "string \<Rightarrow> item" where
  "cited_promise i = (promise i)\<lparr>it_Citations := [\<lparr>cc_Citation = quoted_citation, cc_CommitmentID = i, cc_Role = CitationOpener,
     cc_EvidenceRef = []\<rparr>]\<rparr>"


lemma unique_records_keep_their_citations_witness:
  "keys_under ''c1'' (Unique [cited_promise ''c1'', promise ''c1'']) = keys_under ''c1'' [cited_promise ''c1'', promise ''c1'']"
  using unique_records_keep_their_citations [of "[cited_promise ''c1'', promise ''c1'']" "''c1''"] by simp


end
