(* ===== verification/Operations.thy ===== *)
theory Operations
  imports LeaseFile
begin

text \<open>
  Work receipts, internal/operation/operation.go: durable records of running ingests and index
  rebuilds, their heartbeats, their terminal states, and the projection the health report reads.
  The receipts of a kind are the files of one directory, given as the entries \<open>os.ReadDir\<close> lists
  (a directory that does not exist has none); a file holds a record, or bytes that decode to none.
  \<open>json.Marshal\<close> followed by \<open>LoadRecord\<close> is taken to give the record back. Every operation takes
  the outcomes of its file operations as an argument. The state directory is judged as on Unix.
\<close>

abbreviation KindIngest :: string where "KindIngest \<equiv> ''ingest''"
abbreviation KindIndexRebuild :: string where "KindIndexRebuild \<equiv> ''index_rebuild''"
abbreviation Running :: string where "Running \<equiv> ''running''"
abbreviation Stalled :: string where "Stalled \<equiv> ''stalled''"
abbreviation Failed :: string where "Failed \<equiv> ''failed''"
abbreviation Completed :: string where "Completed \<equiv> ''completed''"

definition OperationSchemaVersion :: int where "OperationSchemaVersion = 1"
definition HeartbeatTTL :: duration where "HeartbeatTTL = 15 * minute"
definition TerminalKeep :: nat where "TerminalKeep = 16"

record counts =
  co_Items :: int
  co_Files :: int
  co_Errors :: int
  co_Examined :: int
  co_Materialized :: int
  co_Missing :: int

definition no_counts :: counts where
  "no_counts = \<lparr>co_Items = 0, co_Files = 0, co_Errors = 0, co_Examined = 0, co_Materialized = 0, co_Missing = 0\<rparr>"

definition validCounts :: "counts \<Rightarrow> bool" where
  "validCounts c \<longleftrightarrow> 0 \<le> co_Items c \<and> 0 \<le> co_Files c \<and> 0 \<le> co_Errors c
     \<and> 0 \<le> co_Examined c \<and> 0 \<le> co_Materialized c \<and> 0 \<le> co_Missing c"

record work =
  \<comment> \<open>\<open>Record\<close>\<close>
  wk_SchemaVersion :: int
  wk_Kind :: string
  wk_State :: string
  wk_RunID :: string
  wk_OwnerPID :: int
  wk_StartedAt :: string
  wk_HeartbeatAt :: string
  wk_FinishedAt :: string
  wk_Phase :: string
  wk_Counts :: counts
  wk_FailureCode :: string

record activity =
  ac_Kind :: string
  ac_State :: string
  ac_RunID :: string
  ac_StartedAt :: string
  ac_LastHeartbeat :: string
  ac_FinishedAt :: string
  ac_Phase :: string
  ac_Counts :: counts
  ac_FailureCode :: string

record handle =
  ha_Kind :: string
  ha_RunID :: string
  ha_PID :: int

datatype receipt_file = Receipt work | Garbled | Folder

type_synonym receipts = "(string \<times> receipt_file) list"

record work_io =
  wi_guard :: guard_io
  wi_list :: "go_error option" \<comment> \<open>\<open>os.ReadDir\<close>\<close>
  wi_stat :: "go_error option"
  wi_read :: "string \<Rightarrow> go_error option" \<comment> \<open>by file name\<close>
  wi_remove :: "string \<Rightarrow> go_error option"
  wi_write :: write_result

definition work_io_ok :: work_io where
  "work_io_ok = \<lparr>wi_guard = guard_io_ok, wi_list = None, wi_stat = None, wi_read = (\<lambda>_. None),
     wi_remove = (\<lambda>_. None), wi_write = Written\<rparr>"

subsection \<open>Names and tokens\<close>

definition operationKindValid :: "string \<Rightarrow> bool" where
  "operationKindValid kind \<longleftrightarrow> kind = KindIngest \<or> kind = KindIndexRebuild"

definition receipt_name :: "string \<Rightarrow> string" where
  "receipt_name runID = runID @ ''.json''"

definition receipt_entry :: "string \<times> receipt_file \<Rightarrow> bool" where
  \<comment> \<open>the test every listing starts with\<close>
  "receipt_entry e \<longleftrightarrow> \<not> (snd e = Folder \<or> \<not> has_suffix (fst e) ''.json'')"

definition trim_suffix :: "string \<Rightarrow> string \<Rightarrow> string" where
  "trim_suffix s p = (if has_suffix s p then take (length s - length p) s else s)"

definition operationStateRootErr :: "string \<Rightarrow> go_error option" where
  "operationStateRootErr state_dir = (if state_dir = [] \<or> \<not> has_prefix state_dir ''/'' then
     Some (OtherError ''operation receipt requires an absolute state_dir'') else None)"

definition token_rune :: "rune \<Rightarrow> bool" where
  "token_rune r \<longleftrightarrow> \<not> ((r < 97 \<or> 122 < r) \<and> (r < 65 \<or> 90 < r) \<and> (r < 48 \<or> 57 < r) \<and> r \<noteq> 95 \<and> r \<noteq> 45)"

definition validOperationToken :: "string \<Rightarrow> bool" where
  "validOperationToken s = (if s = [] \<or> 128 < length s then False else list_all token_rune (runes s))"

definition sanitizeOperationPhase :: "string \<Rightarrow> string" where
  "sanitizeOperationPhase phase = (let phase = TrimSpace phase in
     if \<not> validOperationToken phase then ''unknown'' else phase)"

definition newOperationRunID :: "nat list \<Rightarrow> instant \<Rightarrow> string" where
  \<comment> \<open>\<open>suffix\<close> is the four bytes \<open>rand.Read\<close> gives\<close>
  "newOperationRunID suffix now = ''op_'' @ format_compact now @ ''_'' @ hex_string suffix"

subsection \<open>Files\<close>

definition SaveRecord :: "write_result \<Rightarrow> string \<Rightarrow> work \<Rightarrow> receipts \<Rightarrow> go_error option \<times> receipts" where
  "SaveRecord w name r fs = (write_error w, if landed w then AList.update name (Receipt r) fs else fs)"

definition LoadRecord :: "work_io \<Rightarrow> string \<Rightarrow> receipts \<Rightarrow> go_error + work" where
  "LoadRecord io name fs = (case wi_read io name of Some e \<Rightarrow> Inl e
     | None \<Rightarrow> (case map_of fs name of
         None \<Rightarrow> Inl ErrNotExist
       | Some (Receipt r) \<Rightarrow> Inr r
       | Some Garbled \<Rightarrow> Inl (OtherError ''operation receipt does not decode'')
       | Some Folder \<Rightarrow> Inl (OtherError ''is a directory'')))"

definition os_Remove_receipt :: "work_io \<Rightarrow> string \<Rightarrow> receipts \<Rightarrow> go_error option \<times> receipts" where
  "os_Remove_receipt io name fs = (case wi_remove io name of Some e \<Rightarrow> (Some e, fs)
     | None \<Rightarrow> (if name \<in> fst ` set fs then (None, AList.delete name fs) else (Some ErrNotExist, fs)))"

definition guarded :: "guard_io \<Rightarrow> ('d \<Rightarrow> go_error option \<times> 'd) \<Rightarrow> 'd \<Rightarrow> go_error option \<times> 'd" where
  \<comment> \<open>\<open>leasefile.WithGuard\<close> around a section that returns nothing but its error\<close>
  "guarded io fn d = (case WithGuard io () (\<lambda>d. case fn d of (e, d') \<Rightarrow> Some (((), e), d')) d of
     Some ((_, e), d') \<Rightarrow> (e, d') | None \<Rightarrow> (None, d))"

lemma guarded_simp: "guarded io fn d = (case gi_enter io of Some e \<Rightarrow> (Some e, d)
    | None \<Rightarrow> (case fn d of (e, d') \<Rightarrow> (join_error e (gi_leave io), d')))"
  by (simp add: guarded_def WithGuard_def split: option.split prod.split)

subsection \<open>Reading a record\<close>

definition invalid_activity :: "string \<Rightarrow> string \<Rightarrow> string \<Rightarrow> activity" where
  \<comment> \<open>\<open>invalidOperationActivityWithRun\<close>\<close>
  "invalid_activity kind runID code = (let runID = (if \<not> validOperationToken runID then ''unknown'' else runID) in
     \<lparr>ac_Kind = kind, ac_State = Failed, ac_RunID = runID, ac_StartedAt = [], ac_LastHeartbeat = [],
      ac_FinishedAt = [], ac_Phase = ''unknown'', ac_Counts = no_counts, ac_FailureCode = code\<rparr>)"

definition record_fault :: "work \<Rightarrow> string \<Rightarrow> string \<Rightarrow> instant \<Rightarrow> string option" where
  \<comment> \<open>the checks of \<open>classifyOperationRecord\<close>: the code it calls \<open>bad\<close> with\<close>
  "record_fault r pathKind pathRunID now =
     (if wk_SchemaVersion r \<noteq> OperationSchemaVersion then Some ''unsupported_schema''
      else if wk_Kind r \<noteq> pathKind \<or> wk_RunID r \<noteq> pathRunID \<or> \<not> operationKindValid (wk_Kind r)
        \<or> \<not> validOperationToken (wk_RunID r) then Some ''identity_mismatch''
      else case (parse_rfc3339 (wk_StartedAt r), parse_rfc3339 (wk_HeartbeatAt r)) of
        (Some started, Some heartbeat) \<Rightarrow>
          if heartbeat < started \<or> now + minute < heartbeat then Some ''invalid_timestamp''
          else if wk_State r \<noteq> Running \<and> wk_State r \<noteq> Failed \<and> wk_State r \<noteq> Completed then Some ''invalid_state''
          else if \<not> validOperationToken (wk_Phase r) then Some ''invalid_phase''
          else if wk_State r = Running \<and> (wk_FinishedAt r \<noteq> [] \<or> wk_FailureCode r \<noteq> []) then Some ''incoherent_state''
          else if wk_State r = Failed \<and> (wk_FinishedAt r = [] \<or> wk_FailureCode r = []) then Some ''incoherent_state''
          else if wk_State r = Completed \<and> (wk_FinishedAt r = [] \<or> wk_FailureCode r \<noteq> []) then Some ''incoherent_state''
          else if co_Items (wk_Counts r) < 0 \<or> co_Files (wk_Counts r) < 0 \<or> co_Errors (wk_Counts r) < 0 then Some ''invalid_counts''
          else if wk_FailureCode r \<noteq> [] \<and> \<not> validOperationToken (wk_FailureCode r) then Some ''invalid_failure_code''
          else if wk_State r \<noteq> Running then
            (case parse_rfc3339 (wk_FinishedAt r) of None \<Rightarrow> Some ''invalid_timestamp''
             | Some finished \<Rightarrow>
                 if finished < started \<or> finished < heartbeat \<or> now + minute < finished then Some ''invalid_timestamp''
                 else None)
          else None
      | _ \<Rightarrow> Some ''invalid_timestamp'')"

definition activity_of :: "work \<Rightarrow> activity" where
  "activity_of r = \<lparr>ac_Kind = wk_Kind r, ac_State = wk_State r, ac_RunID = wk_RunID r,
     ac_StartedAt = wk_StartedAt r, ac_LastHeartbeat = wk_HeartbeatAt r, ac_FinishedAt = wk_FinishedAt r,
     ac_Phase = sanitizeOperationPhase (wk_Phase r), ac_Counts = wk_Counts r, ac_FailureCode = wk_FailureCode r\<rparr>"

definition classifyOperationRecord :: "work \<Rightarrow> string \<Rightarrow> string \<Rightarrow> instant \<Rightarrow> (int \<Rightarrow> bool) \<Rightarrow> activity" where
  "classifyOperationRecord r pathKind pathRunID now live = (case record_fault r pathKind pathRunID now of
       Some code \<Rightarrow> invalid_activity pathKind pathRunID code
     | None \<Rightarrow> (let a = activity_of r; heartbeat = the (parse_rfc3339 (wk_HeartbeatAt r)) in
         if wk_State r \<noteq> Running then a
         else if HeartbeatTTL < time_sub now heartbeat then a\<lparr>ac_State := Stalled, ac_FailureCode := ''heartbeat_expired''\<rparr>
         else if wk_OwnerPID r \<le> 0 \<or> \<not> live (wk_OwnerPID r) then a\<lparr>ac_State := Stalled, ac_FailureCode := ''owner_dead''\<rparr>
         else a))"

subsection \<open>Starting\<close>

definition dead_receipt :: "work_io \<Rightarrow> string \<Rightarrow> instant \<Rightarrow> (int \<Rightarrow> bool) \<Rightarrow> string \<Rightarrow> receipts \<Rightarrow> bool" where
  \<comment> \<open>the loop body of \<open>pruneDeadOwnerRecordsLocked\<close> reaches its \<open>os.Remove\<close>\<close>
  "dead_receipt io kind now live name fs = (case LoadRecord io name fs of Inl _ \<Rightarrow> False
     | Inr r \<Rightarrow>
         if wk_State r \<noteq> Running \<or> wk_OwnerPID r \<le> 0 then False
         else (let a = classifyOperationRecord r kind (trim_suffix name ''.json'') now live in
           case parse_rfc3339 (wk_HeartbeatAt r) of None \<Rightarrow> False
           | Some heartbeat \<Rightarrow>
               (let recent = (kind \<noteq> KindIndexRebuild \<and> time_sub now heartbeat \<le> HeartbeatTTL) in
                \<not> (ac_State a \<noteq> Stalled \<or> recent \<or> live (wk_OwnerPID r)))))"

fun prune_dead :: "work_io \<Rightarrow> string \<Rightarrow> instant \<Rightarrow> (int \<Rightarrow> bool) \<Rightarrow> string list \<Rightarrow> receipts \<Rightarrow> go_error option \<times> receipts" where
  "prune_dead io kind now live [] fs = (None, fs)"
| "prune_dead io kind now live (name # names) fs =
     (if \<not> dead_receipt io kind now live name fs then prune_dead io kind now live names fs
      else (case os_Remove_receipt io name fs of (e, fs') \<Rightarrow>
        if e \<noteq> None \<and> \<not> err_is e ErrNotExist then (e, fs')
        else prune_dead io kind now live names fs'))"

definition pruneDeadOwnerRecordsLocked ::
  "work_io \<Rightarrow> string \<Rightarrow> instant \<Rightarrow> (int \<Rightarrow> bool) \<Rightarrow> receipts \<Rightarrow> go_error option \<times> receipts" where
  "pruneDeadOwnerRecordsLocked io kind now live fs =
     (if err_is (wi_list io) ErrNotExist then (None, fs)
      else if wi_list io \<noteq> None then (wi_list io, fs)
      else prune_dead io kind now live (map fst (filter receipt_entry fs)) fs)"

definition new_work :: "string \<Rightarrow> string \<Rightarrow> int \<Rightarrow> string \<Rightarrow> instant \<Rightarrow> work" where
  "new_work kind runID pid phase now = (let stamp = format_rfc3339_nano now in
     \<lparr>wk_SchemaVersion = OperationSchemaVersion, wk_Kind = kind, wk_State = Running, wk_RunID = runID, wk_OwnerPID = pid,
      wk_StartedAt = stamp, wk_HeartbeatAt = stamp, wk_FinishedAt = [], wk_Phase = phase, wk_Counts = no_counts,
      wk_FailureCode = []\<rparr>)"

type_synonym ledgers = "string \<Rightarrow> receipts" \<comment> \<open>by kind\<close>

definition Begin ::
  "work_io \<Rightarrow> string \<Rightarrow> string \<Rightarrow> string \<Rightarrow> nat list \<Rightarrow> int \<Rightarrow> instant \<Rightarrow> (int \<Rightarrow> bool) \<Rightarrow> ledgers
    \<Rightarrow> (go_error + handle) \<times> ledgers" where
  "Begin io state_dir kind phase suffix pid now live ds = (case operationStateRootErr state_dir of Some e \<Rightarrow> (Inl e, ds)
     | None \<Rightarrow>
         if \<not> operationKindValid kind then (Inl (OtherError ''invalid operation kind''), ds)
         else (let phase = TrimSpace phase in
           if \<not> validOperationToken phase then (Inl (OtherError ''invalid operation phase''), ds)
           else (let runID = newOperationRunID suffix now; name = receipt_name runID;
                  (err, fs) = guarded (wi_guard io) (\<lambda>fs.
                    case pruneDeadOwnerRecordsLocked io kind now live fs of
                      (Some e, fs) \<Rightarrow> (Some e, fs)
                    | (None, fs) \<Rightarrow>
                        (case wi_stat io of
                           Some e \<Rightarrow> if errors_is e ErrNotExist then SaveRecord (wi_write io) name (new_work kind runID pid phase now) fs
                             else (Some e, fs)
                         | None \<Rightarrow> if map_of fs name \<noteq> None then (Some (OtherError ''operation run id collision''), fs)
                             else SaveRecord (wi_write io) name (new_work kind runID pid phase now) fs)) (ds kind)
              in (case err of Some e \<Rightarrow> Inl e | None \<Rightarrow> Inr \<lparr>ha_Kind = kind, ha_RunID = runID, ha_PID = pid\<rparr>, ds(kind := fs)))))"

subsection \<open>Changing a receipt\<close>

definition mutateOperation ::
  "work_io \<Rightarrow> string \<Rightarrow> handle \<Rightarrow> (work \<Rightarrow> go_error + work) \<Rightarrow> ledgers \<Rightarrow> go_error option \<times> ledgers" where
  "mutateOperation io state_dir h fn ds = (case operationStateRootErr state_dir of Some e \<Rightarrow> (Some e, ds)
     | None \<Rightarrow>
         if \<not> operationKindValid (ha_Kind h) \<or> \<not> validOperationToken (ha_RunID h) \<or> ha_PID h \<le> 0
         then (Some (OtherError ''invalid operation handle''), ds)
         else (let name = receipt_name (ha_RunID h);
                (err, fs) = guarded (wi_guard io) (\<lambda>fs. case LoadRecord io name fs of Inl e \<Rightarrow> (Some e, fs)
                  | Inr r \<Rightarrow>
                      if wk_RunID r \<noteq> ha_RunID h \<or> wk_Kind r \<noteq> ha_Kind h \<or> wk_OwnerPID r \<noteq> ha_PID h
                      then (Some (OtherError ''operation ownership changed''), fs)
                      else (case fn r of Inl e \<Rightarrow> (Some e, fs) | Inr r' \<Rightarrow> SaveRecord (wi_write io) name r' fs)) (ds (ha_Kind h))
              in (err, ds(ha_Kind h := fs))))"

definition beat :: "instant \<Rightarrow> (work \<Rightarrow> work) \<Rightarrow> work \<Rightarrow> go_error + work" where
  \<comment> \<open>the checks the two writers share, before what they change\<close>
  "beat now change r =
     (if wk_State r \<noteq> Running then Inl (OtherError ''operation is not running'')
      else (case parse_rfc3339 (wk_HeartbeatAt r) of
          None \<Rightarrow> Inl (OtherError ''operation has invalid heartbeat'')
        | Some previous \<Rightarrow> if now < previous then Inl (OtherError ''operation heartbeat cannot move backward'')
            else Inr (change r)))"

definition Op_Heartbeat ::
  "work_io \<Rightarrow> string \<Rightarrow> handle \<Rightarrow> string \<Rightarrow> counts \<Rightarrow> instant \<Rightarrow> ledgers \<Rightarrow> go_error option \<times> ledgers" where
  "Op_Heartbeat io state_dir h phase c now ds = (let phase = TrimSpace phase in
     if \<not> validOperationToken phase then (Some (OtherError ''invalid operation phase''), ds)
     else if \<not> validCounts c then (Some (OtherError ''operation counts cannot be negative''), ds)
     else mutateOperation io state_dir h (beat now (\<lambda>r. r\<lparr>wk_HeartbeatAt := format_rfc3339_nano now, wk_Phase := phase, wk_Counts := c\<rparr>)) ds)"

definition terminal_receipt :: "work_io \<Rightarrow> receipts \<Rightarrow> string \<Rightarrow> string option" where
  \<comment> \<open>when the file is a terminal receipt: its \<open>finished\<close>\<close>
  "terminal_receipt io fs name = (case LoadRecord io name fs of Inl _ \<Rightarrow> None
     | Inr r \<Rightarrow> if wk_State r = Failed \<or> wk_State r = Completed then Some (wk_FinishedAt r) else None)"

definition later_first :: "string \<times> string \<Rightarrow> string \<times> string \<Rightarrow> bool" where
  \<comment> \<open>pairs of a path and a \<open>finished\<close>\<close>
  "later_first a b = (if snd a \<noteq> snd b then snd b < snd a else fst b < fst a)"

definition PruneTerminal :: "work_io \<Rightarrow> receipts \<Rightarrow> receipts" where
  "PruneTerminal io fs = (if wi_list io \<noteq> None then fs
     else (let names = map fst (filter receipt_entry fs);
              terms = concat (map (\<lambda>n. case terminal_receipt io fs n of Some f \<Rightarrow> [(n, f)] | None \<Rightarrow> []) names);
              terms = sort_by later_first terms
           in if length terms \<le> TerminalKeep then fs
              else foldl (\<lambda>fs old. snd (os_Remove_receipt io (fst old) fs)) fs (drop TerminalKeep terms)))"

definition Op_Finish ::
  "work_io \<Rightarrow> work_io \<Rightarrow> string \<Rightarrow> handle \<Rightarrow> string \<Rightarrow> string \<Rightarrow> counts \<Rightarrow> string \<Rightarrow> instant \<Rightarrow> ledgers
    \<Rightarrow> go_error option \<times> ledgers" where
  \<comment> \<open>\<open>io2\<close> is what the filesystem answers \<open>PruneTerminal\<close>\<close>
  "Op_Finish io io2 state_dir h state phase c failureCode now ds =
     (if state \<noteq> Failed \<and> state \<noteq> Completed then (Some (OtherError ''invalid terminal operation state''), ds)
      else (let phase = TrimSpace phase in
        if \<not> validOperationToken phase then (Some (OtherError ''invalid operation phase''), ds)
        else if \<not> validCounts c then (Some (OtherError ''operation counts cannot be negative''), ds)
        else if state = Completed \<and> failureCode \<noteq> [] then (Some (OtherError ''completed operation cannot carry a failure code''), ds)
        else (let failureCode = (if state = Failed \<and> failureCode = [] then ''operation_failed'' else failureCode);
                  failureCode = (if failureCode \<noteq> [] \<and> \<not> validOperationToken failureCode then ''operation_failed'' else failureCode);
                  stamp = format_rfc3339_nano now;
                  (err, ds) = mutateOperation io state_dir h (beat now (\<lambda>r. r\<lparr>wk_State := state, wk_HeartbeatAt := stamp,
                    wk_FinishedAt := stamp, wk_Phase := phase, wk_Counts := c, wk_FailureCode := failureCode\<rparr>)) ds
              in (err, if err = None then ds(ha_Kind h := PruneTerminal io2 (ds (ha_Kind h))) else ds))))"

definition cover :: "string \<Rightarrow> instant \<Rightarrow> work \<Rightarrow> go_error + work option" where
  \<comment> \<open>what \<open>CompleteAfterCoverage\<close> does with the record it loaded: nothing, or a new record\<close>
  "cover runID now r =
     (if wk_Kind r \<noteq> KindIngest \<or> wk_RunID r \<noteq> runID then Inl (OtherError ''covered operation identity mismatch'')
      else if wk_State r = Completed \<or> wk_State r = Failed then Inr None
      else if wk_State r \<noteq> Running then Inl (OtherError ''covered operation has invalid state'')
      else (case parse_rfc3339 (wk_HeartbeatAt r) of
          None \<Rightarrow> Inl (OtherError ''covered operation has invalid heartbeat'')
        | Some previous \<Rightarrow>
            if now < previous then Inl (OtherError ''covered operation has invalid heartbeat'')
            else (let stamp = format_rfc3339_nano now in
              Inr (Some (r\<lparr>wk_State := Completed, wk_HeartbeatAt := stamp, wk_FinishedAt := stamp,
                wk_Phase := ''journal_retired'', wk_FailureCode := []\<rparr>)))))"

definition CompleteAfterCoverage ::
  "work_io \<Rightarrow> work_io \<Rightarrow> string \<Rightarrow> instant \<Rightarrow> ledgers \<Rightarrow> go_error option \<times> ledgers" where
  \<comment> \<open>without the stop of the run's own \<open>Progress\<close>, which changes no receipt\<close>
  "CompleteAfterCoverage io io2 runID now ds =
     (if \<not> validOperationToken runID then (Some (OtherError ''invalid covered operation run id''), ds)
      else (let name = receipt_name runID;
             (err, fs) = guarded (wi_guard io) (\<lambda>fs. case LoadRecord io name fs of
                 Inl e \<Rightarrow> if errors_is e ErrNotExist then (None, fs) else (Some e, fs)
               | Inr r \<Rightarrow> (case cover runID now r of Inl e \<Rightarrow> (Some e, fs) | Inr None \<Rightarrow> (None, fs)
                   | Inr (Some r') \<Rightarrow> SaveRecord (wi_write io) name r' fs)) (ds KindIngest)
            in (err, ds(KindIngest := if err = None then PruneTerminal io2 fs else fs))))"

subsection \<open>The health report\<close>

definition read_activity :: "work_io \<Rightarrow> string \<Rightarrow> instant \<Rightarrow> (int \<Rightarrow> bool) \<Rightarrow> receipts \<Rightarrow> string \<Rightarrow> activity list" where
  "read_activity io kind now live fs name = (let pathRunID = trim_suffix name ''.json'' in
     case LoadRecord io name fs of
       Inl e \<Rightarrow> if errors_is e ErrNotExist then [] else [invalid_activity kind pathRunID ''receipt_invalid'']
     | Inr r \<Rightarrow> [classifyOperationRecord r kind pathRunID now live])"

definition kind_activities :: "work_io \<Rightarrow> string \<Rightarrow> instant \<Rightarrow> (int \<Rightarrow> bool) \<Rightarrow> receipts \<Rightarrow> activity list" where
  "kind_activities io kind now live fs =
     (if err_is (wi_list io) ErrNotExist then []
      else if wi_list io \<noteq> None then [invalid_activity kind ''unknown'' ''ledger_unreadable'']
      else concat (map (read_activity io kind now live fs) (map fst (filter receipt_entry fs))))"

definition is_terminal :: "activity \<Rightarrow> bool" where
  "is_terminal a \<longleftrightarrow> (ac_State a = Failed \<or> ac_State a = Completed) \<and> ac_FinishedAt a \<noteq> []"

definition latest_step :: "(string \<times> activity) list \<Rightarrow> activity \<Rightarrow> (string \<times> activity) list" where
  \<comment> \<open>\<open>latestTerminal\<close>, by kind\<close>
  "latest_step latest a = (case map_of latest (ac_Kind a) of
       None \<Rightarrow> AList.update (ac_Kind a) a latest
     | Some prev \<Rightarrow>
         if ac_FinishedAt prev < ac_FinishedAt a \<or> (ac_FinishedAt a = ac_FinishedAt prev \<and> ac_RunID prev < ac_RunID a)
         then AList.update (ac_Kind a) a latest else latest)"

definition activity_less :: "activity \<Rightarrow> activity \<Rightarrow> bool" where
  "activity_less a b = (if ac_StartedAt a \<noteq> ac_StartedAt b then ac_StartedAt a < ac_StartedAt b
     else if ac_Kind a \<noteq> ac_Kind b then ac_Kind a < ac_Kind b else ac_RunID a < ac_RunID b)"

definition Activities ::
  "(activity list \<Rightarrow> activity list) \<Rightarrow> (string \<Rightarrow> work_io) \<Rightarrow> string \<Rightarrow> instant \<Rightarrow> (int \<Rightarrow> bool) \<Rightarrow> ledgers \<Rightarrow> activity list" where
  \<comment> \<open>\<open>sort_slice\<close> is \<open>sort.Slice\<close>, which leaves equal elements in any order\<close>
  "Activities sort_slice io state_dir now live ds =
     (if operationStateRootErr state_dir \<noteq> None then [invalid_activity KindIndexRebuild ''unknown'' ''ledger_unreadable'']
      else (let out = concat (map (\<lambda>kind. kind_activities (io kind) kind now live (ds kind)) [KindIngest, KindIndexRebuild]);
                current = filter (\<lambda>a. \<not> is_terminal a) out;
                latest = foldl latest_step [] (filter is_terminal out)
            in sort_slice (current @ map snd latest)))"

end
