(* ===== verification/NanoTime.thy ===== *)
theory NanoTime
  imports LeaseFile
begin

text \<open>
  Stamps with a fraction of a second: what \<open>t.UTC().Format(time.RFC3339Nano)\<close> writes parses back to
  the very instant, in the years of four digits.
\<close>

definition decimals :: "nat \<Rightarrow> nat \<Rightarrow> string" where
  "decimals m n = map (\<lambda>k. digit_char (n div 10 ^ (m - 1 - k) mod 10)) [0..<m]"

definition digits_value :: "string \<Rightarrow> nat" where
  "digits_value ds = foldl (\<lambda>a c. 10 * a + digit_val c) 0 ds"

lemma decimals_Suc: "decimals (Suc m) n = decimals m (n div 10) @ [digit_char (n mod 10)]"
proof -
  have "n div 10 ^ (m - k) = n div 10 div 10 ^ (m - 1 - k)" if "k < m" for k
  proof -
    have "m - k = Suc (m - 1 - k)" using that by simp
    then show ?thesis by (simp only: power_Suc div_mult2_eq)
  qed
  then show ?thesis by (simp add: decimals_def)
qed

lemma digits_value_append [simp]: "digits_value (ds @ [c]) = 10 * digits_value ds + digit_val c"
  by (simp add: digits_value_def)

lemma digits_value_decimals: "digits_value (decimals m n) = n mod 10 ^ m"
proof (induction m arbitrary: n)
  case (Suc m)
  have "n mod 10 ^ Suc m = 10 * (n div 10 mod 10 ^ m) + n mod 10"
    by (simp add: mod_mult2_eq)
  then show ?case using Suc [of "n div 10"] by (simp add: decimals_Suc)
qed (simp add: decimals_def digits_value_def)

lemma decimals_digits: "c \<in> set (decimals m n) \<Longrightarrow> is_digit c"
  by (auto simp: decimals_def)

lemma length_decimals [simp]: "length (decimals m n) = m"
  by (simp add: decimals_def)

definition drop_zeros :: "string \<Rightarrow> string" where
  "drop_zeros ds = rev (dropWhile (\<lambda>c. c = CHR ''0'') (rev ds))"

lemma drop_zeros_split: "ds = drop_zeros ds @ replicate (length ds - length (drop_zeros ds)) (CHR ''0'')"
proof (induction ds rule: rev_induct)
  case (snoc c ds)
  have le: "length (drop_zeros ds) \<le> length ds"
    by (metis drop_zeros_def length_dropWhile_le length_rev)
  show ?case
  proof (cases "c = CHR ''0''")
    case True
    then have d: "drop_zeros (ds @ [c]) = drop_zeros ds" by (simp add: drop_zeros_def)
    have "replicate (Suc (length ds) - length (drop_zeros ds)) (CHR ''0'')
        = replicate (length ds - length (drop_zeros ds)) (CHR ''0'') @ [c]"
      using le True by (simp add: Suc_diff_le replicate_append_same)
    then show ?thesis using snoc d by (metis append.assoc length_append_singleton)
  next
    case False
    then show ?thesis by (simp add: drop_zeros_def)
  qed
qed (simp add: drop_zeros_def)

lemma digits_value_zeros: "digits_value (ds @ replicate k (CHR ''0'')) = digits_value ds * 10 ^ k"
proof (induction k)
  case (Suc k)
  have "ds @ replicate (Suc k) (CHR ''0'') = (ds @ replicate k (CHR ''0'')) @ [CHR ''0'']"
    by (simp add: replicate_append_same)
  with Suc show ?case by (simp only: digits_value_append) (simp add: digit_val_def byte_def)
qed simp

lemma fraction_kept:
  assumes "n < 10 ^ 9" "kept = drop_zeros (decimals 9 n)"
  shows "fraction ((if kept = [] then [] else CHR ''.'' # kept) @ ''Z'') = Some (n, ''Z'')"
proof -
  have v: "n = digits_value kept * 10 ^ (9 - length kept)"
    using drop_zeros_split [of "decimals 9 n"] digits_value_decimals [of 9 n] assms
      digits_value_zeros [of kept "9 - length kept"] by simp
  have len: "length kept \<le> 9" unfolding assms(2) drop_zeros_def
    by (metis length_decimals length_dropWhile_le length_rev)
  have dig: "is_digit c" if "c \<in> set kept" for c
  proof -
    have "set kept \<subseteq> set (decimals 9 n)" unfolding assms(2) drop_zeros_def using set_dropWhileD by fastforce
    then show ?thesis using that decimals_digits by blast
  qed
  show ?thesis
  proof (cases kept)
    case Nil
    then show ?thesis using v by (simp add: digits_value_def)
  next
    case (Cons d r)
    have z: "\<not> is_digit (CHR ''Z'')" by (simp add: is_digit_def byte_def)
    have "takeWhile is_digit (kept @ ''Z'') = kept" "dropWhile is_digit (kept @ ''Z'') = ''Z''"
      using dig z by (simp_all add: takeWhile_append2 dropWhile_append2)
    then show ?thesis using Cons dig [of d] len v by (simp add: fraction_def Let_def digits_value_def)
  qed
qed

lemma parse_stamp_fraction:
  assumes "y < 10000" "1 \<le> m" "m \<le> 12" "d < 100" "valid_date (int y) (int m) (int d)"
    "h < 24" "mi < 60" "s < 60" "fraction (fr @ ''Z'') = Some (ns, ''Z'')"
  shows "parse_rfc3339 (four y @ ''-'' @ two m @ ''-'' @ two d @ ''T'' @ two h @ '':''
     @ two mi @ '':'' @ two s @ fr @ ''Z'') = Some (mk_instant y m d h mi s ns 0)"
  using assms by (simp add: parse_rfc3339_def)

theorem parse_format_nano:
  assumes "in_years t"
  shows "parse_rfc3339 (format_rfc3339_nano t) = Some t"
proof -
  define S where "S = t div second"
  define k where "k = nat (S mod 86400)"
  define ns where "ns = nat (t mod second)"
  define fr where "fr = (let kept = drop_zeros (decimals 9 ns) in if kept = [] then [] else CHR ''.'' # kept)"
  obtain y m d where c: "civil_of_days (S div 86400) = (y, m, d)" by (metis prod_cases3)
  have v: "valid_date y m d" and dz: "days_of_civil y m d = S div 86400"
    using civil_of_days_correct [OF c] by simp_all
  have y: "0 \<le> y" "y < 10000" using assms c by (simp_all add: in_years_def S_def)
  have b: "1 \<le> m" "m \<le> 12" "1 \<le> d" "d \<le> 31"
    using v by (auto simp: valid_date_def days_in_def month_len_def split: if_splits)
  have k: "k < 86400" by (simp add: k_def)
  have n: "ns < 10 ^ 9" by (simp add: ns_def second_def nat_less_iff)
  have f: "fraction (fr @ ''Z'') = Some (ns, ''Z'')" using fraction_kept [OF n refl] by (simp add: fr_def Let_def)
  have dec: "map (\<lambda>k. digit_char (ns div 10 ^ (8 - k) mod 10)) [0..<9] = decimals 9 ns" by (simp add: decimals_def)
  have "format_rfc3339_nano t = butlast (format_rfc3339 t) @ fr @ ''Z''"
    by (simp only: format_rfc3339_nano_def Let_def ns_def [symmetric] dec drop_zeros_def [symmetric] fr_def)
  then have "format_rfc3339_nano t = four (nat y) @ ''-'' @ two (nat m) @ ''-'' @ two (nat d) @ ''T''
     @ two (k div 3600) @ '':'' @ two (k div 60 mod 60) @ '':'' @ two (k mod 60) @ fr @ ''Z''"
    using y by (simp add: format_rfc3339_def Let_def c S_def [symmetric] k_def [symmetric] format_year_def butlast_append)
  then have "parse_rfc3339 (format_rfc3339_nano t)
    = Some (mk_instant (nat y) (nat m) (nat d) (k div 3600) (k div 60 mod 60) (k mod 60) ns 0)"
    using y b v clock_split [OF k] f by (simp only:) (rule parse_stamp_fraction; simp)
  moreover have "mk_instant (nat y) (nat m) (nat d) (k div 3600) (k div 60 mod 60) (k mod 60) ns 0
    = (S div 86400 * 86400 + int k) * second + int ns"
    using y b dz clock_split(2) [OF k] by (simp add: mk_instant_def)
  moreover have "S div 86400 * 86400 + int k = S" by (simp add: k_def)
  moreover have "S * second + int ns = t" by (simp add: S_def ns_def second_def)
  ultimately show ?thesis by simp
qed

end
