(* ===== verification/OperationClaims.thy ===== *)
theory OperationClaims
  imports Operations NanoTime
begin

text \<open>
  What the work receipts promise: a receipt only moves forward, and only through its owner or the
  journal that covers it; what the writers publish the reader accepts; the terminal receipts kept
  are bounded; and what the health report shows of them.
\<close>

subsection \<open>What an operation can do to the files\<close>

lemma guarded_outcome: "guarded io fn d = (err, d') \<Longrightarrow> d' = d \<or> (\<exists>e. fn d = (e, d'))"
  by (auto simp: guarded_simp split: option.splits prod.splits)

lemma LoadRecord_file: "LoadRecord io name fs = Inr r \<Longrightarrow> map_of fs name = Some (Receipt r)"
  by (auto simp: LoadRecord_def split: option.splits receipt_file.splits)

lemma SaveRecord_files: "SaveRecord w name r fs = (e, fs') \<Longrightarrow> fs' = fs \<or> map_of fs' = (map_of fs)(name \<mapsto> Receipt r)"
  by (auto simp: SaveRecord_def update_conv' split: if_splits)

lemma Remove_files: "os_Remove_receipt io name fs = (e, fs') \<Longrightarrow> fs' = fs \<or> map_of fs' = (map_of fs)(name := None)"
  by (auto simp: os_Remove_receipt_def delete_conv' split: if_splits option.splits)

lemma mutate_outcome:
  assumes "mutateOperation io sd h fn ds = (err, ds')"
  obtains (same) "ds' = ds"
  | (wrote) r r' fs where "map_of (ds (ha_Kind h)) (receipt_name (ha_RunID h)) = Some (Receipt r)" "wk_RunID r = ha_RunID h"
      "wk_Kind r = ha_Kind h" "wk_OwnerPID r = ha_PID h" "fn r = Inr r'" "ds' = ds(ha_Kind h := fs)"
      "map_of fs = (map_of (ds (ha_Kind h)))(receipt_name (ha_RunID h) \<mapsto> Receipt r')"
proof -
  let ?body = "\<lambda>fs. case LoadRecord io (receipt_name (ha_RunID h)) fs of Inl e \<Rightarrow> (Some e, fs)
    | Inr r \<Rightarrow> if wk_RunID r \<noteq> ha_RunID h \<or> wk_Kind r \<noteq> ha_Kind h \<or> wk_OwnerPID r \<noteq> ha_PID h
        then (Some (OtherError ''operation ownership changed''), fs)
        else (case fn r of Inl e \<Rightarrow> (Some e, fs) | Inr r' \<Rightarrow> SaveRecord (wi_write io) (receipt_name (ha_RunID h)) r' fs)"
  obtain e fs where g: "guarded (wi_guard io) ?body (ds (ha_Kind h)) = (e, fs)" by force
  have "ds' = ds \<or> ds' = ds(ha_Kind h := fs)"
    using assms g by (auto simp: mutateOperation_def Let_def split: option.splits if_splits)
  moreover from guarded_outcome [OF g]
  have "fs = ds (ha_Kind h) \<or> (\<exists>r r'. map_of (ds (ha_Kind h)) (receipt_name (ha_RunID h)) = Some (Receipt r)
      \<and> wk_RunID r = ha_RunID h \<and> wk_Kind r = ha_Kind h \<and> wk_OwnerPID r = ha_PID h \<and> fn r = Inr r'
      \<and> map_of fs = (map_of (ds (ha_Kind h)))(receipt_name (ha_RunID h) \<mapsto> Receipt r'))"
    using LoadRecord_file SaveRecord_files by (fastforce split: sum.splits if_splits)
  ultimately show thesis using same wrote by (metis fun_upd_triv)
qed

subsection \<open>Pruning\<close>

definition reaped :: "(int \<Rightarrow> bool) \<Rightarrow> receipt_file option \<Rightarrow> receipt_file option \<Rightarrow> bool" where
  \<comment> \<open>as it was, or a running receipt of a dead owner that is gone\<close>
  "reaped live x y \<longleftrightarrow> y = x \<or> y = None \<and> (\<exists>r. x = Some (Receipt r) \<and> wk_State r = Running \<and> \<not> live (wk_OwnerPID r))"

lemma reaped_trans: "reaped live x y \<Longrightarrow> reaped live y z \<Longrightarrow> reaped live x z"
  by (auto simp: reaped_def)

lemma prune_dead_files:
  "prune_dead io kind now live names fs = (e, fs') \<Longrightarrow> reaped live (map_of fs x) (map_of fs' x)"
proof (induction io kind now live names fs arbitrary: e fs' rule: prune_dead.induct)
  case (2 io kind now live name names fs)
  show ?case
  proof (cases "dead_receipt io kind now live name fs")
    case False
    then show ?thesis using 2 by simp
  next
    case True
    obtain r where r: "map_of fs name = Some (Receipt r)" "wk_State r = Running" "\<not> live (wk_OwnerPID r)"
      using True LoadRecord_file by (fastforce simp: dead_receipt_def Let_def split: sum.splits if_splits option.splits)
    obtain e1 fs1 where rm: "os_Remove_receipt io name fs = (e1, fs1)" by force
    then have s: "reaped live (map_of fs x) (map_of fs1 x)"
      using Remove_files [OF rm] r by (cases "x = name") (auto simp: reaped_def)
    show ?thesis
    proof (cases "e1 \<noteq> None \<and> \<not> err_is e1 ErrNotExist")
      case True
      then have "fs' = fs1" using 2(3) rm \<open>dead_receipt io kind now live name fs\<close> by simp
      then show ?thesis using s by simp
    next
      case False
      then have "prune_dead io kind now live names fs1 = (e, fs')"
        using 2(3) rm \<open>dead_receipt io kind now live name fs\<close> by auto
      from reaped_trans [OF s 2(2) [OF _ rm [symmetric] False this]] True show ?thesis by simp
    qed
  qed
qed (simp add: reaped_def)

lemma pruneDead_files:
  "pruneDeadOwnerRecordsLocked io kind now live fs = (e, fs') \<Longrightarrow> reaped live (map_of fs x) (map_of fs' x)"
  using prune_dead_files by (fastforce simp: pruneDeadOwnerRecordsLocked_def reaped_def split: if_splits)

definition terminal :: "work \<Rightarrow> bool" where
  "terminal r \<longleftrightarrow> wk_State r = Failed \<or> wk_State r = Completed"

definition retired :: "receipt_file option \<Rightarrow> receipt_file option \<Rightarrow> bool" where
  "retired x y \<longleftrightarrow> y = x \<or> y = None \<and> (\<exists>r. x = Some (Receipt r) \<and> terminal r)"

lemma retired_same [simp]: "retired x x"
  by (simp add: retired_def)

lemma removals_files:
  "map_of (foldl (\<lambda>fs old. snd (os_Remove_receipt io (fst old) fs)) fs olds) x = map_of fs x
    \<or> x \<in> fst ` set olds \<and> map_of (foldl (\<lambda>fs old. snd (os_Remove_receipt io (fst old) fs)) fs olds) x = None"
proof (induction olds arbitrary: fs)
  case (Cons old olds)
  obtain e fs1 where rm: "os_Remove_receipt io (fst old) fs = (e, fs1)" by force
  then show ?case using Cons [of fs1] Remove_files [OF rm] by auto
qed simp

lemma PruneTerminal_files: "retired (map_of fs x) (map_of (PruneTerminal io fs) x)"
proof -
  define terms where "terms = sort_by later_first (concat (map (\<lambda>n. case terminal_receipt io fs n of Some f \<Rightarrow> [(n, f)] | None \<Rightarrow> [])
      (map fst (filter receipt_entry fs))))"
  have t: "\<exists>r. map_of fs n = Some (Receipt r) \<and> terminal r" if "n \<in> fst ` set terms" for n
    using that LoadRecord_file
    by (fastforce simp: terms_def terminal_receipt_def terminal_def split: option.splits sum.splits if_splits)
  have p: "PruneTerminal io fs = fs \<or> PruneTerminal io fs = foldl (\<lambda>fs old. snd (os_Remove_receipt io (fst old) fs)) fs (drop TerminalKeep terms)"
    by (simp add: PruneTerminal_def terms_def Let_def)
  have "x \<in> fst ` set (drop TerminalKeep terms) \<Longrightarrow> x \<in> fst ` set terms"
    using set_drop_subset by fastforce
  then show ?thesis using p removals_files [of io fs "drop TerminalKeep terms" x] t [of x]
    unfolding retired_def by metis
qed

subsection \<open>Steps\<close>

datatype work_op = ByBegin string | ByOwner handle | ByCoverage string

inductive work_step :: "(int \<Rightarrow> bool) \<Rightarrow> instant \<Rightarrow> work_op \<Rightarrow> ledgers \<Rightarrow> ledgers \<Rightarrow> bool" for live now where
  \<comment> \<open>\<open>os.Stat\<close> does not call a file absent that is there\<close>
  started: "Begin io sd kind phase suffix pid now live ds = (res, ds') \<Longrightarrow> length suffix = 4 \<Longrightarrow>
    \<not> err_is (wi_stat io) ErrNotExist \<Longrightarrow> work_step live now (ByBegin kind) ds ds'"
| beaten: "Op_Heartbeat io sd h phase c now ds = (err, ds') \<Longrightarrow> work_step live now (ByOwner h) ds ds'"
| finished: "Op_Finish io io2 sd h state phase c code now ds = (err, ds') \<Longrightarrow> work_step live now (ByOwner h) ds ds'"
| covered: "CompleteAfterCoverage io io2 runID now ds = (err, ds') \<Longrightarrow> work_step live now (ByCoverage runID) ds ds'"

inductive_cases work_stepE: "work_step live now l ds ds'"

definition by_right :: "string \<Rightarrow> work_op \<Rightarrow> work \<Rightarrow> bool" where
  \<comment> \<open>the handle that names the run, its kind and its owner, or the journal that names the ingest\<close>
  "by_right kind l r \<longleftrightarrow> (\<exists>h. l = ByOwner h \<and> ha_RunID h = wk_RunID r \<and> ha_Kind h = wk_Kind r \<and> ha_PID h = wk_OwnerPID r)
     \<or> l = ByCoverage (wk_RunID r) \<and> kind = KindIngest"

definition succeeds :: "instant \<Rightarrow> work \<Rightarrow> work \<Rightarrow> bool" where
  "succeeds now r r' \<longleftrightarrow> wk_SchemaVersion r' = wk_SchemaVersion r \<and> wk_Kind r' = wk_Kind r \<and> wk_RunID r' = wk_RunID r
     \<and> wk_OwnerPID r' = wk_OwnerPID r \<and> wk_StartedAt r' = wk_StartedAt r
     \<and> (wk_State r' = Running \<or> terminal r')
     \<and> wk_HeartbeatAt r' = format_rfc3339_nano now \<and> (\<exists>t. parse_rfc3339 (wk_HeartbeatAt r) = Some t \<and> t \<le> now)"

definition moves_forward :: "(int \<Rightarrow> bool) \<Rightarrow> instant \<Rightarrow> work_op \<Rightarrow> string \<Rightarrow> string \<Rightarrow> receipt_file option \<Rightarrow> receipt_file option \<Rightarrow> bool" where
  "moves_forward live now l kind name x y \<longleftrightarrow> y = x
     \<or> l = ByBegin kind \<and> reaped live x None
       \<and> (y = None \<or> (\<exists>r. y = Some (Receipt r) \<and> wk_State r = Running \<and> wk_Kind r = kind \<and> name = receipt_name (wk_RunID r)))
     \<or> (\<exists>r. x = Some (Receipt r) \<and> wk_State r = Running \<and> by_right kind l r
          \<and> (y = None \<or> (\<exists>r'. y = Some (Receipt r') \<and> succeeds now r r')))
     \<or> (\<exists>r. x = Some (Receipt r) \<and> terminal r \<and> y = None)"

lemma forward_same [simp]: "moves_forward live now l kind name x x"
  by (simp add: moves_forward_def)

lemma forward_retired:
  assumes "moves_forward live now l kind name x y" "retired y z" "l \<noteq> ByBegin kind"
  shows "moves_forward live now l kind name x z"
  using assms unfolding moves_forward_def retired_def by (auto simp: terminal_def)

lemma beat_succeeds:
  assumes "beat now change r = Inr r'"
    "\<And>r. wk_SchemaVersion (change r) = wk_SchemaVersion r \<and> wk_Kind (change r) = wk_Kind r \<and> wk_RunID (change r) = wk_RunID r
      \<and> wk_OwnerPID (change r) = wk_OwnerPID r \<and> wk_StartedAt (change r) = wk_StartedAt r
      \<and> wk_HeartbeatAt (change r) = format_rfc3339_nano now \<and> (wk_State (change r) = wk_State r \<or> terminal (change r))"
  shows "wk_State r = Running \<and> succeeds now r r'"
proof -
  obtain t where t: "wk_State r = Running" "parse_rfc3339 (wk_HeartbeatAt r) = Some t" "t \<le> now" "r' = change r"
    using assms(1) by (auto simp: beat_def split: if_splits option.splits)
  then show ?thesis using assms(2) [of r] by (auto simp: succeeds_def)
qed

lemma mutate_forward:
  assumes "mutateOperation io sd h (beat now change) ds = (err, ds')"
    "\<And>r. wk_SchemaVersion (change r) = wk_SchemaVersion r \<and> wk_Kind (change r) = wk_Kind r \<and> wk_RunID (change r) = wk_RunID r
      \<and> wk_OwnerPID (change r) = wk_OwnerPID r \<and> wk_StartedAt (change r) = wk_StartedAt r
      \<and> wk_HeartbeatAt (change r) = format_rfc3339_nano now \<and> (wk_State (change r) = wk_State r \<or> terminal (change r))"
  shows "moves_forward live now (ByOwner h) kind name (map_of (ds kind) name) (map_of (ds' kind) name)"
  using assms(1)
proof (cases rule: mutate_outcome)
  case (wrote r r' fs)
  have s: "wk_State r = Running" "succeeds now r r'" using beat_succeeds [OF wrote(5) assms(2)] by auto
  show ?thesis
  proof (cases "kind = ha_Kind h \<and> name = receipt_name (ha_RunID h)")
    case True
    then have "map_of (ds kind) name = Some (Receipt r)" "map_of (ds' kind) name = Some (Receipt r')"
      using wrote by simp_all
    then show ?thesis using s wrote(2-4) unfolding moves_forward_def by_right_def by auto
  next
    case False
    then show ?thesis using wrote by auto
  qed
qed simp

lemma Begin_forward:
  assumes "Begin io sd k phase suffix pid now live ds = (res, ds')" "\<not> err_is (wi_stat io) ErrNotExist"
  shows "moves_forward live now (ByBegin k) kind name (map_of (ds kind) name) (map_of (ds' kind) name)"
proof -
  let ?run = "newOperationRunID suffix now" let ?name = "receipt_name ?run"
  let ?new = "new_work k ?run pid (TrimSpace phase) now"
  let ?save = "SaveRecord (wi_write io) ?name ?new"
  let ?body = "\<lambda>fs. case pruneDeadOwnerRecordsLocked io k now live fs of (Some e, fs) \<Rightarrow> (Some e, fs)
    | (None, fs) \<Rightarrow> (case wi_stat io of
         Some e \<Rightarrow> if errors_is e ErrNotExist then ?save fs else (Some e, fs)
       | None \<Rightarrow> if map_of fs ?name \<noteq> None then (Some (OtherError ''operation run id collision''), fs) else ?save fs)"
  obtain e fs where g: "guarded (wi_guard io) ?body (ds k) = (e, fs)" by force
  have ds': "ds' = ds \<or> ds' = ds(k := fs)"
    using assms(1) g by (auto simp: Begin_def Let_def split: option.splits if_splits)
  obtain e1 fs1 where pr: "pruneDeadOwnerRecordsLocked io k now live (ds k) = (e1, fs1)" by force
  have "fs = ds k \<or> fs = fs1 \<or> map_of fs1 ?name = None \<and> (\<exists>e2. ?save fs1 = (e2, fs))"
    using guarded_outcome [OF g] pr assms(2) by (auto split: option.splits if_splits)
  then have "fs = ds k \<or> map_of fs = map_of fs1 \<or> map_of fs1 ?name = None \<and> map_of fs = (map_of fs1)(?name \<mapsto> Receipt ?new)"
    using SaveRecord_files by blast
  moreover have r: "reaped live (map_of (ds k) name) (map_of fs1 name)" using pruneDead_files [OF pr] .
  moreover have "wk_State ?new = Running" "wk_Kind ?new = k" "?name = receipt_name (wk_RunID ?new)" by (simp_all add: new_work_def Let_def)
  ultimately have "moves_forward live now (ByBegin k) k name (map_of (ds k) name) (map_of fs name)"
    unfolding moves_forward_def by (cases "name = ?name") (auto simp: reaped_def)
  then show ?thesis using ds' by (cases "kind = k") auto
qed

lemma Heartbeat_forward:
  assumes "Op_Heartbeat io sd h phase c now ds = (err, ds')"
  shows "moves_forward live now (ByOwner h) kind name (map_of (ds kind) name) (map_of (ds' kind) name)"
proof -
  have "ds' = ds \<or> mutateOperation io sd h (beat now (\<lambda>r. r\<lparr>wk_HeartbeatAt := format_rfc3339_nano now, wk_Phase := TrimSpace phase,
      wk_Counts := c\<rparr>)) ds = (err, ds')"
    using assms by (auto simp: Op_Heartbeat_def Let_def split: if_splits)
  then show ?thesis using mutate_forward [where live = live] by auto
qed

lemma Finish_forward:
  assumes "Op_Finish io io2 sd h state phase c code now ds = (err, ds')"
  shows "moves_forward live now (ByOwner h) kind name (map_of (ds kind) name) (map_of (ds' kind) name)"
proof (cases "ds' = ds")
  case False
  then have st: "state = Failed \<or> state = Completed" using assms by (auto simp: Op_Finish_def split: if_splits)
  obtain code' ds1 err1 where m: "mutateOperation io sd h (beat now (\<lambda>r. r\<lparr>wk_State := state,
      wk_HeartbeatAt := format_rfc3339_nano now, wk_FinishedAt := format_rfc3339_nano now, wk_Phase := TrimSpace phase,
      wk_Counts := c, wk_FailureCode := code'\<rparr>)) ds = (err1, ds1)"
    "ds' = ds1 \<or> ds' = ds1(ha_Kind h := PruneTerminal io2 (ds1 (ha_Kind h)))"
    using assms False by (auto simp: Op_Finish_def Let_def split: if_splits prod.splits)
  have "moves_forward live now (ByOwner h) kind name (map_of (ds kind) name) (map_of (ds1 kind) name)"
    using st by (intro mutate_forward [OF m(1)]) (auto simp: terminal_def)
  moreover have "retired (map_of (ds1 kind) name) (map_of (ds' kind) name)"
    using m(2) PruneTerminal_files by (cases "kind = ha_Kind h") auto
  ultimately show ?thesis using forward_retired by blast
qed simp

lemma cover_succeeds: "cover runID now r = Inr (Some r') \<Longrightarrow>
    wk_Kind r = KindIngest \<and> wk_RunID r = runID \<and> wk_State r = Running \<and> succeeds now r r'"
  by (auto simp: cover_def Let_def succeeds_def terminal_def split: if_splits option.splits)

lemma Covered_forward:
  assumes "CompleteAfterCoverage io io2 runID now ds = (err, ds')"
  shows "moves_forward live now (ByCoverage runID) kind name (map_of (ds kind) name) (map_of (ds' kind) name)"
proof (cases "validOperationToken runID")
  case True
  let ?name = "receipt_name runID"
  let ?body = "\<lambda>fs. case LoadRecord io ?name fs of
      Inl e \<Rightarrow> if errors_is e ErrNotExist then (None, fs) else (Some e, fs)
    | Inr r \<Rightarrow> (case cover runID now r of Inl e \<Rightarrow> (Some e, fs) | Inr None \<Rightarrow> (None, fs)
        | Inr (Some r') \<Rightarrow> SaveRecord (wi_write io) ?name r' fs)"
  obtain e fs where g: "guarded (wi_guard io) ?body (ds KindIngest) = (e, fs)" by force
  then have ds': "ds' = ds(KindIngest := if e = None then PruneTerminal io2 fs else fs)"
    using assms True by (auto simp: CompleteAfterCoverage_def Let_def)
  have "fs = ds KindIngest \<or> (\<exists>r r'. map_of (ds KindIngest) ?name = Some (Receipt r) \<and> cover runID now r = Inr (Some r')
      \<and> map_of fs = (map_of (ds KindIngest))(?name \<mapsto> Receipt r'))"
    using guarded_outcome [OF g] LoadRecord_file SaveRecord_files
    by (fastforce split: sum.splits option.splits if_splits)
  then have f: "moves_forward live now (ByCoverage runID) KindIngest name (map_of (ds KindIngest) name) (map_of fs name)"
    using cover_succeeds unfolding moves_forward_def by_right_def by (cases "name = ?name") fastforce+
  have "retired (map_of fs name) (map_of (ds' KindIngest) name)"
    using ds' PruneTerminal_files by auto
  from forward_retired [OF f this] show ?thesis using ds' by (cases "kind = KindIngest") auto
qed (use assms in \<open>simp add: CompleteAfterCoverage_def\<close>)

text \<open>C35: A work receipt only moves forward, and only by right. Whatever the files answer, a step of any
  process leaves each file as it was, or adds the receipt of a new run, or replaces a running receipt
  by a later state of the same run (same kind, owner and start, a heartbeat that does not go back, and
  running or terminal), or takes one away; a running receipt changes only through the handle that
  names its run, kind and owner or through the journal that covers the ingest, a terminal receipt
  never changes, only terminal receipts and running receipts of dead owners (at the start of a run of
  their kind) are removed, or a run that finishes in the same step, and files that hold no receipt
  are never touched.\<close>

theorem receipts_only_move_forward:
  assumes "work_step live now l ds ds'"
  shows "moves_forward live now l kind name (map_of (ds kind) name) (map_of (ds' kind) name)"
  using assms
proof cases
  case started
  then show ?thesis using Begin_forward by blast
next
  case beaten
  then show ?thesis using Heartbeat_forward by blast
next
  case finished
  then show ?thesis using Finish_forward by blast
next
  case covered
  then show ?thesis using Covered_forward by blast
qed

definition first_begin :: ledgers where
  \<comment> \<open>an ingest begun on an empty state\<close>
  "first_begin = snd (Begin work_io_ok ''/state'' KindIngest ''scan'' [1, 2, 3, 4] 7 0 (\<lambda>_. True) (\<lambda>_. []))"

abbreviation first_run :: string where "first_run \<equiv> newOperationRunID [1, 2, 3, 4] 0"

lemma valid_phase_scan: "TrimSpace ''scan'' = ''scan''" "validOperationToken ''scan''"
proof -
  show "TrimSpace ''scan'' = ''scan''" by (rule TrimSpace_plain) (simp add: byte_def)
  have "ascii ''scan''" by (simp add: ascii_def byte_def)
  then show "validOperationToken ''scan''" by (simp add: validOperationToken_def runes_ascii token_rune_def byte_def)
qed

lemma first_begin_step: "work_step (\<lambda>_. True) 0 (ByBegin KindIngest) (\<lambda>_. []) first_begin"
proof -
  have "Begin work_io_ok ''/state'' KindIngest ''scan'' [1, 2, 3, 4] 7 0 (\<lambda>_. True) (\<lambda>_. [])
      = (fst (Begin work_io_ok ''/state'' KindIngest ''scan'' [1, 2, 3, 4] 7 0 (\<lambda>_. True) (\<lambda>_. [])), first_begin)"
    by (simp add: first_begin_def)
  then show ?thesis by (rule started) (simp_all add: work_io_ok_def err_is_def)
qed

lemma first_begin_receipt:
  "map_of (first_begin KindIngest) (receipt_name first_run) = Some (Receipt (new_work KindIngest first_run 7 ''scan'' 0))"
  by (simp add: first_begin_def Begin_def valid_phase_scan operationStateRootErr_def operationKindValid_def Let_def
      guarded_simp work_io_ok_def guard_io_ok_def pruneDeadOwnerRecordsLocked_def err_is_def SaveRecord_def join_error_def
      has_prefix_def)

theorem receipts_only_move_forward_witness:
  "moves_forward (\<lambda>_. True) 0 (ByBegin KindIngest) KindIngest (receipt_name first_run) None
     (Some (Receipt (new_work KindIngest first_run 7 ''scan'' 0)))"
  using receipts_only_move_forward [OF first_begin_step, of KindIngest "receipt_name first_run"]
  unfolding first_begin_receipt by simp

end
