(* ===== verification/OperationReadable.thy ===== *)
theory OperationReadable
  imports OperationClaims
begin

text \<open>
  What the writers publish the reader accepts: in every run of the operations under one clock, every
  receipt is stored under its own name and passes each check of \<open>classifyOperationRecord\<close>.
\<close>

subsection \<open>Tokens\<close>

lemma trim_receipt_name [simp]: "trim_suffix (receipt_name i) ''.json'' = i"
  by (simp add: trim_suffix_def receipt_name_def)

lemma token_valid:
  assumes "list_all (\<lambda>c. token_rune (byte c)) s" "s \<noteq> []" "length s \<le> 128"
  shows "validOperationToken s"
proof -
  have "byte c < 128" if "token_rune (byte c)" for c using that by (auto simp: token_rune_def)
  then have "ascii s" using assms(1) by (auto simp: ascii_def list_all_iff)
  then show ?thesis using assms by (simp add: validOperationToken_def runes_ascii list_all_iff)
qed

lemma token_digit: "n < 10 \<Longrightarrow> token_rune (byte (digit_char n))"
  by (simp add: token_rune_def digit_char_def byte_def)

lemma token_two: "n < 100 \<Longrightarrow> list_all (\<lambda>c. token_rune (byte c)) (two n)"
  by (simp add: two_def token_digit)

lemma token_four: "n < 10000 \<Longrightarrow> list_all (\<lambda>c. token_rune (byte c)) (four n)"
  by (simp add: four_def token_digit)

lemma token_hex: "list_all (\<lambda>c. token_rune (byte c)) (hex_string bs)"
proof -
  have "token_rune (byte (hex_digit n))" if "n < 16" for n
    using that by (simp add: hex_digit_def token_rune_def byte_def)
  then show ?thesis by (simp add: hex_string_def list_all_iff)
qed

lemma length_two_digits [simp]: "length (two n) = 2"
  by (simp add: two_def)

lemma run_id_valid:
  assumes "in_years now" "length suffix = 4"
  shows "validOperationToken (newOperationRunID suffix now)"
proof (rule token_valid)
  obtain y m d where c: "civil_of_days (now div second div 86400) = (y, m, d)" by (metis prod_cases3)
  then have v: "valid_date y m d" using civil_of_days_correct [OF c] by simp
  have "0 \<le> y" "y < 10000" using assms(1) c by (simp_all add: in_years_def)
  then have y: "0 \<le> y" "nat y < 10000" by simp_all
  have md: "nat m < 100" "nat d < 100" using v by (auto simp: valid_date_def days_in_def month_len_def split: if_splits)
  have h: "nat (now div second mod 86400) div 3600 < 100"
    using pos_mod_bound [of 86400 "now div second"] by (simp add: div_less_iff_less_mult nat_less_iff)
  have f: "format_compact now = four (nat y) @ two (nat m) @ two (nat d) @ ''_'' @ two (nat (now div second mod 86400) div 3600)
      @ two (nat (now div second mod 86400) div 60 mod 60) @ two (nat (now div second mod 86400) mod 60)"
    using y(1) by (simp add: format_compact_def Let_def c format_year_def)
  show "list_all (\<lambda>c. token_rune (byte c)) (newOperationRunID suffix now)"
    using token_four [OF y(2)] token_two [OF md(1)] token_two [OF md(2)] token_two [OF h] token_hex [of suffix]
    by (simp add: newOperationRunID_def f token_two) (simp add: token_rune_def byte_def)
  have "length (hex_string suffix) = 8" using assms(2) by (simp add: hex_string_def length_concat comp_def sum_list_triv)
  then show "length (newOperationRunID suffix now) \<le> 128"
    using y(2) by (simp add: newOperationRunID_def f four_def)
qed (simp add: newOperationRunID_def)

subsection \<open>Sound records\<close>

definition sound_work :: "instant \<Rightarrow> string \<Rightarrow> work \<Rightarrow> bool" where
  "sound_work t kind r \<longleftrightarrow> record_fault r kind (wk_RunID r) t = None"

lemma if_None: "(if b then Some x else y) = None \<longleftrightarrow> \<not> b \<and> y = None"
  by simp

lemma sound_iff:
  "sound_work t kind r \<longleftrightarrow> wk_SchemaVersion r = OperationSchemaVersion \<and> wk_Kind r = kind \<and> operationKindValid kind
     \<and> validOperationToken (wk_RunID r)
     \<and> (\<exists>started heartbeat. parse_rfc3339 (wk_StartedAt r) = Some started \<and> parse_rfc3339 (wk_HeartbeatAt r) = Some heartbeat
        \<and> started \<le> heartbeat \<and> heartbeat \<le> t + minute
        \<and> (wk_State r = Running \<and> wk_FinishedAt r = [] \<and> wk_FailureCode r = []
           \<or> terminal r \<and> wk_FinishedAt r \<noteq> [] \<and> (wk_State r = Failed \<longleftrightarrow> wk_FailureCode r \<noteq> [])
             \<and> (\<exists>f. parse_rfc3339 (wk_FinishedAt r) = Some f \<and> started \<le> f \<and> heartbeat \<le> f \<and> f \<le> t + minute)))
     \<and> validOperationToken (wk_Phase r)
     \<and> 0 \<le> co_Items (wk_Counts r) \<and> 0 \<le> co_Files (wk_Counts r) \<and> 0 \<le> co_Errors (wk_Counts r)
     \<and> (wk_FailureCode r \<noteq> [] \<longrightarrow> validOperationToken (wk_FailureCode r))"
proof (cases "parse_rfc3339 (wk_StartedAt r)")
  case None
  then show ?thesis by (auto simp: sound_work_def record_fault_def)
next
  case s: (Some started)
  show ?thesis
  proof (cases "parse_rfc3339 (wk_HeartbeatAt r)")
    case None
    then show ?thesis by (auto simp: sound_work_def record_fault_def s)
  next
    case h: (Some heartbeat)
    consider "wk_State r = Running" | "wk_State r = Failed" | "wk_State r = Completed"
      | "wk_State r \<noteq> Running" "wk_State r \<noteq> Failed" "wk_State r \<noteq> Completed" by blast
    then show ?thesis
    proof cases
      case 4
      then show ?thesis by (simp add: sound_work_def record_fault_def s h terminal_def if_None)
    qed (cases "parse_rfc3339 (wk_FinishedAt r)"; auto simp: sound_work_def record_fault_def s h terminal_def if_None)+
  qed
qed

lemma sound_later: "sound_work t kind r \<Longrightarrow> t \<le> t' \<Longrightarrow> sound_work t' kind r"
  unfolding sound_iff by force

lemma format_nano_nonempty [simp]: "format_rfc3339_nano t \<noteq> []"
  by (simp add: format_rfc3339_nano_def Let_def)

lemma minute_pos [simp]: "0 \<le> minute"
  by (simp add: minute_def second_def)

lemma sound_new:
  assumes "operationKindValid kind" "validOperationToken phase" "validOperationToken runID" "in_years now"
  shows "sound_work now kind (new_work kind runID pid phase now)"
  using assms by (simp add: sound_iff new_work_def Let_def parse_format_nano no_counts_def)

lemma beat_running:
  assumes "sound_work now kind r" "beat now change r = Inr r'"
  obtains s p where "wk_State r = Running" "wk_FinishedAt r = []" "wk_FailureCode r = []" "parse_rfc3339 (wk_StartedAt r) = Some s"
    "s \<le> now" "r' = change r"
  using assms by (auto simp: beat_def sound_iff terminal_def split: if_splits option.splits)

lemma sound_beat:
  assumes "sound_work now kind r" "beat now (\<lambda>r. r\<lparr>wk_HeartbeatAt := format_rfc3339_nano now, wk_Phase := phase, wk_Counts := c\<rparr>) r = Inr r'"
    "in_years now" "validOperationToken phase" "validCounts c"
  shows "sound_work now kind r' \<and> wk_RunID r' = wk_RunID r"
  using assms(1,2)
proof (rule beat_running)
  fix s assume r: "wk_State r = Running" "wk_FinishedAt r = []" "wk_FailureCode r = []" "parse_rfc3339 (wk_StartedAt r) = Some s"
    "s \<le> now" "r' = r\<lparr>wk_HeartbeatAt := format_rfc3339_nano now, wk_Phase := phase, wk_Counts := c\<rparr>"
  then show ?thesis using assms(1,3-5) unfolding sound_iff by (simp add: parse_format_nano validCounts_def)
qed

lemma sound_finish:
  assumes "sound_work now kind r" "beat now (\<lambda>r. r\<lparr>wk_State := state, wk_HeartbeatAt := format_rfc3339_nano now,
      wk_FinishedAt := format_rfc3339_nano now, wk_Phase := phase, wk_Counts := c, wk_FailureCode := code\<rparr>) r = Inr r'"
    "in_years now" "validOperationToken phase" "validCounts c"
    "state = Failed \<and> code \<noteq> [] \<and> validOperationToken code \<or> state = Completed \<and> code = []"
  shows "sound_work now kind r' \<and> wk_RunID r' = wk_RunID r"
  using assms(1,2)
proof (rule beat_running)
  fix s assume r: "parse_rfc3339 (wk_StartedAt r) = Some s" "s \<le> now"
    "r' = r\<lparr>wk_State := state, wk_HeartbeatAt := format_rfc3339_nano now,
      wk_FinishedAt := format_rfc3339_nano now, wk_Phase := phase, wk_Counts := c, wk_FailureCode := code\<rparr>"
  then show ?thesis using assms(1,3-6) unfolding sound_iff by (auto simp: parse_format_nano validCounts_def terminal_def)
qed

lemma sound_cover:
  assumes "sound_work now kind r" "cover runID now r = Inr (Some r')" "in_years now"
  shows "sound_work now kind r' \<and> wk_RunID r' = wk_RunID r"
proof -
  have j: "validOperationToken ''journal_retired''" by (rule token_valid) (simp_all add: token_rune_def byte_def)
  obtain t where t: "wk_State r = Running" "parse_rfc3339 (wk_HeartbeatAt r) = Some t" "t \<le> now"
    "r' = r\<lparr>wk_State := Completed, wk_HeartbeatAt := format_rfc3339_nano now, wk_FinishedAt := format_rfc3339_nano now,
      wk_Phase := ''journal_retired'', wk_FailureCode := []\<rparr>"
    using assms(2) by (auto simp: cover_def Let_def split: if_splits option.splits)
  then show ?thesis using assms(1,3) j unfolding sound_iff by (auto simp: parse_format_nano terminal_def)
qed

subsection \<open>Sound directories\<close>

definition sound_receipts :: "instant \<Rightarrow> string \<Rightarrow> receipts \<Rightarrow> bool" where
  "sound_receipts t kind fs \<longleftrightarrow> (\<forall>name r. map_of fs name = Some (Receipt r) \<longrightarrow>
     name = receipt_name (wk_RunID r) \<and> sound_work t kind r)"

lemma sound_files_write:
  assumes "sound_receipts t kind fs" "sound_work t kind r" "map_of fs' = (map_of fs)(receipt_name (wk_RunID r) \<mapsto> Receipt r)"
  shows "sound_receipts t kind fs'"
  using assms unfolding sound_receipts_def by (auto split: if_splits)

lemma sound_files_fewer:
  assumes "sound_receipts t kind fs" "\<And>x. map_of fs' x = map_of fs x \<or> map_of fs' x = None"
  shows "sound_receipts t kind fs'"
  using assms unfolding sound_receipts_def by (metis option.distinct(1))

lemma sound_files_prune: "sound_receipts t kind fs \<Longrightarrow> sound_receipts t kind (PruneTerminal io fs)"
proof (erule sound_files_fewer)
  show "map_of (PruneTerminal io fs) x = map_of fs x \<or> map_of (PruneTerminal io fs) x = None" for x
    using PruneTerminal_files [of fs x io] by (auto simp: retired_def)
qed

definition sound_ledgers :: "instant \<Rightarrow> ledgers \<Rightarrow> bool" where
  "sound_ledgers t ds \<longleftrightarrow> (\<forall>kind. sound_receipts t kind (ds kind))"

lemma sound_ledgers_update: "sound_ledgers t ds \<Longrightarrow> sound_receipts t k fs \<Longrightarrow> sound_ledgers t (ds(k := fs))"
  by (simp add: sound_ledgers_def)

lemma sound_mutate:
  assumes "mutateOperation io sd h fn ds = (err, ds')" "sound_ledgers t ds"
    "\<And>r r'. sound_work t (ha_Kind h) r \<Longrightarrow> fn r = Inr r' \<Longrightarrow> sound_work t (ha_Kind h) r' \<and> wk_RunID r' = wk_RunID r"
  shows "sound_ledgers t ds'"
  using assms(1)
proof (cases rule: mutate_outcome)
  case (wrote r r' fs)
  have f: "sound_receipts t (ha_Kind h) (ds (ha_Kind h))" using assms(2) by (simp add: sound_ledgers_def)
  then have "sound_work t (ha_Kind h) r" using wrote(1) by (auto simp: sound_receipts_def)
  from assms(3) [OF this wrote(5)] have "sound_work t (ha_Kind h) r'" "wk_RunID r' = ha_RunID h" using wrote(2) by simp_all
  then show ?thesis using sound_files_write [OF f] wrote(6,7) sound_ledgers_update [OF assms(2)] by auto
qed (use assms(2) in simp)

lemma sound_Heartbeat:
  assumes "Op_Heartbeat io sd h phase c now ds = (err, ds')" "sound_ledgers now ds" "in_years now"
  shows "sound_ledgers now ds'"
proof (cases "ds' = ds")
  case False
  then have m: "validOperationToken (TrimSpace phase)" "validCounts c"
    using assms(1) by (auto simp: Op_Heartbeat_def Let_def split: if_splits)
  then have g: "(\<not> validOperationToken (TrimSpace phase)) = False" "(\<not> validCounts c) = False" by simp_all
  note mut = assms(1) [unfolded Op_Heartbeat_def Let_def g if_False]
  show ?thesis by (rule sound_mutate [OF mut assms(2)]) (rule sound_beat [OF _ _ assms(3) m])
qed (use assms(2) in simp)

lemma failed_code: "validOperationToken ''operation_failed''"
  by (rule token_valid) (simp_all add: token_rune_def byte_def)

lemma sound_Finish:
  assumes "Op_Finish io io2 sd h state phase c code now ds = (err, ds')" "sound_ledgers now ds" "in_years now"
  shows "sound_ledgers now ds'"
proof (cases "ds' = ds")
  case False
  then have p: "validOperationToken (TrimSpace phase)" "validCounts c" "state = Failed \<or> state = Completed"
    "state = Completed \<longrightarrow> code = []"
    using assms(1) by (auto simp: Op_Finish_def Let_def split: if_splits)
  define code1 where "code1 = (if state = Failed \<and> code = [] then ''operation_failed'' else code)"
  define code2 where "code2 = (if code1 \<noteq> [] \<and> \<not> validOperationToken code1 then ''operation_failed'' else code1)"
  have c: "state = Failed \<and> code2 \<noteq> [] \<and> validOperationToken code2 \<or> state = Completed \<and> code2 = []"
    using p(3,4) failed_code by (auto simp: code1_def code2_def)
  let ?mut = "mutateOperation io sd h (beat now (\<lambda>r. r\<lparr>wk_State := state,
      wk_HeartbeatAt := format_rfc3339_nano now, wk_FinishedAt := format_rfc3339_nano now, wk_Phase := TrimSpace phase,
      wk_Counts := c, wk_FailureCode := code2\<rparr>)) ds"
  have g: "(state \<noteq> Failed \<and> state \<noteq> Completed) = False" "(\<not> validOperationToken (TrimSpace phase)) = False"
    "(\<not> validCounts c) = False" "(state = Completed \<and> code \<noteq> []) = False"
    using p by auto
  have "(case ?mut of (err, ds) \<Rightarrow> (err, if err = None then ds(ha_Kind h := PruneTerminal io2 (ds (ha_Kind h))) else ds)) = (err, ds')"
    using assms(1) unfolding Op_Finish_def Let_def g if_False code1_def [symmetric] code2_def [symmetric] .
  then obtain ds1 err1 where m: "?mut = (err1, ds1)" "ds' = ds1 \<or> ds' = ds1(ha_Kind h := PruneTerminal io2 (ds1 (ha_Kind h)))"
    by (cases ?mut) (auto split: if_splits)
  have s: "sound_ledgers now ds1"
    by (rule sound_mutate [OF m(1) assms(2)]) (rule sound_finish [OF _ _ assms(3) p(1,2) c])
  then have "sound_receipts now (ha_Kind h) (ds1 (ha_Kind h))" by (simp add: sound_ledgers_def)
  then show ?thesis using m(2) s sound_ledgers_update sound_files_prune by metis
qed (use assms(2) in simp)

lemma sound_files_reaped:
  assumes "sound_receipts t kind fs" "\<And>x. reaped live (map_of fs x) (map_of fs' x)"
  shows "sound_receipts t kind fs'"
proof (rule sound_files_fewer [OF assms(1)])
  show "map_of fs' x = map_of fs x \<or> map_of fs' x = None" for x
    using assms(2) [of x] by (auto simp: reaped_def)
qed

lemma sound_Begin:
  assumes "Begin io sd k phase suffix pid now live ds = (res, ds')" "length suffix = 4" "sound_ledgers now ds" "in_years now"
  shows "sound_ledgers now ds'"
proof (cases "ds' = ds")
  case False
  then have p: "operationKindValid k" "validOperationToken (TrimSpace phase)" "operationStateRootErr sd = None"
    using assms(1) by (auto simp: Begin_def Let_def split: if_splits option.splits)
  let ?run = "newOperationRunID suffix now" let ?name = "receipt_name ?run"
  let ?new = "new_work k ?run pid (TrimSpace phase) now"
  let ?save = "SaveRecord (wi_write io) ?name ?new"
  let ?body = "\<lambda>fs. case pruneDeadOwnerRecordsLocked io k now live fs of (Some e, fs) \<Rightarrow> (Some e, fs)
    | (None, fs) \<Rightarrow> (case wi_stat io of
         Some e \<Rightarrow> if errors_is e ErrNotExist then ?save fs else (Some e, fs)
       | None \<Rightarrow> if map_of fs ?name \<noteq> None then (Some (OtherError ''operation run id collision''), fs) else ?save fs)"
  obtain e fs where g: "guarded (wi_guard io) ?body (ds k) = (e, fs)" by force
  have ds': "ds' = ds(k := fs)" using assms(1) g p by (simp add: Begin_def Let_def)
  obtain e1 fs1 where pr: "pruneDeadOwnerRecordsLocked io k now live (ds k) = (e1, fs1)" by force
  have k: "sound_receipts now k (ds k)" using assms(3) by (simp add: sound_ledgers_def)
  then have f1: "sound_receipts now k fs1" using sound_files_reaped pruneDead_files [OF pr] by blast
  have new: "sound_work now k ?new" "wk_RunID ?new = ?run"
    using sound_new p run_id_valid assms(2,4) by (simp_all add: new_work_def Let_def)
  have "fs = ds k \<or> fs = fs1 \<or> (\<exists>e2. ?save fs1 = (e2, fs))"
    using guarded_outcome [OF g] pr by (auto split: option.splits if_splits)
  then have "fs = ds k \<or> fs = fs1 \<or> map_of fs = (map_of fs1)(receipt_name (wk_RunID ?new) \<mapsto> Receipt ?new)"
    using SaveRecord_files new(2) by metis
  then have "sound_receipts now k fs" using k f1 sound_files_write [OF f1 new(1)] by blast
  then show ?thesis unfolding ds' by (rule sound_ledgers_update [OF assms(3)])
qed (use assms(3) in simp)

lemma sound_Covered:
  assumes "CompleteAfterCoverage io io2 runID now ds = (err, ds')" "sound_ledgers now ds" "in_years now"
  shows "sound_ledgers now ds'"
proof (cases "validOperationToken runID")
  case True
  let ?name = "receipt_name runID"
  let ?body = "\<lambda>fs. case LoadRecord io ?name fs of
      Inl e \<Rightarrow> if errors_is e ErrNotExist then (None, fs) else (Some e, fs)
    | Inr r \<Rightarrow> (case cover runID now r of Inl e \<Rightarrow> (Some e, fs) | Inr None \<Rightarrow> (None, fs)
        | Inr (Some r') \<Rightarrow> SaveRecord (wi_write io) ?name r' fs)"
  obtain e fs where g: "guarded (wi_guard io) ?body (ds KindIngest) = (e, fs)" by force
  then have ds': "ds' = ds(KindIngest := if e = None then PruneTerminal io2 fs else fs)"
    using assms(1) True by (auto simp: CompleteAfterCoverage_def Let_def)
  have k: "sound_receipts now KindIngest (ds KindIngest)" using assms(2) by (simp add: sound_ledgers_def)
  have "fs = ds KindIngest \<or> (\<exists>r r'. map_of (ds KindIngest) ?name = Some (Receipt r) \<and> cover runID now r = Inr (Some r')
      \<and> map_of fs = (map_of (ds KindIngest))(?name \<mapsto> Receipt r'))"
    using guarded_outcome [OF g] LoadRecord_file SaveRecord_files
    by (fastforce split: sum.splits option.splits if_splits)
  then have "sound_receipts now KindIngest fs"
  proof (elim disjE exE conjE)
    fix r r' assume r: "map_of (ds KindIngest) ?name = Some (Receipt r)" "cover runID now r = Inr (Some r')"
      "map_of fs = (map_of (ds KindIngest))(?name \<mapsto> Receipt r')"
    from k r(1) have "sound_work now KindIngest r" by (auto simp: sound_receipts_def)
    from sound_cover [OF this r(2) assms(3)] cover_succeeds [OF r(2)]
    have "sound_work now KindIngest r'" "wk_RunID r' = runID" by simp_all
    then show ?thesis using sound_files_write [OF k] r(3) by auto
  qed (use k in simp)
  then show ?thesis unfolding ds' by (intro sound_ledgers_update [OF assms(2)]) (simp add: sound_files_prune)
qed (use assms(1,2) in \<open>simp add: CompleteAfterCoverage_def\<close>)

subsection \<open>Runs\<close>

inductive work_run :: "instant \<Rightarrow> ledgers \<Rightarrow> bool" where
  \<comment> \<open>the operations of any processes, one after another, under one clock\<close>
  empty: "in_years t \<Longrightarrow> work_run t (\<lambda>_. [])"
| operate: "work_run t ds \<Longrightarrow> work_step live t l ds ds' \<Longrightarrow> work_run t ds'"
| elapse: "work_run t ds \<Longrightarrow> t \<le> t' \<Longrightarrow> in_years t' \<Longrightarrow> work_run t' ds"

lemma work_run_sound: "work_run t ds \<Longrightarrow> in_years t \<and> sound_ledgers t ds"
proof (induction rule: work_run.induct)
  case (operate t ds live l ds')
  then show ?case
    using sound_Begin sound_Heartbeat sound_Finish sound_Covered by (auto elim!: work_stepE)
next
  case (elapse t ds t')
  then show ?case using sound_later by (fastforce simp: sound_ledgers_def sound_receipts_def)
qed (simp add: sound_ledgers_def sound_receipts_def)


lemma first_begin_run: "work_run 0 first_begin"
proof -
  have "in_years 0" by code_simp
  from work_run.operate [OF work_run.empty [OF this] first_begin_step] show ?thesis .
qed


end
