(* ===== verification/OperationReport.thy ===== *)
theory OperationReport
  imports OperationReadable
begin

text \<open>
  What is kept and what is shown of the terminal receipts: pruning leaves at most \<open>TerminalKeep\<close> of
  them and nothing else goes; the health report shows every receipt that is not terminal and one
  terminal receipt of each kind. Both choose by the text of the stamps, and stamps that drop their
  trailing zeros do not compare as text the way their instants do.
\<close>

subsection \<open>Pruning\<close>

definition terminal_entry :: "string \<times> receipt_file \<Rightarrow> bool" where
  "terminal_entry e \<longleftrightarrow> receipt_entry e \<and> (\<exists>r. snd e = Receipt r \<and> terminal r)"

definition finished_of :: "receipt_file \<Rightarrow> string" where
  "finished_of f = (case f of Receipt r \<Rightarrow> wk_FinishedAt r | _ \<Rightarrow> [])"

lemma foldl_removals:
  "foldl (\<lambda>fs old. snd (os_Remove_receipt work_io_ok (fst old) fs)) fs olds = filter (\<lambda>e. fst e \<notin> fst ` set olds) fs"
proof (induction olds arbitrary: fs)
  case (Cons old olds)
  have "AList.delete k fs = filter (\<lambda>e. fst e \<noteq> k) fs" for k by (induction fs) auto
  then have "snd (os_Remove_receipt work_io_ok (fst old) fs) = filter (\<lambda>e. fst e \<noteq> fst old) fs"
    by (force simp: os_Remove_receipt_def work_io_ok_def intro!: filter_True [symmetric])
  then show ?case using Cons by (auto intro: filter_cong)
qed simp

lemma terminal_names:
  assumes "distinct (map fst fs)"
  shows "concat (map (\<lambda>n. case terminal_receipt work_io_ok fs n of Some f \<Rightarrow> [(n, f)] | None \<Rightarrow> []) (map fst (filter receipt_entry fs)))
    = map (\<lambda>e. (fst e, finished_of (snd e))) (filter terminal_entry fs)"
proof -
  have t: "(case terminal_receipt work_io_ok fs (fst e) of Some f \<Rightarrow> [(fst e, f)] | None \<Rightarrow> [])
      = (if terminal_entry e then [(fst e, finished_of (snd e))] else [])" if "e \<in> set (filter receipt_entry fs)" for e
  proof -
    have "map_of fs (fst e) = Some (snd e)" using that assms by simp
    then show ?thesis using that
      by (cases "snd e") (auto simp: terminal_receipt_def LoadRecord_def work_io_ok_def terminal_entry_def terminal_def finished_of_def)
  qed
  have "concat (map (\<lambda>n. case terminal_receipt work_io_ok fs n of Some f \<Rightarrow> [(n, f)] | None \<Rightarrow> []) (map fst es))
      = map (\<lambda>e. (fst e, finished_of (snd e))) (filter terminal_entry es)" if "set es \<subseteq> set (filter receipt_entry fs)" for es
    using that t by (induction es) auto
  from this [of "filter receipt_entry fs"] have "concat (map (\<lambda>n. case terminal_receipt work_io_ok fs n of Some f \<Rightarrow> [(n, f)] | None \<Rightarrow> [])
      (map fst (filter receipt_entry fs))) = map (\<lambda>e. (fst e, finished_of (snd e))) (filter terminal_entry (filter receipt_entry fs))"
    by blast
  also have "filter terminal_entry (filter receipt_entry fs) = filter terminal_entry fs"
    by (auto simp: terminal_entry_def intro: filter_cong)
  finally show ?thesis .
qed

lemma later_first_order: "weak_order later_first"
  unfolding weak_order_def later_first_def by (auto simp: not_less split: if_splits)

lemma PruneTerminal_ok:
  assumes "distinct (map fst fs)"
  defines "terms \<equiv> sort_by later_first (map (\<lambda>e. (fst e, finished_of (snd e))) (filter terminal_entry fs))"
  shows "PruneTerminal work_io_ok fs = filter (\<lambda>e. fst e \<notin> fst ` set (drop TerminalKeep terms)) fs"
proof -
  have "wi_list work_io_ok = None" by (simp add: work_io_ok_def)
  then have "PruneTerminal work_io_ok fs = (if length terms \<le> TerminalKeep then fs
      else foldl (\<lambda>fs old. snd (os_Remove_receipt work_io_ok (fst old) fs)) fs (drop TerminalKeep terms))"
    unfolding PruneTerminal_def Let_def terminal_names [OF assms(1)] terms_def by simp
  then show ?thesis by (simp add: foldl_removals)
qed

definition age_key :: "string \<times> receipt_file \<Rightarrow> string \<times> string" where
  "age_key e = (fst e, finished_of (snd e))"

lemma entry_of_name: "distinct (map fst fs) \<Longrightarrow> e \<in> set fs \<Longrightarrow> e' \<in> set fs \<Longrightarrow> fst e = fst e' \<Longrightarrow> e = e'"
  by (metis eq_key_imp_eq_value prod.collapse)

lemma PruneTerminal_kept:
  assumes "distinct (map fst fs)"
  obtains kept gone where "PruneTerminal work_io_ok fs = filter (\<lambda>e. fst e \<notin> fst ` set gone) fs"
    "set (kept @ gone) = age_key ` {e \<in> set fs. terminal_entry e}" "length kept \<le> TerminalKeep"
    "length (filter terminal_entry fs) \<le> TerminalKeep \<Longrightarrow> gone = []" "sorted_by later_first (kept @ gone)"
proof
  define terms where "terms = sort_by later_first (map age_key (filter terminal_entry fs))"
  show "PruneTerminal work_io_ok fs = filter (\<lambda>e. fst e \<notin> fst ` set (drop TerminalKeep terms)) fs"
    using PruneTerminal_ok [OF assms] by (simp add: terms_def age_key_def [abs_def])
  show "set (take TerminalKeep terms @ drop TerminalKeep terms) = age_key ` {e \<in> set fs. terminal_entry e}"
    by (auto simp: terms_def)
  show "drop TerminalKeep terms = []" if "length (filter terminal_entry fs) \<le> TerminalKeep"
    using that by (simp add: terms_def)
  show "sorted_by later_first (take TerminalKeep terms @ drop TerminalKeep terms)"
    by (simp add: terms_def sorted_sort_by [OF later_first_order])
qed simp

text \<open>C38: Retained completions are bounded. Where the files answer, \<open>PruneTerminal\<close> leaves at most
  \<open>TerminalKeep\<close> terminal receipts of a kind; it removes nothing while there are no more, it never
  removes anything that is not a terminal receipt, and every terminal receipt it keeps comes before
  every one it removes in the order of the finishing stamps, latest first, and then of the names.\<close>

theorem terminal_receipts_are_bounded:
  assumes "distinct (map fst fs)"
  shows "length (filter terminal_entry (PruneTerminal work_io_ok fs)) \<le> TerminalKeep
    \<and> (length (filter terminal_entry fs) \<le> TerminalKeep \<longrightarrow> PruneTerminal work_io_ok fs = fs)
    \<and> filter (\<lambda>e. \<not> terminal_entry e) (PruneTerminal work_io_ok fs) = filter (\<lambda>e. \<not> terminal_entry e) fs
    \<and> (\<forall>a \<in> set fs. \<forall>b \<in> set fs. terminal_entry a \<longrightarrow> a \<in> set (PruneTerminal work_io_ok fs)
        \<longrightarrow> b \<notin> set (PruneTerminal work_io_ok fs)
        \<longrightarrow> later_first (fst a, finished_of (snd a)) (fst b, finished_of (snd b)))"
proof -
  obtain kept gone where p: "PruneTerminal work_io_ok fs = filter (\<lambda>e. fst e \<notin> fst ` set gone) fs"
    and st: "set (kept @ gone) = age_key ` {e \<in> set fs. terminal_entry e}" and n: "length kept \<le> TerminalKeep"
    and few: "length (filter terminal_entry fs) \<le> TerminalKeep \<Longrightarrow> gone = []" and so: "sorted_by later_first (kept @ gone)"
    by (rule PruneTerminal_kept [OF assms]) blast
  let ?fs = "PruneTerminal work_io_ok fs"
  have removed: "terminal_entry e \<and> age_key e \<in> set gone" if e: "e \<in> set fs" "fst e \<in> fst ` set gone" for e
  proof -
    obtain x where x: "x \<in> set gone" "fst x = fst e" using e(2) by auto
    then have "x \<in> set (kept @ gone)" by simp
    then have "x \<in> age_key ` {e \<in> set fs. terminal_entry e}" unfolding st .
    then obtain e' where e': "e' \<in> set fs" "terminal_entry e'" "x = age_key e'" by blast
    then have "e = e'" using entry_of_name [OF assms e(1) e'(1)] x(2) by (simp add: age_key_def)
    then show ?thesis using e' x(1) by blast
  qed
  have stays: "age_key e \<in> set kept" if "e \<in> set ?fs" "terminal_entry e" for e
  proof -
    have e: "e \<in> set fs" "fst e \<notin> fst ` set gone" using that(1) by (simp_all add: p)
    then have "age_key e \<in> set (kept @ gone)" unfolding st using that(2) by blast
    moreover have "age_key e \<notin> set gone" using e(2) by (force simp: age_key_def)
    ultimately show ?thesis by simp
  qed
  have "inj_on fst (set fs)" using assms by (simp add: distinct_map)
  then have "distinct (map age_key (filter terminal_entry ?fs))"
    using assms by (auto simp: p distinct_map inj_on_def age_key_def distinct_filter)
  moreover have "set (map age_key (filter terminal_entry ?fs)) \<subseteq> set kept" using stays by auto
  ultimately have "length (map age_key (filter terminal_entry ?fs)) \<le> length kept"
    by (metis List.finite_set card_length card_mono distinct_card le_trans)
  moreover have "filter (\<lambda>e. \<not> terminal_entry e) ?fs = filter (\<lambda>e. \<not> terminal_entry e) fs"
    unfolding p filter_filter by (rule filter_cong [OF refl]) (use removed in auto)
  moreover have "later_first (age_key a) (age_key b)"
    if "a \<in> set fs" "b \<in> set fs" "terminal_entry a" "a \<in> set ?fs" "b \<notin> set ?fs" for a b
  proof -
    have k: "age_key a \<in> set kept" "age_key b \<in> set gone" using stays removed that by (auto simp: p)
    then have "\<not> later_first (age_key b) (age_key a)" using so by (auto simp: sorted_by_def sorted_wrt_append)
    moreover have "fst a \<noteq> fst b" using that entry_of_name [OF assms that(1,2)] by auto
    ultimately show ?thesis by (auto simp: later_first_def age_key_def split: if_splits)
  qed
  moreover have "?fs = fs" if "length (filter terminal_entry fs) \<le> TerminalKeep" using few [OF that] by (simp add: p)
  ultimately show ?thesis using n by (simp add: age_key_def)
qed

subsection \<open>Stamps compared as text\<close>

text \<open>A stamp half a second after another can come before it as text: the order that decides which
  terminal receipts are kept and shown is not the order of time.\<close>

lemma less_append: "xs @ a < xs @ b \<longleftrightarrow> a < (b :: string)"
  by (induction xs) auto

lemma later_stamp_is_less: "format_rfc3339_nano 500000000 < format_rfc3339_nano 0"
proof -
  have d: "digit_char 0 = CHR ''0''" "digit_char 5 = CHR ''5''" by code_simp+
  have "format_rfc3339 500000000 = format_rfc3339 0" by (simp add: format_rfc3339_def second_def)
  then have "format_rfc3339_nano 500000000 = butlast (format_rfc3339 0) @ ''.5Z''"
    by (simp add: format_rfc3339_nano_def second_def Let_def d upt_rec)
  moreover have "format_rfc3339_nano 0 = butlast (format_rfc3339 0) @ ''Z''"
    by (simp add: format_rfc3339_nano_def second_def Let_def d upt_rec)
  ultimately show ?thesis by (simp add: less_append less_char_def)
qed

subsection \<open>The health report\<close>

definition age :: "activity \<Rightarrow> string \<times> string" where
  "age a = (ac_FinishedAt a, ac_RunID a)"

definition latest_of :: "activity list \<Rightarrow> (string \<rightharpoonup> activity) \<Rightarrow> bool" where
  \<comment> \<open>for each kind among the activities, one of them that none of its kind comes after\<close>
  "latest_of as m \<longleftrightarrow> (\<forall>k. (m k = None \<longleftrightarrow> (\<forall>a \<in> set as. ac_Kind a \<noteq> k))
     \<and> (\<forall>a. m k = Some a \<longrightarrow> ac_Kind a = k \<and> a \<in> set as \<and> (\<forall>b \<in> set as. ac_Kind b = k \<longrightarrow> age b \<le> age a)))"

lemma latest_step_age:
  "latest_step l a = (if \<exists>p. map_of l (ac_Kind a) = Some p \<and> age a \<le> age p then l else AList.update (ac_Kind a) a l)"
proof (cases "map_of l (ac_Kind a)")
  case None
  then show ?thesis by (simp add: latest_step_def)
next
  case (Some p)
  have "(ac_FinishedAt p < ac_FinishedAt a \<or> ac_FinishedAt a = ac_FinishedAt p \<and> ac_RunID p < ac_RunID a) \<longleftrightarrow> \<not> age a \<le> age p"
    by (auto simp: age_def less_eq_prod_def not_le)
  then show ?thesis by (auto simp: latest_step_def Some)
qed

lemma latest_step_distinct: "distinct (map fst l) \<Longrightarrow> distinct (map fst (latest_step l a))"
  by (simp add: latest_step_age distinct_update)

lemma latest_of_step:
  assumes "latest_of as (map_of l)"
  shows "latest_of (as @ [a]) (map_of (latest_step l a))"
proof (cases "\<exists>p. map_of l (ac_Kind a) = Some p \<and> age a \<le> age p")
  case True
  then have s: "latest_step l a = l" by (simp add: latest_step_age)
  show ?thesis using assms True unfolding s latest_of_def by auto
next
  case False
  have s: "map_of (latest_step l a) = (map_of l)(ac_Kind a \<mapsto> a)" 
    unfolding latest_step_age if_not_P [OF False] by (rule update_conv')
  have le: "age b \<le> age a" if "b \<in> set as" "ac_Kind b = ac_Kind a" for b
  proof (cases "map_of l (ac_Kind a)")
    case None
    then show ?thesis using assms that unfolding latest_of_def by blast
  next
    case (Some p)
    then have "age b \<le> age p" using assms that unfolding latest_of_def by blast
    then show ?thesis using False Some by (meson le_cases order_trans)
  qed
  show ?thesis using assms le unfolding s latest_of_def by auto
qed

lemma latest_fold:
  "latest_of as (map_of (foldl latest_step [] as)) \<and> distinct (map fst (foldl latest_step [] as))"
proof (induction as rule: rev_induct)
  case (snoc a as)
  then show ?case using latest_of_step [of as "foldl latest_step [] as" a]
    latest_step_distinct [of "foldl latest_step [] as" a] by simp
qed (simp add: latest_of_def)

lemma latest_values:
  assumes "latest_of as (map_of l)" "distinct (map fst l)"
  shows "map ac_Kind (map snd l) = map fst l"
    "a \<in> set (map snd l) \<Longrightarrow> a \<in> set as \<and> (\<forall>b \<in> set as. ac_Kind b = ac_Kind a \<longrightarrow> age b \<le> age a)"
    "fst ` set l = ac_Kind ` set as"
proof -
  have m: "ac_Kind x = k \<and> x \<in> set as \<and> (\<forall>b \<in> set as. ac_Kind b = k \<longrightarrow> age b \<le> age x)" if "(k, x) \<in> set l" for k x
    using assms(1) map_of_is_SomeI [OF assms(2) that] unfolding latest_of_def by blast
  then show "map ac_Kind (map snd l) = map fst l" by (auto intro!: map_cong)
  show "a \<in> set as \<and> (\<forall>b \<in> set as. ac_Kind b = ac_Kind a \<longrightarrow> age b \<le> age a)" if "a \<in> set (map snd l)"
  proof -
    from that have "\<exists>k. (k, a) \<in> set l" by auto
    then show ?thesis using m by blast
  qed
  have "map_of l k = None \<longleftrightarrow> (\<forall>a \<in> set as. ac_Kind a \<noteq> k)" for k
    using assms(1) unfolding latest_of_def by simp
  then have f: "k \<notin> fst ` set l \<longleftrightarrow> (\<forall>a \<in> set as. ac_Kind a \<noteq> k)" for k
    unfolding map_of_eq_None_iff by simp
  have g: "k \<notin> ac_Kind ` set as \<longleftrightarrow> (\<forall>a \<in> set as. ac_Kind a \<noteq> k)" for k by auto
  show "fst ` set l = ac_Kind ` set as" by (rule set_eqI) (metis f g)
qed

text \<open>What is read before the selection.\<close>

definition read_activities :: "(string \<Rightarrow> work_io) \<Rightarrow> instant \<Rightarrow> (int \<Rightarrow> bool) \<Rightarrow> ledgers \<Rightarrow> activity list" where
  "read_activities io now live ds = concat (map (\<lambda>kind. kind_activities (io kind) kind now live (ds kind)) [KindIngest, KindIndexRebuild])"


definition crowded :: "nat \<Rightarrow> receipts" where
  \<comment> \<open>that many completed runs, beside a file that is no receipt\<close>
  "crowded n = (''notes'', Garbled) # map (\<lambda>k. (replicate k CHR ''a'' @ ''.json'',
     Receipt (new_work KindIngest (replicate k CHR ''a'') 7 ''scan'' 0
       \<lparr>wk_State := Completed, wk_FinishedAt := replicate k CHR ''1''\<rparr>))) [0..<n]"

lemma crowded_names: "distinct (map fst (crowded n))"
proof -
  have "length x = 5 \<Longrightarrow> ''notes'' \<noteq> replicate k CHR ''a'' @ x" if "last x \<noteq> CHR ''s''" for k x
    using that by (metis last_appendR last.simps list.distinct(1) list.size(3) zero_neq_numeral)
  then have "''notes'' \<noteq> replicate k CHR ''a'' @ ''.json''" for k by simp
  then show ?thesis by (auto simp: crowded_def distinct_map inj_on_def o_def dest: arg_cong [where f = length])
qed

lemma crowded_terminal: "length (filter terminal_entry (crowded n)) = n"
proof -
  have "filter terminal_entry (crowded n) = tl (crowded n)"
    by (simp add: crowded_def terminal_entry_def receipt_entry_def terminal_def filter_id_conv)
  then show ?thesis by (simp add: crowded_def)
qed

theorem terminal_receipts_are_bounded_witness:
  "length (filter terminal_entry (crowded 17)) = 17
    \<and> length (filter terminal_entry (PruneTerminal work_io_ok (crowded 17))) \<le> 16"
  using terminal_receipts_are_bounded [OF crowded_names [of 17]] crowded_terminal [of 17] by (simp add: TerminalKeep_def)


end
