(* ===== verification/OperationProgress.thy ===== *)
theory OperationProgress
  imports OperationReport
begin

text \<open>
  The publisher of a run's progress, \<open>Progress\<close> of internal/operation/operation.go: a ticker that
  repeats the last heartbeat, \<open>Update\<close>, which publishes a new one, and \<open>Stop\<close>. Each takes the
  publisher's mutex for as long as it works, so any interleaving is a sequence of these steps.
  The process's table of active publishers is left out.
\<close>

record progress =
  pr_Handle :: handle
  pr_Phase :: string
  pr_Counts :: counts
  pr_Err :: "go_error option"
  pr_Ticking :: bool \<comment> \<open>the goroutine is in its loop\<close>

definition StartProgress :: "handle \<Rightarrow> string \<Rightarrow> progress" where
  "StartProgress h phase = \<lparr>pr_Handle = h, pr_Phase = phase, pr_Counts = no_counts, pr_Err = None, pr_Ticking = True\<rparr>"

definition Progress_tick :: "work_io \<Rightarrow> string \<Rightarrow> instant \<Rightarrow> progress \<Rightarrow> ledgers \<Rightarrow> progress \<times> ledgers" where
  \<comment> \<open>\<open>ticker.C\<close> fires\<close>
  "Progress_tick io state_dir now p ds =
     (if \<not> pr_Ticking p then (p, ds)
      else (let (err, ds) = (case pr_Err p of None \<Rightarrow> Op_Heartbeat io state_dir (pr_Handle p) (pr_Phase p) (pr_Counts p) now ds
                | Some e \<Rightarrow> (Some e, ds))
            in (p\<lparr>pr_Err := err, pr_Ticking := (err = None)\<rparr>, ds)))"

definition Progress_Update ::
  "work_io \<Rightarrow> string \<Rightarrow> string \<Rightarrow> counts \<Rightarrow> instant \<Rightarrow> progress \<Rightarrow> ledgers \<Rightarrow> go_error option \<times> progress \<times> ledgers" where
  "Progress_Update io state_dir phase c now p ds = (case pr_Err p of
       Some e \<Rightarrow> (Some e, p, ds)
     | None \<Rightarrow> (case Op_Heartbeat io state_dir (pr_Handle p) phase c now ds of
           (Some e, ds) \<Rightarrow> (Some e, p\<lparr>pr_Err := Some e\<rparr>, ds)
         | (None, ds) \<Rightarrow> (None, p\<lparr>pr_Phase := phase, pr_Counts := c\<rparr>, ds)))"

definition Progress_Stop :: "progress \<Rightarrow> go_error option \<times> progress" where
  "Progress_Stop p = (pr_Err p, p\<lparr>pr_Ticking := False\<rparr>)"

subsection \<open>What it publishes\<close>

lemma mutate_success:
  assumes "mutateOperation io sd h fn ds = (None, ds')"
  obtains r r' where "map_of (ds (ha_Kind h)) (receipt_name (ha_RunID h)) = Some (Receipt r)" "fn r = Inr r'"
    "map_of (ds' (ha_Kind h)) (receipt_name (ha_RunID h)) = Some (Receipt r')"
proof -
  have "write_error w = None \<Longrightarrow> landed w" for w by (cases w) auto
  then have "\<exists>r r'. map_of (ds (ha_Kind h)) (receipt_name (ha_RunID h)) = Some (Receipt r) \<and> fn r = Inr r'
      \<and> map_of (ds' (ha_Kind h)) (receipt_name (ha_RunID h)) = Some (Receipt r')"
    using assms LoadRecord_file
    by (fastforce simp: mutateOperation_def Let_def guarded_simp join_error_def SaveRecord_def update_conv'
        split: option.splits if_splits sum.splits)
  then show thesis using that by blast
qed

definition shows_progress :: "ledgers \<Rightarrow> handle \<Rightarrow> string \<Rightarrow> counts \<Rightarrow> instant \<Rightarrow> bool" where
  \<comment> \<open>the run's receipt is running, with this phase and these counts, heard of at that instant\<close>
  "shows_progress ds h phase c now \<longleftrightarrow> (\<exists>r. map_of (ds (ha_Kind h)) (receipt_name (ha_RunID h)) = Some (Receipt r)
     \<and> wk_State r = Running \<and> wk_Phase r = TrimSpace phase \<and> wk_Counts r = c
     \<and> wk_HeartbeatAt r = format_rfc3339_nano now)"

lemma Heartbeat_success:
  assumes "Op_Heartbeat io sd h phase c now ds = (None, ds')"
  shows "shows_progress ds' h phase c now"
proof -
  have "mutateOperation io sd h (beat now (\<lambda>r. r\<lparr>wk_HeartbeatAt := format_rfc3339_nano now, wk_Phase := TrimSpace phase,
      wk_Counts := c\<rparr>)) ds = (None, ds')"
    using assms by (simp add: Op_Heartbeat_def Let_def split: if_splits)
  then obtain r r' where b: "beat now (\<lambda>r. r\<lparr>wk_HeartbeatAt := format_rfc3339_nano now, wk_Phase := TrimSpace phase,
      wk_Counts := c\<rparr>) r = Inr r'" and m: "map_of (ds' (ha_Kind h)) (receipt_name (ha_RunID h)) = Some (Receipt r')"
    by (rule mutate_success)
  from b have "wk_State r' = Running \<and> wk_Phase r' = TrimSpace phase \<and> wk_Counts r' = c
      \<and> wk_HeartbeatAt r' = format_rfc3339_nano now"
    by (auto simp: beat_def split: if_splits option.splits)
  with m show ?thesis unfolding shows_progress_def by blast
qed

datatype progress_op = Ticked | Updated string counts | Stopped

fun progress_step :: "string \<Rightarrow> progress \<Rightarrow> ledgers \<Rightarrow> work_io \<times> instant \<times> progress_op \<Rightarrow> progress \<times> ledgers" where
  "progress_step sd p ds (io, now, Ticked) = Progress_tick io sd now p ds"
| "progress_step sd p ds (io, now, Updated phase c) = snd (Progress_Update io sd phase c now p ds)"
| "progress_step sd p ds (io, now, Stopped) = (snd (Progress_Stop p), ds)"

inductive progress_run :: "string \<Rightarrow> progress \<Rightarrow> ledgers \<Rightarrow> progress \<Rightarrow> ledgers \<Rightarrow> bool" for sd where
  \<comment> \<open>steps of a publisher between steps of anyone else\<close>
  here: "progress_run sd p ds p ds"
| step: "progress_run sd p ds p1 ds1 \<Longrightarrow> progress_step sd p1 ds1 ev = (p2, ds2) \<Longrightarrow> progress_run sd p ds p2 ds2"
| others: "progress_run sd p ds p1 ds1 \<Longrightarrow> progress_run sd p ds p1 ds2"

lemma progress_step_cases:
  assumes "progress_step sd p ds (io, now, ev) = (p', ds')"
  shows "pr_Handle p' = pr_Handle p \<and> (\<forall>e. pr_Err p = Some e \<longrightarrow> pr_Err p' = Some e \<and> ds' = ds)"
  using assms
  by (cases ev) (auto simp: Progress_tick_def Progress_Update_def Progress_Stop_def Let_def
      split: if_splits option.splits prod.splits)

lemma progress_run_error:
  "progress_run sd p ds p' ds' \<Longrightarrow> pr_Handle p' = pr_Handle p \<and> (\<forall>e. pr_Err p = Some e \<longrightarrow> pr_Err p' = Some e)"
proof (induction rule: progress_run.induct)
  case (step p ds p1 ds1 ev p2 ds2)
  obtain io now op where "ev = (io, now, op)" by (metis surj_pair)
  then show ?case using step progress_step_cases [of sd p1 ds1 io now op p2 ds2] by metis
qed simp_all


lemma update_begun:
  assumes "map_of (ds KindIngest) (receipt_name rid) = Some (Receipt (new_work KindIngest rid 7 ''scan'' 0))" "validOperationToken rid"
  shows "\<exists>p ds'. Progress_Update work_io_ok ''/state'' ''scan'' no_counts 0
     (StartProgress \<lparr>ha_Kind = KindIngest, ha_RunID = rid, ha_PID = 7\<rparr> ''scan'') ds = (None, p, ds')"
proof -
  have "in_years 0" by code_simp
  then have "beat 0 g (new_work KindIngest rid 7 ''scan'' 0) = Inr (g (new_work KindIngest rid 7 ''scan'' 0))" for g
    using parse_format_nano by (simp add: beat_def new_work_def Let_def)
  moreover have "wk_RunID (new_work KindIngest rid 7 ''scan'' 0) = rid" "wk_Kind (new_work KindIngest rid 7 ''scan'' 0) = KindIngest"
    "wk_OwnerPID (new_work KindIngest rid 7 ''scan'' 0) = 7" by (simp_all add: new_work_def Let_def)
  ultimately have "\<exists>ds'. Op_Heartbeat work_io_ok ''/state'' \<lparr>ha_Kind = KindIngest, ha_RunID = rid, ha_PID = 7\<rparr> ''scan''
      no_counts 0 ds = (None, ds')"
    by (simp add: Op_Heartbeat_def valid_phase_scan validCounts_def no_counts_def mutateOperation_def operationStateRootErr_def
        has_prefix_def operationKindValid_def assms guarded_simp LoadRecord_def work_io_ok_def guard_io_ok_def
        SaveRecord_def join_error_def Let_def)
  then show ?thesis by (auto simp: Progress_Update_def StartProgress_def)
qed

lemma first_begin_update:
  "\<exists>p ds. Progress_Update work_io_ok ''/state'' ''scan'' no_counts 0
     (StartProgress \<lparr>ha_Kind = KindIngest, ha_RunID = first_run, ha_PID = 7\<rparr> ''scan'') first_begin = (None, p, ds)"
proof (rule update_begun [where ds = first_begin, OF first_begin_receipt])
  show "validOperationToken first_run" by (rule run_id_valid) (code_simp, simp)
qed


end
