(* ===== verification/Spec2Isabelle.thy ===== *)
theory Spec2Isabelle
  imports RegistryReads EnvelopeClaims HostClaims CaptureClaims GovernanceLimits CommitmentRecords OperationProgress
begin

text \<open>
  A verification library for the core of mora, a local memory kernel written in Go. The kernel keeps
  a person's memories as files in a vault, lets paired companion devices capture into it through a
  small HTTP listener, keeps an append-only ledger of the owner's decisions over it, and derives from
  the memories which commitments are still open. The library models the parts that decide something,
  definition by definition from the Go source, and proves what makes each of them correct.

  \<^bold>\<open>Parts and how they interact\<close>

  The companion listener (\<open>internal/companion\<close>) answers requests of devices. It authenticates them
  against the device registry, admits them through guards and a route table, and for a capture asks the
  kernel's policy and write seam, once, under a claim of the reservation store, so that a retried
  capture gets the bytes of its first answer. What goes over the wire is the contract of \<open>schema.go\<close> and
  \<open>envelope.go\<close>. The governance ledger (\<open>internal/governance\<close>) serialises its writers with a lease file
  (\<open>internal/leasefile\<close>) and names people by identity atoms (\<open>internal/identity\<close>); its policy decides what
  is suppressed, merged and superseded. Corrections (\<open>internal/disposition\<close>) and citations
  (\<open>internal/evidence\<close>) feed the projection of commitments (\<open>internal/commitment\<close>). Running ingests and
  index rebuilds report through work receipts (\<open>internal/operation\<close>).

  \<^bold>\<open>Which theory models what\<close>

  \<^item> Shared: \<open>Prelude\<close> (rewrite collections, the first-error chain of the validators, lists); \<open>GoTime\<close>,
    \<open>TimeFacts\<close> and \<open>NanoTime\<close> (instants, calendar, RFC 3339 formatting and parsing, what the order of
    stamps as text means); \<open>GoText\<close> (bytes, runes, UTF-8, trimming, fields, sorting); \<open>GoCrypto\<close>
    (SHA-256 on 32-bit words, hex, constant-time comparison).
  \<^item> \<open>schema.go\<close>: \<open>Schema\<close> (constants, scalar validators), \<open>Payloads\<close> and \<open>Receipts\<close> (the documents and
    their \<open>Validate\<close>), \<open>SchemaFacts\<close>, \<open>ContractClaims\<close>. \<open>envelope.go\<close>: \<open>Envelope\<close>, \<open>EnvelopeClaims\<close>.
  \<^item> \<open>registry.go\<close>: \<open>Registry\<close> (the file, the locked section \<open>mutate\<close>) and \<open>RegistryOps\<close> (\<open>Pair\<close>, \<open>Confirm\<close>,
    \<open>Authenticate\<close>, \<open>Revoke\<close>, the guess counter, the reads); \<open>RegistryStore\<close>, \<open>RegistryProofs\<close> (the contract
    of a locked section), \<open>RegistrySteps\<close> (reachable states), \<open>RegistryClaims\<close>, \<open>ConfirmClaims\<close>,
    \<open>RegistryAdmin\<close>, \<open>RegistryReads\<close>.
  \<^item> \<open>idempotency.go\<close>: \<open>Reservations\<close>; \<open>ReservationFacts\<close>, \<open>ReservationLaw\<close>, \<open>ReservationSteps\<close>,
    \<open>ReservationClaims\<close>, \<open>ReservationDisk\<close>.
  \<^item> \<open>server.go\<close>: \<open>Http\<close>, \<open>ServerCore\<close>, \<open>Server\<close>; \<open>ServerClaims\<close>, \<open>HostClaims\<close>. \<open>capture.go\<close>:
    \<open>CaptureIdentity\<close>, \<open>CaptureRoute\<close>, \<open>CaptureClaims\<close>. \<open>pairing_route.go\<close>: \<open>ServerCore\<close> (the handler),
    \<open>PairingLaw\<close>, \<open>PairingClaims\<close>, \<open>PairingRoute\<close>.
  \<^item> \<open>leasefile\<close>: \<open>LeaseFile\<close>, \<open>LeaseLaw\<close>, \<open>LeaseClaims\<close>. \<open>identity\<close>: \<open>Identity\<close>. \<open>governance/store.go\<close>:
    \<open>GovernanceStore\<close> (as the code runs it), \<open>GovernanceSteps\<close> (many processes, interleaved),
    \<open>GovernanceClaims\<close>, \<open>GovernanceLimits\<close>. \<open>governance/policy.go\<close>: \<open>GovernancePolicy\<close>, \<open>GovernanceEffect\<close>.
  \<^item> \<open>disposition\<close>: \<open>Disposition\<close>. \<open>evidence/citation.go\<close>: \<open>EvidenceCitation\<close>. \<open>commitment\<close>: \<open>CommitmentText\<close>,
    \<open>Commitments\<close> (\<open>lifecycle.go\<close>), \<open>CommitmentClaims\<close>, \<open>CommitmentRecords\<close> (\<open>records.go\<close>, \<open>model.go\<close>).
  \<^item> \<open>operation.go\<close>: \<open>Operations\<close>, \<open>OperationClaims\<close>, \<open>OperationReadable\<close>, \<open>OperationReport\<close>, \<open>OperationProgress\<close>.

  \<^bold>\<open>How the code becomes definitions\<close>

  A Go struct is a record, with its fields in order and a prefix of the type; an enum of strings is a
  string; a string is its bytes; a \<open>time.Time\<close> is the nanoseconds since 1970. An operation on stored
  state takes the state and returns it with its result, so an early return after a write still shows the
  write. A \<open>(value, error)\<close> pair is a sum or a pair with an optional error; error messages are dropped
  where no code branches on them. The filesystem, the lock, the clock and the entropy source answer
  through an argument: one record of outcomes per locked section (a tape of them where an operation has
  several), and a write may fail before it lands, fail after it landed, or succeed. Proofs quantify
  over every such answer unless the statement says which are meant. Concurrency is a step relation:
  the steps are the locked sections or single file operations, in any order.

  Parameters stand for what is not in the source: the size of an encoded registry (\<open>json_size\<close>), the
  JSON codec of the wire documents, the URL parser, the answer for paths no route matches, the decoding
  of a lease body, the tables of package \<open>unicode\<close> above ASCII, and sorts that leave equal elements in any
  order. The hypotheses on them are documented behaviour and are named in the statements.

  \<^bold>\<open>What the lemmas show\<close>

  \<^item> Wire contract: what a validated document guarantees; the decode and encode pair; the operation
    state machine admits only its published histories.
  \<^item> Registry: every step keeps the file readable and well formed, moves a device only forward and
    writes no untrue audit row; a revoked credential never authenticates again; a code is spent once.
  \<^item> Reservations: the bounds of the census hold on disk; a settled key is answered with its receipt;
    a live claim excludes others; only what may be collected is removed.
  \<^item> Listener: nothing but the public routes is served without a credential; the work slots are given
    back; a capture is published only under a live pairing that was looked at twice; a pairing code can be
    guessed a bounded number of times, over any interleaving and any faults.
  \<^item> Leases and ledger: two fresh holders never meet; the ledger file is what its successful writers make
    of it one after the other, a refinement of an atomic ledger; an abandoned lease is taken; every loop
    returns. \<open>GovernanceLimits\<close> shows where that guarantee ends: a writer paused past the lease time.
  \<^item> Policy, corrections, commitments: suppression, merging and replacement act as the ledger says; the
    latest correction wins whatever the order; an item is closed only by evidence that fits it alone, and
    deduplication loses no citation.
  \<^item> Work receipts: they only move forward and only by right; what is published is readable; what is kept
    is bounded; what is shown is what matters.

  \<^bold>\<open>Interfaces\<close>

  \<open>record_store\<close> and \<open>guarded_change\<close> (\<open>RegistryStore\<close>) say what a change under the registry's lock must
  keep; \<open>RegistryProofs\<close> interprets them for each operation. \<open>reservation_law\<close> (\<open>ReservationLaw\<close>) lifts a
  property of the store's primitive steps to its operations; it is interpreted for the files (\<open>files\<close>) and
  for the census (\<open>pending\<close>). \<open>guess_counter\<close> (\<open>PairingLaw\<close>) is what the pairing route asks of a registry;
  \<open>PairingClaims\<close> discharges it for the modelled one (\<open>reg\<close>). \<open>lease_contract\<close> (\<open>LeaseLaw\<close>) is what the
  ledger asks of a lease file, discharged for \<open>Publish\<close> and \<open>Break\<close> (\<open>lease\<close>).

  \<^bold>\<open>Bounds and loops\<close>

  There is no fuel. The two retry loops, of removing and of acquiring a lease, are partial functions into
  \<open>option\<close>; \<open>removal_returns\<close> and \<open>acquire_returns\<close> prove that they return when the clock
  they read passes its deadline. Sizes, attempts and ages are the constants of the source.

  \<^bold>\<open>Not modelled\<close>

  Sockets, timeouts and the startup banner of \<open>Serve\<close>; the time a response takes (only the bucket
  arithmetic is); locks as anything but mutual exclusion; path resolution; connectors, the SQL index,
  search and its float scores, embeddings, rendering of digests and briefs, installers and updates. These
  are I/O, text heuristics or glue around external programs and libraries.
\<close>

end
